(* ===== verification/Go_Runtime.thy ===== *)
theory Go_Runtime
  imports Main "HOL-Library.Word"
begin

text \<open>
  The part of the Go language and of its standard library that the sources under \<open>src/\<close> rely
  on: machine integers, panics and error values, slices with a capacity, \<open>bytes.Buffer\<close> and the
  byte orders of \<open>encoding/binary\<close>.  Nothing here is specific to the wallet; every component
  theory imports this one.
\<close>

unbundle bit_operations_syntax

named_theorems go_simps \<open>definitional unfoldings of the Go runtime\<close>
named_theorems codec_simps \<open>encode/decode laws of the byte codecs\<close>

section \<open>Machine integers, panics and errors\<close>

type_synonym byte = "8 word"
type_synonym bytes = "8 word list"
type_synonym uint16 = "16 word"
type_synonym uint32 = "32 word"
type_synonym uint64 = "64 word"

text \<open>
  A Go call either returns or panics.  A panic unwinds to the top of the goroutine, so it is a
  second outcome and not a value the callers see.
\<close>

datatype panic =
    IndexOutOfRange
  | SliceBoundsOutOfRange
  | NilPointer
  | ExplicitPanic string

datatype 'a go = Ret 'a | Panic panic

primrec go_bind :: "'a go \<Rightarrow> ('a \<Rightarrow> 'b go) \<Rightarrow> 'b go" where
  "go_bind (Ret x) f = f x"
| "go_bind (Panic p) f = Panic p"

lemma go_bind_cong [fundef_cong]:
  "m = m' \<Longrightarrow> (\<And>x. m' = Ret x \<Longrightarrow> f x = g x) \<Longrightarrow> go_bind m f = go_bind m' g"
  by (cases m') auto

lemma go_bind_Ret_iff: "go_bind m f = Ret y \<longleftrightarrow> (\<exists>x. m = Ret x \<and> f x = Ret y)"
  by (cases m) auto

lemma go_bind_RetE:
  assumes "go_bind m f = Ret y"
  obtains x where "m = Ret x" and "f x = Ret y"
  using assms by (cases m) auto

lemma go_bind_Panic_iff:
  "go_bind m f = Panic p \<longleftrightarrow> m = Panic p \<or> (\<exists>x. m = Ret x \<and> f x = Panic p)"
  by (cases m) auto

lemma go_bind_assoc: "go_bind (go_bind m f) g = go_bind m (\<lambda>x. go_bind (f x) g)"
  by (cases m) auto

lemma go_bind_Ret_map: "go_bind m (\<lambda>x. Ret (f x)) = map_go f m"
  by (cases m) simp_all

lemma go_bind_map: "go_bind (map_go f m) g = go_bind m (\<lambda>x. g (f x))"
  by (cases m) simp_all

lemma map_go_bind: "map_go f (go_bind m g) = go_bind m (\<lambda>x. map_go f (g x))"
  by (cases m) auto

text \<open>
  Error values: \<open>Errorf fmt args\<close> is \<open>fmt.Errorf\<close> with numeric arguments (and \<open>errors.New\<close> with
  none); \<open>Wrap\<close> is a message with a wrapped error (the \<open>%w\<close> verb); \<open>ServerError\<close> is \<open>rpc.ServerError\<close>,
  the text of an error that a remote procedure returned.  A nil error is \<^const>\<open>None\<close> where both a result
  and an error are returned.
\<close>

datatype go_error =
    Errorf string "nat list"
  | Wrap string go_error
  | ServerError string

fun errors_Is :: "go_error \<Rightarrow> go_error \<Rightarrow> bool" where
  "errors_Is (Wrap m e) t = (Wrap m e = t \<or> errors_Is e t)"
| "errors_Is e t = (e = t)"

definition io_EOF :: go_error where
  "io_EOF = Errorf ''EOF'' []"

definition io_ErrUnexpectedEOF :: go_error where
  "io_ErrUnexpectedEOF = Errorf ''unexpected EOF'' []"

section \<open>Slices\<close>

lemma nths_append_drop: "k \<le> length xs \<Longrightarrow> map ((!) xs) [0..<k] @ drop k xs = xs"
  by (rule nth_equalityI) (auto simp: nth_append)

text \<open>
  A slice shows \<open>elems\<close> and has \<open>spare\<close> behind them, up to its capacity.  Indexing is bounded by
  the length, but a slice expression \<open>s[lo:hi]\<close> is bounded by the \<^emph>\<open>capacity\<close>: Go lets it reach
  into the spare part.
\<close>

record gslice =
  elems :: bytes
  spare :: bytes

definition len :: "gslice \<Rightarrow> nat" where
  "len s = length (elems s)"

definition backing :: "gslice \<Rightarrow> bytes" where
  "backing s = elems s @ spare s"

definition cap :: "gslice \<Rightarrow> nat" where
  "cap s = length (backing s)"

definition slice_of :: "bytes \<Rightarrow> gslice" where
  "slice_of xs = \<lparr>elems = xs, spare = []\<rparr>"

definition index_at :: "gslice \<Rightarrow> nat \<Rightarrow> byte go" where
  "index_at s i = (if i < len s then Ret (elems s ! i) else Panic IndexOutOfRange)"

definition reslice :: "gslice \<Rightarrow> nat \<Rightarrow> nat \<Rightarrow> gslice go" where
  "reslice s lo hi =
     (if lo \<le> hi \<and> hi \<le> cap s
      then Ret \<lparr>elems = take (hi - lo) (drop lo (backing s)), spare = drop hi (backing s)\<rparr>
      else Panic SliceBoundsOutOfRange)"

definition slice_from :: "gslice \<Rightarrow> nat \<Rightarrow> gslice go" where
  "slice_from s lo = reslice s lo (len s)"

lemma len_le_cap: "len s \<le> cap s"
  by (simp add: len_def cap_def backing_def)

lemma elems_slice_of [simp]: "elems (slice_of xs) = xs"
  by (simp add: slice_of_def)

lemma spare_slice_of [simp]: "spare (slice_of xs) = []"
  by (simp add: slice_of_def)

lemma backing_make [simp]: "backing \<lparr>elems = a, spare = b\<rparr> = a @ b"
  by (simp add: backing_def)

lemma take_drop_split: "lo \<le> hi \<Longrightarrow> take (hi - lo) (drop lo xs) @ drop hi xs = drop lo xs"
  using append_take_drop_id [of "hi - lo" "drop lo xs"] by simp

lemma backing_reslice:
  assumes "reslice s lo hi = Ret t"
  shows "backing t = drop lo (backing s)"
proof -
  from assms have "lo \<le> hi"
    and "t = \<lparr>elems = take (hi - lo) (drop lo (backing s)), spare = drop hi (backing s)\<rparr>"
    by (auto simp: reslice_def split: if_splits)
  then show ?thesis
    by (simp add: take_drop_split)
qed

lemma cap_reslice: "reslice s lo hi = Ret t \<Longrightarrow> cap t = cap s - lo"
  by (simp add: backing_reslice cap_def)

lemma elems_reslice: "reslice s lo hi = Ret t \<Longrightarrow> elems t = take (hi - lo) (drop lo (backing s))"
  by (auto simp: reslice_def split: if_splits)

lemma reslice_Ret_iff: "(\<exists>t. reslice s lo hi = Ret t) \<longleftrightarrow> lo \<le> hi \<and> hi \<le> cap s"
  by (simp add: reslice_def)

lemma slice_from_Ret:
  assumes "lo \<le> len s"
  shows "slice_from s lo = Ret \<lparr>elems = drop lo (elems s), spare = spare s\<rparr>"
  using assms len_le_cap [of s]
  by (simp add: slice_from_def reslice_def len_def backing_def)

text \<open>Slicing a list that is known not to be re-sliced past its length.\<close>

definition slice_list :: "'a list \<Rightarrow> nat \<Rightarrow> nat \<Rightarrow> 'a list go" where
  "slice_list xs lo hi =
     (if lo \<le> hi \<and> hi \<le> length xs then Ret (take (hi - lo) (drop lo xs))
      else Panic SliceBoundsOutOfRange)"

text \<open>\<open>copy(dst[:], src)\<close> into an array of a fixed size.\<close>

definition copy_into :: "'a list \<Rightarrow> 'a list \<Rightarrow> 'a list" where
  "copy_into dst src = take (length dst) src @ drop (length src) dst"

lemma length_copy_into [simp]: "length (copy_into dst src) = length dst"
  by (simp add: copy_into_def)

lemma copy_into_replicate:
  "length src \<le> n \<Longrightarrow> copy_into (replicate n z) src = src @ replicate (n - length src) z"
  by (simp add: copy_into_def)

section \<open>bytes.Buffer\<close>

text \<open>
  The sources only write to, truncate and view buffers, so the read offset stays 0 and the buffer
  is its contents plus the spare capacity.  Growth follows \<open>(*Buffer).grow\<close> of Go 1.17, the
  version \<open>go.mod\<close> names: re-slice when the spare room suffices, start with 64 bytes, otherwise
  allocate \<open>2*cap + n\<close>.  (The branch that slides unread data down needs a positive offset.)
\<close>

type_synonym buffer = gslice

definition empty_buffer :: buffer where
  "empty_buffer = \<lparr>elems = [], spare = []\<rparr>"

definition smallBufferSize :: nat where
  "smallBufferSize = 64"

definition buffer_Write :: "buffer \<Rightarrow> bytes \<Rightarrow> buffer" where
  "buffer_Write b p =
     (let n = length p; m = len b; c = cap b in
      if n \<le> c - m then \<lparr>elems = elems b @ p, spare = drop n (spare b)\<rparr>
      else if c = 0 \<and> n \<le> smallBufferSize
           then \<lparr>elems = p, spare = replicate (smallBufferSize - n) 0\<rparr>
      else \<lparr>elems = elems b @ p, spare = replicate (2 * c - m) 0\<rparr>)"

definition buffer_Truncate :: "buffer \<Rightarrow> nat \<Rightarrow> buffer go" where
  "buffer_Truncate b n =
     (if n > len b then Panic (ExplicitPanic ''bytes.Buffer: truncation out of range'')
      else Ret \<lparr>elems = take n (elems b), spare = drop n (elems b) @ spare b\<rparr>)"

lemma elems_empty_buffer [simp]: "elems empty_buffer = []"
  by (simp add: empty_buffer_def)

lemma elems_buffer_Write [simp]: "elems (buffer_Write b p) = elems b @ p"
  by (auto simp: buffer_Write_def Let_def cap_def backing_def)

lemma len_buffer_Write [simp]: "len (buffer_Write b p) = len b + length p"
  by (simp add: len_def)

lemma buffer_Truncate_Ret:
  "n \<le> len b \<Longrightarrow>
   buffer_Truncate b n = Ret \<lparr>elems = take n (elems b), spare = drop n (elems b) @ spare b\<rparr>"
  by (simp add: buffer_Truncate_def)

lemma cap_buffer_Truncate: "buffer_Truncate b n = Ret b' \<Longrightarrow> backing b' = backing b"
  by (auto simp: buffer_Truncate_def backing_def split: if_splits)

section \<open>Byte orders (encoding/binary)\<close>

definition be_uint16 :: "byte \<Rightarrow> byte \<Rightarrow> uint16" where
  "be_uint16 b0 b1 = (ucast b1 :: uint16) OR push_bit 8 (ucast b0)"

definition be_put16 :: "uint16 \<Rightarrow> bytes" where
  "be_put16 v = [ucast (drop_bit 8 v), ucast v]"

definition le_put16 :: "uint16 \<Rightarrow> bytes" where
  "le_put16 v = [ucast v, ucast (drop_bit 8 v)]"

definition le_uint32 :: "byte \<Rightarrow> byte \<Rightarrow> byte \<Rightarrow> byte \<Rightarrow> uint32" where
  "le_uint32 b0 b1 b2 b3 =
     (ucast b0 :: uint32) OR push_bit 8 (ucast b1) OR push_bit 16 (ucast b2) OR push_bit 24 (ucast b3)"

definition le_put32 :: "uint32 \<Rightarrow> bytes" where
  "le_put32 v = [ucast v, ucast (drop_bit 8 v), ucast (drop_bit 16 v), ucast (drop_bit 24 v)]"

lemma length_be_put16 [simp]: "length (be_put16 v) = 2"
  by (simp add: be_put16_def)

lemma length_le_put16 [simp]: "length (le_put16 v) = 2"
  by (simp add: le_put16_def)

lemma length_le_put32 [simp]: "length (le_put32 v) = 4"
  by (simp add: le_put32_def)

lemma bit_byte_beyond: "8 \<le> n \<Longrightarrow> \<not> bit (b :: byte) n"
  by (auto dest: bit_imp_le_length)

lemma be_uint16_put [codec_simps]: "be_uint16 (ucast (drop_bit 8 v)) (ucast v) = v"
  by (rule bit_word_eqI) (auto simp: be_uint16_def bit_simps)

lemma be_put16_uint16 [codec_simps]: "be_put16 (be_uint16 a b) = [a, b]"
  by (auto simp: be_put16_def be_uint16_def bit_simps bit_byte_beyond intro!: bit_word_eqI)

lemma le_uint32_put [codec_simps]:
  "le_uint32 (ucast v) (ucast (drop_bit 8 v)) (ucast (drop_bit 16 v)) (ucast (drop_bit 24 v)) = v"
proof (rule bit_word_eqI)
  fix n
  assume "n < LENGTH(32)"
  then consider "n < 8" | "8 \<le> n" "n < 16" | "16 \<le> n" "n < 24" | "24 \<le> n" "n < 32"
    by fastforce
  then show "bit (le_uint32 (ucast v) (ucast (drop_bit 8 v)) (ucast (drop_bit 16 v))
      (ucast (drop_bit 24 v))) n = bit v n"
    by cases (auto simp: le_uint32_def bit_simps)
qed

lemma le_put32_uint32 [codec_simps]: "le_put32 (le_uint32 a b c d) = [a, b, c, d]"
  by (auto simp: le_put32_def le_uint32_def bit_simps bit_byte_beyond intro!: bit_word_eqI)

section \<open>Fixed-size structs (binary.Read and binary.Write)\<close>

text \<open>
  \<open>binary.Read\<close> fills a struct of \<open>w\<close> bytes from a reader over \<open>bs\<close>: \<open>io.ReadFull\<close> gives
  \<open>io.EOF\<close> when nothing can be read and \<open>io.ErrUnexpectedEOF\<close> when the data stops early; bytes
  behind the struct are not looked at.
\<close>

definition binary_Read :: "nat \<Rightarrow> (bytes \<Rightarrow> 'f) \<Rightarrow> bytes \<Rightarrow> go_error + 'f" where
  "binary_Read w dec bs =
     (if bs = [] \<and> 0 < w then Inl io_EOF
      else if length bs < w then Inl io_ErrUnexpectedEOF
      else Inr (dec (take w bs)))"

text \<open>
  The contract of a struct layout: encoding has a fixed width, and encoding and decoding are
  inverse to each other on well-formed structs and on strings of that width.
\<close>

locale binary_codec =
  fixes w :: nat
    and wf :: "'f \<Rightarrow> bool"
    and enc :: "'f \<Rightarrow> bytes"
    and dec :: "bytes \<Rightarrow> 'f"
  assumes width_pos: "0 < w"
    and length_enc: "wf f \<Longrightarrow> length (enc f) = w"
    and wf_dec: "length bs = w \<Longrightarrow> wf (dec bs)"
    and dec_enc: "wf f \<Longrightarrow> dec (enc f) = f"
    and enc_dec: "length bs = w \<Longrightarrow> enc (dec bs) = bs"
begin

lemma read_written: "wf f \<Longrightarrow> binary_Read w dec (enc f @ rest) = Inr f"
  using length_enc [of f] width_pos
  by (auto simp: binary_Read_def dec_enc)

lemma read_wf: "binary_Read w dec bs = Inr f \<Longrightarrow> wf f"
  by (auto simp: binary_Read_def intro!: wf_dec split: if_splits)

lemma read_exact:
  assumes "binary_Read w dec bs = Inr f" and "length bs = w"
  shows "enc f = bs"
proof -
  from assms have "dec bs = f"
    using width_pos by (simp add: binary_Read_def split: if_splits)
  with assms(2) show ?thesis
    using enc_dec by blast
qed

lemma enc_inj: "wf f \<Longrightarrow> wf g \<Longrightarrow> enc f = enc g \<Longrightarrow> f = g"
  by (metis dec_enc)

lemma read_error_iff:
  "(\<exists>e. binary_Read w dec bs = Inl e) \<longleftrightarrow> length bs < w"
  using width_pos by (auto simp: binary_Read_def)

end

section \<open>Numbers as text (strconv, fmt)\<close>

fun decimal :: "nat \<Rightarrow> string" where
  "decimal n = (if n < 10 then [char_of (48 + n)] else decimal (n div 10) @ [char_of (48 + n mod 10)])"

declare decimal.simps [simp del]

definition format_int :: "int \<Rightarrow> string" where
  "format_int i = (if i < 0 then ''-'' @ decimal (nat (- i)) else decimal (nat i))"

text \<open>The text of an error: numbers replace the verbs of the format, a wrapped error follows a comma.\<close>

fun fill_verbs :: "string \<Rightarrow> nat list \<Rightarrow> string" where
  "fill_verbs [] args = []"
| "fill_verbs [c] args = [c]"
| "fill_verbs (c # d # cs) args =
     (if c = CHR ''%''
      then (case args of [] \<Rightarrow> fill_verbs cs [] | n # ns \<Rightarrow> decimal n @ fill_verbs cs ns)
      else c # fill_verbs (d # cs) args)"

fun error_text :: "go_error \<Rightarrow> string" where
  "error_text (Errorf f args) = (if args = [] then f else fill_verbs f args)"
| "error_text (Wrap m e) = m @ '', '' @ error_text e"
| "error_text (ServerError m) = m"

fun panic_text :: "panic \<Rightarrow> string" where
  "panic_text IndexOutOfRange = ''runtime error: index out of range''"
| "panic_text SliceBoundsOutOfRange = ''runtime error: slice bounds out of range''"
| "panic_text NilPointer = ''runtime error: invalid memory address or nil pointer dereference''"
| "panic_text (ExplicitPanic m) = m"

end
