(* ===== verification/Usb.thy ===== *)
theory Usb
  imports Go_Runtime Complex_Main
begin

text \<open>
  The HID transport of \<open>src/usb/usb.go\<close>: the 64-byte frames and their binary layout, the
  \<open>Session\<close> that reassembles a message from frames, and \<open>FormatResponse\<close>, which cuts a reply into
  frames.  The logger of a session only prints and is left out.
\<close>

section \<open>Frames\<close>

definition LedgerNanoXReport :: bytes where
  "LedgerNanoXReport =
     [0x06, 0xA0, 0xFF, 0x09, 0x01, 0xA1, 0x01, 0x09, 0x03, 0x15, 0x00, 0x26, 0xFF, 0x00, 0x75,
      0x08, 0x95, 0x40, 0x81, 0x08, 0x09, 0x04, 0x15, 0x00, 0x26, 0xFF, 0x00, 0x75, 0x08, 0x95,
      0x40, 0x91, 0x08, 0xC0]"

definition hidFrameMaxDataSize :: uint16 where
  "hidFrameMaxDataSize = 57"

definition hidFrameTag :: byte where
  "hidFrameTag = 0x05"

definition typeFrame :: nat where "typeFrame = 1"
definition typeFrameNext :: nat where "typeFrameNext = 2"

record HIDFrame =
  hf_ChannelIDInner :: uint16
  hf_TagInner :: byte
  hf_PacketIndexInner :: uint16
  hf_DataLengthInner :: uint16
  hf_DataInner :: bytes

record HIDFrameNext =
  hn_ChannelIDInner :: uint16
  hn_TagInner :: byte
  hn_PacketIndexInner :: uint16
  hn_DataInner :: bytes

text \<open>The interface \<open>Frame\<close> has these two implementations.\<close>

datatype Frame = FrameInit HIDFrame | FrameNext HIDFrameNext

definition HIDFrame_Type :: "HIDFrame \<Rightarrow> nat" where
  [simp]: "HIDFrame_Type f = typeFrame"

definition HIDFrame_ChannelID :: "HIDFrame \<Rightarrow> uint16" where
  [simp]: "HIDFrame_ChannelID f = hf_ChannelIDInner f"

definition HIDFrame_Tag :: "HIDFrame \<Rightarrow> byte" where
  [simp]: "HIDFrame_Tag f = hf_TagInner f"

definition HIDFrame_PacketIndex :: "HIDFrame \<Rightarrow> uint16" where
  [simp]: "HIDFrame_PacketIndex f = hf_PacketIndexInner f"

definition HIDFrame_DataLength :: "HIDFrame \<Rightarrow> uint16" where
  [simp]: "HIDFrame_DataLength f = hf_DataLengthInner f"

definition HIDFrame_Data :: "HIDFrame \<Rightarrow> bytes" where
  [simp]: "HIDFrame_Data f = hf_DataInner f"

definition HIDFrameNext_Type :: "HIDFrameNext \<Rightarrow> nat" where
  [simp]: "HIDFrameNext_Type f = typeFrameNext"

definition HIDFrameNext_ChannelID :: "HIDFrameNext \<Rightarrow> uint16" where
  [simp]: "HIDFrameNext_ChannelID f = hn_ChannelIDInner f"

definition HIDFrameNext_Tag :: "HIDFrameNext \<Rightarrow> byte" where
  [simp]: "HIDFrameNext_Tag f = hn_TagInner f"

definition HIDFrameNext_PacketIndex :: "HIDFrameNext \<Rightarrow> uint16" where
  [simp]: "HIDFrameNext_PacketIndex f = hn_PacketIndexInner f"

definition HIDFrameNext_DataLength :: "HIDFrameNext \<Rightarrow> uint16" where
  [simp]: "HIDFrameNext_DataLength f = 0"

definition HIDFrameNext_Data :: "HIDFrameNext \<Rightarrow> bytes" where
  [simp]: "HIDFrameNext_Data f = hn_DataInner f"

text \<open>A call through the interface goes to the method of the struct behind it.\<close>

fun Frame_Type :: "Frame \<Rightarrow> nat" where
  "Frame_Type (FrameInit f) = HIDFrame_Type f"
| "Frame_Type (FrameNext f) = HIDFrameNext_Type f"

fun Frame_ChannelID :: "Frame \<Rightarrow> uint16" where
  "Frame_ChannelID (FrameInit f) = HIDFrame_ChannelID f"
| "Frame_ChannelID (FrameNext f) = HIDFrameNext_ChannelID f"

fun Frame_Tag :: "Frame \<Rightarrow> byte" where
  "Frame_Tag (FrameInit f) = HIDFrame_Tag f"
| "Frame_Tag (FrameNext f) = HIDFrameNext_Tag f"

fun Frame_PacketIndex :: "Frame \<Rightarrow> uint16" where
  "Frame_PacketIndex (FrameInit f) = HIDFrame_PacketIndex f"
| "Frame_PacketIndex (FrameNext f) = HIDFrameNext_PacketIndex f"

fun Frame_DataLength :: "Frame \<Rightarrow> uint16" where
  "Frame_DataLength (FrameInit f) = HIDFrame_DataLength f"
| "Frame_DataLength (FrameNext f) = HIDFrameNext_DataLength f"

fun Frame_Data :: "Frame \<Rightarrow> bytes" where
  "Frame_Data (FrameInit f) = HIDFrame_Data f"
| "Frame_Data (FrameNext f) = HIDFrameNext_Data f"

definition HIDFrame_validate :: "HIDFrame \<Rightarrow> go_error option" where
  "HIDFrame_validate h =
     (if hf_TagInner h \<noteq> hidFrameTag then Some (Errorf ''invalid frame tag'' [])
      else if hf_ChannelIDInner h = 0 then Some (Errorf ''channel id cannot be zero'' [])
      else None)"

definition HIDFrameNext_validate :: "HIDFrameNext \<Rightarrow> go_error option" where
  "HIDFrameNext_validate h =
     (if hn_TagInner h \<noteq> hidFrameTag then Some (Errorf ''invalid frame tag'' [])
      else if hn_ChannelIDInner h = 0 then Some (Errorf ''channel id cannot be zero'' [])
      else None)"

fun Frame_validate :: "Frame \<Rightarrow> go_error option" where
  "Frame_validate (FrameInit f) = HIDFrame_validate f"
| "Frame_validate (FrameNext f) = HIDFrameNext_validate f"

subsection \<open>Binary layout\<close>

definition frame_size :: nat where "frame_size = 64"

definition HIDFrame_zero :: HIDFrame where
  "HIDFrame_zero = \<lparr>hf_ChannelIDInner = 0, hf_TagInner = 0, hf_PacketIndexInner = 0,
     hf_DataLengthInner = 0, hf_DataInner = replicate 57 0\<rparr>"

definition HIDFrameNext_zero :: HIDFrameNext where
  "HIDFrameNext_zero = \<lparr>hn_ChannelIDInner = 0, hn_TagInner = 0, hn_PacketIndexInner = 0,
     hn_DataInner = replicate 59 0\<rparr>"

definition HIDFrame_encode :: "HIDFrame \<Rightarrow> bytes" where
  "HIDFrame_encode f = be_put16 (hf_ChannelIDInner f) @ [hf_TagInner f] @
     be_put16 (hf_PacketIndexInner f) @ be_put16 (hf_DataLengthInner f) @ hf_DataInner f"

definition HIDFrame_decode :: "bytes \<Rightarrow> HIDFrame" where
  "HIDFrame_decode bs = \<lparr>
     hf_ChannelIDInner = be_uint16 (bs ! 0) (bs ! 1),
     hf_TagInner = bs ! 2,
     hf_PacketIndexInner = be_uint16 (bs ! 3) (bs ! 4),
     hf_DataLengthInner = be_uint16 (bs ! 5) (bs ! 6),
     hf_DataInner = drop 7 bs\<rparr>"

definition HIDFrameNext_encode :: "HIDFrameNext \<Rightarrow> bytes" where
  "HIDFrameNext_encode f = be_put16 (hn_ChannelIDInner f) @ [hn_TagInner f] @
     be_put16 (hn_PacketIndexInner f) @ hn_DataInner f"

definition HIDFrameNext_decode :: "bytes \<Rightarrow> HIDFrameNext" where
  "HIDFrameNext_decode bs = \<lparr>
     hn_ChannelIDInner = be_uint16 (bs ! 0) (bs ! 1),
     hn_TagInner = bs ! 2,
     hn_PacketIndexInner = be_uint16 (bs ! 3) (bs ! 4),
     hn_DataInner = drop 5 bs\<rparr>"

text \<open>The array types \<open>[57]byte\<close> and \<open>[59]byte\<close> fix the length of the data fields.\<close>

definition HIDFrame_wf :: "HIDFrame \<Rightarrow> bool" where
  "HIDFrame_wf f \<longleftrightarrow> length (hf_DataInner f) = 57"

definition HIDFrameNext_wf :: "HIDFrameNext \<Rightarrow> bool" where
  "HIDFrameNext_wf f \<longleftrightarrow> length (hn_DataInner f) = 59"

interpretation hid_frame: binary_codec frame_size HIDFrame_wf HIDFrame_encode HIDFrame_decode
proof
  fix f :: HIDFrame and bs :: bytes
  show "0 < frame_size" by (simp add: frame_size_def)
  show "HIDFrame_wf f \<Longrightarrow> length (HIDFrame_encode f) = frame_size"
    by (simp add: HIDFrame_wf_def HIDFrame_encode_def frame_size_def)
  show "length bs = frame_size \<Longrightarrow> HIDFrame_wf (HIDFrame_decode bs)"
    by (simp add: HIDFrame_wf_def HIDFrame_decode_def frame_size_def)
  show "HIDFrame_wf f \<Longrightarrow> HIDFrame_decode (HIDFrame_encode f) = f"
    by (simp add: HIDFrame_decode_def HIDFrame_encode_def be_put16_def codec_simps)
  show "HIDFrame_encode (HIDFrame_decode bs) = bs" if "length bs = frame_size"
    using nths_append_drop [of 7 bs] that
    by (simp add: upt_rec numeral_eq_Suc HIDFrame_decode_def HIDFrame_encode_def frame_size_def codec_simps)
qed

interpretation hid_next: binary_codec frame_size HIDFrameNext_wf HIDFrameNext_encode HIDFrameNext_decode
proof
  fix f :: HIDFrameNext and bs :: bytes
  show "0 < frame_size" by (simp add: frame_size_def)
  show "HIDFrameNext_wf f \<Longrightarrow> length (HIDFrameNext_encode f) = frame_size"
    by (simp add: HIDFrameNext_wf_def HIDFrameNext_encode_def frame_size_def)
  show "length bs = frame_size \<Longrightarrow> HIDFrameNext_wf (HIDFrameNext_decode bs)"
    by (simp add: HIDFrameNext_wf_def HIDFrameNext_decode_def frame_size_def)
  show "HIDFrameNext_wf f \<Longrightarrow> HIDFrameNext_decode (HIDFrameNext_encode f) = f"
    by (simp add: HIDFrameNext_decode_def HIDFrameNext_encode_def be_put16_def codec_simps)
  show "HIDFrameNext_encode (HIDFrameNext_decode bs) = bs" if "length bs = frame_size"
    using nths_append_drop [of 5 bs] that
    by (simp add: upt_rec numeral_eq_Suc HIDFrameNext_decode_def HIDFrameNext_encode_def frame_size_def codec_simps)
qed

section \<open>Reading a frame\<close>

text \<open>\<open>readFrame(data, dest)\<close>: the dynamic type of \<open>dest\<close> selects the layout.\<close>

fun binary_Read_Frame :: "bytes \<Rightarrow> Frame \<Rightarrow> go_error + Frame" where
  "binary_Read_Frame bs (FrameInit _) =
     map_sum id FrameInit (binary_Read frame_size HIDFrame_decode bs)"
| "binary_Read_Frame bs (FrameNext _) =
     map_sum id FrameNext (binary_Read frame_size HIDFrameNext_decode bs)"

definition readFrame :: "bytes \<Rightarrow> Frame \<Rightarrow> go_error + Frame" where
  "readFrame bs dest =
     (if length bs > 64 \<or> length bs = 0
      then Inl (Errorf ''data must be exactly 64 bytes long'' [])
      else case binary_Read_Frame bs dest of
             Inl err \<Rightarrow> Inl (Wrap ''invalid data'' err)
           | Inr f \<Rightarrow> Inr f)"

section \<open>Sessions\<close>

record Session =
  channelID :: uint16
  lastReadFrameIndex :: uint16
  data :: buffer
  ShouldReadMore :: bool
  amountToRead :: uint16

definition Session_readFrame :: "Session \<Rightarrow> Frame \<Rightarrow> (go_error option \<times> Session) go" where
  "Session_readFrame s frame =
     (if channelID s \<noteq> 0 \<and> Frame_PacketIndex frame = 0
      then Ret (Some (Errorf ''cannot read init packet in already initialized session'' []), s)
      else
        let s1 = s\<lparr>channelID := Frame_ChannelID frame,
                   lastReadFrameIndex := Frame_PacketIndex frame,
                   data := buffer_Write (data s) (Frame_Data frame)\<rparr>;
            s2 = (if Frame_Type frame = typeFrame
                  then s1\<lparr>ShouldReadMore := \<not> (Frame_DataLength frame \<le> hidFrameMaxDataSize),
                          amountToRead := Frame_DataLength frame\<rparr>
                  else s1)
        in if len (data s2) \<ge> unat (amountToRead s2)
           then go_bind (buffer_Truncate (data s2) (unat (amountToRead s2)))
                  (\<lambda>b. Ret (None, s2\<lparr>ShouldReadMore := False, data := b\<rparr>))
           else Ret (None, s2))"

text \<open>\<open>ReadFrame\<close> drops the error of the inner \<open>readFrame\<close> for follow-up frames, as the code does.\<close>

definition Session_ReadFrame :: "Session \<Rightarrow> Frame \<Rightarrow> (go_error option \<times> Session) go" where
  "Session_ReadFrame s frame =
     (if channelID s = 0 then Session_readFrame s frame
      else if \<not> ShouldReadMore s
        then Ret (Some (Errorf ''cannot read any more data in this session'' []), s)
      else if channelID s \<noteq> Frame_ChannelID frame
        then Ret (Some (Errorf ''different channel ID: expecting %v, received %v''
                     [unat (channelID s), unat (Frame_ChannelID frame)]), s)
      else if Frame_PacketIndex frame - lastReadFrameIndex s \<noteq> 1
        then Ret (Some (Errorf ''received out-of-order packet: expecting %v, received %v''
                     [unat (lastReadFrameIndex s + 1), unat (Frame_PacketIndex frame)]), s)
      else go_bind (Session_readFrame s frame) (\<lambda>(_, s'). Ret (None, s')))"

definition Session_ReadData :: "Session \<Rightarrow> bytes \<Rightarrow> (go_error option \<times> Session) go" where
  "Session_ReadData s bs =
     (let dest = (if channelID s \<noteq> 0 then FrameNext HIDFrameNext_zero else FrameInit HIDFrame_zero)
      in case readFrame bs dest of
           Inl err \<Rightarrow> Ret (Some err, s)
         | Inr frame \<Rightarrow>
             (case Frame_validate frame of
                Some err \<Rightarrow> Ret (Some err, s)
              | None \<Rightarrow> Session_ReadFrame s frame))"

definition Session_Data :: "Session \<Rightarrow> gslice" where
  "Session_Data s = data s"

definition Session_fresh :: Session where
  "Session_fresh = \<lparr>channelID = 0, lastReadFrameIndex = 0, data = empty_buffer,
     ShouldReadMore = True, amountToRead = 0\<rparr>"

definition NewSession :: "bytes \<Rightarrow> (go_error + Session) go" where
  "NewSession bs =
     go_bind (Session_ReadData Session_fresh bs)
       (\<lambda>(err, s). Ret (case err of Some e \<Rightarrow> Inl e | None \<Rightarrow> Inr s))"

section \<open>Cutting a reply into frames\<close>

definition defaultChunkSize :: nat where "defaultChunkSize = 57"
definition nextChunkSize :: nat where "nextChunkSize = 59"

text \<open>
  \<open>int(math.Ceil(float64(len(data)) / float64(size)))\<close> is the ceiling of the exact quotient for
  every length below \<open>2^46\<close> (the quotient then differs from an integer by more than half a unit in
  the last place unless it is one); a longer slice does not fit the device.
\<close>

definition ceil_div :: "nat \<Rightarrow> nat \<Rightarrow> nat" where
  "ceil_div n m = (n + m - 1) div m"

function chunk_loop ::
  "bytes \<Rightarrow> nat \<Rightarrow> nat \<Rightarrow> nat \<Rightarrow> nat \<Rightarrow> nat \<Rightarrow> bytes list \<Rightarrow> bytes list go" where
  "chunk_loop bs sz chunks idx start finish ret =
     (if idx < chunks
      then let finish' = (if idx + 1 = chunks then length bs else finish)
           in go_bind (slice_list bs start finish')
                (\<lambda>c. chunk_loop bs sz chunks (idx + 1) (start + sz) (finish' + sz) (ret @ [c]))
      else Ret ret)"
  by pat_completeness auto
termination
  by (relation "measure (\<lambda>(bs, sz, chunks, idx, _). chunks - idx)") auto

declare chunk_loop.simps [simp del]

definition chunkFunc :: "bytes \<Rightarrow> nat \<Rightarrow> bytes list go" where
  "chunkFunc bs sz =
     (if length bs \<le> sz then Ret [bs]
      else chunk_loop bs sz (ceil_div (length bs) sz) 0 0 sz [])"

definition chunk :: "bytes \<Rightarrow> bytes list go" where
  "chunk bs = chunkFunc bs nextChunkSize"

definition init_frame :: "Session \<Rightarrow> nat \<Rightarrow> bytes \<Rightarrow> HIDFrame" where
  "init_frame s n bs = \<lparr>
     hf_ChannelIDInner = channelID s,
     hf_TagInner = hidFrameTag,
     hf_PacketIndexInner = 0,
     hf_DataLengthInner = of_nat n,
     hf_DataInner = copy_into (replicate 57 0) bs\<rparr>"

definition next_frame :: "Session \<Rightarrow> nat \<Rightarrow> bytes \<Rightarrow> HIDFrameNext" where
  "next_frame s i c = \<lparr>
     hn_ChannelIDInner = channelID s,
     hn_TagInner = hidFrameTag,
     hn_PacketIndexInner = of_nat (i + 1),
     hn_DataInner = copy_into (replicate 59 0) c\<rparr>"

definition Session_FormatResponse :: "Session \<Rightarrow> bytes \<Rightarrow> bytes list go" where
  "Session_FormatResponse s bs =
     (if length bs \<le> defaultChunkSize
      then Ret [HIDFrame_encode (init_frame s (length bs) bs)]
      else
        go_bind (slice_list bs 0 defaultChunkSize) (\<lambda>firstChunk.
        go_bind (slice_list bs defaultChunkSize (length bs)) (\<lambda>rest.
        go_bind (chunk rest) (\<lambda>chunks.
          Ret (HIDFrame_encode (init_frame s (length rest + length firstChunk) firstChunk) #
               map (\<lambda>(i, c). HIDFrameNext_encode (next_frame s i c)) (enumerate 0 chunks))))))"

section \<open>Chunking is correct\<close>

text \<open>Reference definition: cut off \<open>sz\<close> bytes as long as more than \<open>sz\<close> are left.\<close>

function chunks_of :: "nat \<Rightarrow> bytes \<Rightarrow> bytes list" where
  "chunks_of sz xs =
     (if length xs \<le> sz \<or> sz = 0 then [xs] else take sz xs # chunks_of sz (drop sz xs))"
  by pat_completeness auto
termination
  by (relation "measure (\<lambda>(sz, xs). length xs)") auto

declare chunks_of.simps [simp del]

lemma less_ceil_div_iff: "0 < m \<Longrightarrow> k < ceil_div n m \<longleftrightarrow> k * m < n"
proof -
  assume m: "0 < m"
  have "k < ceil_div n m \<longleftrightarrow> (k + 1) * m \<le> n + m - 1"
    using m by (simp add: ceil_div_def less_eq_div_iff_mult_less_eq Suc_le_eq [symmetric])
  then show ?thesis
    using m by (auto simp: algebra_simps)
qed

lemma ceil_div_real:
  assumes "0 < m"
  shows "nat \<lceil>real n / real m\<rceil> = ceil_div n m"
proof -
  have "nat \<lceil>real n / real m\<rceil> \<le> k \<longleftrightarrow> ceil_div n m \<le> k" for k
  proof -
    have "nat \<lceil>real n / real m\<rceil> \<le> k \<longleftrightarrow> real n / real m \<le> real k"
      by (simp add: nat_le_iff ceiling_le_iff)
    also have "\<dots> \<longleftrightarrow> real n \<le> real (k * m)"
      using assms by (simp add: divide_le_eq)
    also have "\<dots> \<longleftrightarrow> n \<le> k * m"
      by (rule of_nat_le_iff)
    also have "\<dots> \<longleftrightarrow> ceil_div n m \<le> k"
      using less_ceil_div_iff [OF assms, of k n] by linarith
    finally show ?thesis .
  qed
  then show ?thesis
    using le_antisym by blast
qed

lemma chunk_loop_done: "chunk_loop bs sz c c start finish ret = Ret ret"
  by (simp add: chunk_loop.simps)

lemma chunk_loop_chunks_of:
  assumes "0 < sz" and "idx < ceil_div (length bs) sz"
  shows "chunk_loop bs sz (ceil_div (length bs) sz) idx (idx * sz) (idx * sz + sz) ret =
         Ret (ret @ chunks_of sz (drop (idx * sz) bs))"
  using assms(2)
proof (induction "ceil_div (length bs) sz - idx" arbitrary: idx ret)
  case 0
  then show ?case by simp
next
  case (Suc n)
  let ?c = "ceil_div (length bs) sz"
  from Suc.prems have start: "idx * sz < length bs"
    by (simp add: less_ceil_div_iff [OF assms(1)])
  show ?case
  proof (cases "idx + 1 = ?c")
    case True
    then have "length bs \<le> (idx + 1) * sz"
      using less_ceil_div_iff [OF assms(1), of "idx + 1" "length bs"] by linarith
    then have "length (drop (idx * sz) bs) \<le> sz"
      by (simp add: algebra_simps)
    then have "chunks_of sz (drop (idx * sz) bs) = [drop (idx * sz) bs]"
      by (simp add: chunks_of.simps)
    with True start Suc.prems show ?thesis
      by (simp add: chunk_loop.simps [of bs sz ?c idx] slice_list_def Let_def chunk_loop_done)
  next
    case False
    with Suc.prems have lt: "idx + 1 < ?c"
      by simp
    then have more: "(idx + 1) * sz < length bs"
      by (simp only: less_ceil_div_iff [OF assms(1)])
    have IH: "chunk_loop bs sz ?c (idx + 1) ((idx + 1) * sz) ((idx + 1) * sz + sz)
        (ret @ [take sz (drop (idx * sz) bs)]) =
        Ret ((ret @ [take sz (drop (idx * sz) bs)]) @ chunks_of sz (drop ((idx + 1) * sz) bs))"
      using Suc.hyps(1) [of "idx + 1"] Suc.hyps(2) lt by simp
    from more have "\<not> length (drop (idx * sz) bs) \<le> sz"
      by (simp add: algebra_simps)
    then have "chunks_of sz (drop (idx * sz) bs) =
        take sz (drop (idx * sz) bs) # chunks_of sz (drop ((idx + 1) * sz) bs)"
      using assms(1) by (simp add: chunks_of.simps [of sz "drop (idx * sz) bs"] algebra_simps)
    with IH False more start Suc.prems show ?thesis
      by (simp add: chunk_loop.simps [of bs sz ?c idx] slice_list_def algebra_simps)
  qed
qed

lemma chunkFunc_chunks_of:
  assumes "0 < sz"
  shows "chunkFunc bs sz = Ret (chunks_of sz bs)"
proof (cases "length bs \<le> sz")
  case True
  then show ?thesis
    by (simp add: chunkFunc_def chunks_of.simps)
next
  case False
  with assms have "0 < ceil_div (length bs) sz"
    by (subst less_ceil_div_iff) auto
  with chunk_loop_chunks_of [OF assms, of 0 bs "[]"] False show ?thesis
    by (simp add: chunkFunc_def)
qed

lemma concat_chunks_of: "concat (chunks_of sz bs) = bs"
  by (induction sz bs rule: chunks_of.induct) (subst chunks_of.simps, auto)

lemma chunks_of_le: "0 < sz \<Longrightarrow> c \<in> set (chunks_of sz bs) \<Longrightarrow> length c \<le> sz"
  by (induction sz bs rule: chunks_of.induct)
     (subst (asm) (2) chunks_of.simps, auto split: if_splits)

lemma length_chunks_of:
  assumes "0 < sz" and "bs \<noteq> []"
  shows "length (chunks_of sz bs) = ceil_div (length bs) sz"
  using assms
proof (induction sz bs rule: chunks_of.induct)
  case (1 sz xs)
  show ?case
  proof (cases "length xs \<le> sz")
    case True
    with "1.prems" have "ceil_div (length xs) sz = 1"
      using less_ceil_div_iff [OF "1.prems"(1), of 0 "length xs"]
        less_ceil_div_iff [OF "1.prems"(1), of 1 "length xs"] by simp
    with True show ?thesis
      by (simp add: chunks_of.simps)
  next
    case False
    then have "ceil_div (length xs) sz = Suc (ceil_div (length xs - sz) sz)"
      using "1.prems"(1) le_div_geq [of sz "length xs + sz - 1"] by (simp add: ceil_div_def)
    with False "1" show ?thesis
      by (simp add: chunks_of.simps [of sz xs])
  qed
qed

section \<open>What a session does with one frame\<close>

lemmas frame_consts = frame_size_def typeFrame_def typeFrameNext_def hidFrameTag_def
  hidFrameMaxDataSize_def defaultChunkSize_def nextChunkSize_def

lemma readFrame_Init_iff:
  "readFrame bs (FrameInit z) = Inr f \<longleftrightarrow> length bs = 64 \<and> f = FrameInit (HIDFrame_decode bs)"
  by (auto simp: readFrame_def binary_Read_def frame_size_def split: if_splits)

lemma readFrame_Next_iff:
  "readFrame bs (FrameNext z) = Inr f \<longleftrightarrow> length bs = 64 \<and> f = FrameNext (HIDFrameNext_decode bs)"
  by (auto simp: readFrame_def binary_Read_def frame_size_def split: if_splits)

text \<open>An accepted frame: the whole effect of \<open>readFrame\<close> on the session.\<close>

lemma Session_readFrame_accept:
  assumes "channelID s = 0 \<or> Frame_PacketIndex f \<noteq> 0"
  obtains s' where "Session_readFrame s f = Ret (None, s')"
    and "channelID s' = Frame_ChannelID f"
    and "lastReadFrameIndex s' = Frame_PacketIndex f"
    and "amountToRead s' = (if Frame_Type f = typeFrame then Frame_DataLength f else amountToRead s)"
    and "elems (data s') = take (unat (amountToRead s')) (elems (data s) @ Frame_Data f)"
    and "ShouldReadMore s' \<longleftrightarrow> len (data s) + length (Frame_Data f) < unat (amountToRead s') \<and>
           (if Frame_Type f = typeFrame then \<not> Frame_DataLength f \<le> hidFrameMaxDataSize
            else ShouldReadMore s)"
proof -
  let ?s1 = "s\<lparr>channelID := Frame_ChannelID f, lastReadFrameIndex := Frame_PacketIndex f,
      data := buffer_Write (data s) (Frame_Data f)\<rparr>"
  let ?s2 = "if Frame_Type f = typeFrame
      then ?s1\<lparr>ShouldReadMore := \<not> (Frame_DataLength f \<le> hidFrameMaxDataSize),
               amountToRead := Frame_DataLength f\<rparr> else ?s1"
  let ?n = "unat (amountToRead ?s2)"
  show thesis
  proof (cases "?n \<le> len (data ?s2)")
    case True
    let ?b = "\<lparr>elems = take ?n (elems (data ?s2)), spare = drop ?n (elems (data ?s2)) @ spare (data ?s2)\<rparr>"
    have "Session_readFrame s f = Ret (None, ?s2\<lparr>ShouldReadMore := False, data := ?b\<rparr>)"
      using assms True by (auto simp: Session_readFrame_def Let_def buffer_Truncate_Ret)
    with True show thesis
      by (intro that) (auto simp: len_def)
  next
    case False
    have "Session_readFrame s f = Ret (None, ?s2)"
      using assms False by (auto simp: Session_readFrame_def Let_def)
    with False show thesis
      by (intro that) (auto simp: len_def)
  qed
qed

lemma Session_readFrame_reject:
  assumes "channelID s \<noteq> 0" and "Frame_PacketIndex f = 0"
  shows "\<exists>e. Session_readFrame s f = Ret (Some e, s)"
  using assms by (simp add: Session_readFrame_def)

lemma Session_readFrame_no_panic: "\<exists>e s'. Session_readFrame s f = Ret (e, s')"
  by (metis Session_readFrame_accept Session_readFrame_reject)

lemma Session_ReadFrame_no_panic: "\<exists>e s'. Session_ReadFrame s f = Ret (e, s')"
  using Session_readFrame_no_panic [of s f]
  by (auto simp: Session_ReadFrame_def)

lemma Session_ReadData_no_panic: "\<exists>e s'. Session_ReadData s bs = Ret (e, s')"
  unfolding Session_ReadData_def Let_def
  by (split sum.split, intro conjI allI impI, simp, split option.split)
     (simp add: Session_ReadFrame_no_panic)

lemma NewSession_no_panic: "\<exists>r. NewSession bs = Ret r"
  using Session_ReadData_no_panic [of Session_fresh bs]
  by (auto simp: NewSession_def)

lemma Session_ReadFrame_error_unchanged:
  "Session_ReadFrame s f = Ret (Some e, s') \<Longrightarrow> s' = s"
proof (cases "channelID s = 0")
  case True
  assume "Session_ReadFrame s f = Ret (Some e, s')"
  moreover obtain t where "Session_readFrame s f = Ret (None, t)"
    using True Session_readFrame_accept by blast
  ultimately show ?thesis
    using True by (simp add: Session_ReadFrame_def)
next
  case False
  assume "Session_ReadFrame s f = Ret (Some e, s')"
  with False show ?thesis
    by (auto simp: Session_ReadFrame_def go_bind_Ret_iff split: if_splits)
qed

lemma Session_ReadData_error_unchanged:
  "Session_ReadData s bs = Ret (Some e, s') \<Longrightarrow> s' = s"
  by (auto simp: Session_ReadData_def Let_def Session_ReadFrame_error_unchanged
      split: sum.splits option.splits)

text \<open>What an accepted first frame and an accepted follow-up frame look like.\<close>

lemma NewSession_accept:
  assumes "NewSession bs = Ret (Inr s)"
  defines "h \<equiv> HIDFrame_decode bs"
  shows "length bs = 64" and "HIDFrame_validate h = None"
    and "channelID s = hf_ChannelIDInner h"
    and "lastReadFrameIndex s = hf_PacketIndexInner h"
    and "amountToRead s = hf_DataLengthInner h"
    and "elems (data s) = take (unat (hf_DataLengthInner h)) (drop 7 bs)"
    and "ShouldReadMore s \<longleftrightarrow> 57 < unat (hf_DataLengthInner h)"
proof -
  from assms(1) have rd: "Session_ReadData Session_fresh bs = Ret (None, s)"
    by (auto simp: NewSession_def go_bind_Ret_iff split: option.splits)
  have ch: "channelID Session_fresh = 0"
    by (simp add: Session_fresh_def)
  from rd ch have len: "length bs = 64" and val: "HIDFrame_validate h = None"
    and rf: "Session_readFrame Session_fresh (FrameInit h) = Ret (None, s)"
    by (auto simp: Session_ReadData_def readFrame_Init_iff h_def Session_ReadFrame_def
        split: sum.splits option.splits)
  show "length bs = 64" "HIDFrame_validate h = None" by fact+
  have dl: "length (drop 7 bs) = 57" using len by simp
  have le57: "hf_DataLengthInner h \<le> 57 \<longleftrightarrow> unat (hf_DataLengthInner h) \<le> 57"
    by (simp add: word_le_nat_alt)
  obtain s' where eq: "Session_readFrame Session_fresh (FrameInit h) = Ret (None, s')"
    and obs: "channelID s' = Frame_ChannelID (FrameInit h)"
      "lastReadFrameIndex s' = Frame_PacketIndex (FrameInit h)"
      "amountToRead s' = Frame_DataLength (FrameInit h)"
      "elems (data s') = take (unat (amountToRead s')) (elems (data Session_fresh) @ Frame_Data (FrameInit h))"
      "ShouldReadMore s' \<longleftrightarrow> len (data Session_fresh) + length (Frame_Data (FrameInit h)) < unat (amountToRead s')
         \<and> \<not> Frame_DataLength (FrameInit h) \<le> hidFrameMaxDataSize"
    by (rule Session_readFrame_accept [of Session_fresh "FrameInit h"]) (auto simp: ch)
  from eq rf have "s' = s" by simp
  with obs show "channelID s = hf_ChannelIDInner h" "lastReadFrameIndex s = hf_PacketIndexInner h"
    "amountToRead s = hf_DataLengthInner h"
    "elems (data s) = take (unat (hf_DataLengthInner h)) (drop 7 bs)"
    by (simp_all add: Session_fresh_def h_def HIDFrame_decode_def)
  have "hf_DataInner h = drop 7 bs" by (simp add: h_def HIDFrame_decode_def)
  with \<open>s' = s\<close> obs dl le57 show "ShouldReadMore s \<longleftrightarrow> 57 < unat (hf_DataLengthInner h)"
    by (simp add: Session_fresh_def len_def hidFrameMaxDataSize_def not_le)
qed

lemma NewSession_valid:
  assumes "length f = 64" and "HIDFrame_validate (HIDFrame_decode f) = None"
  shows "\<exists>s. NewSession f = Ret (Inr s)"
proof -
  have ch: "channelID Session_fresh = 0"
    by (simp add: Session_fresh_def)
  have "readFrame f (FrameInit HIDFrame_zero) = Inr (FrameInit (HIDFrame_decode f))"
    by (simp add: readFrame_Init_iff assms(1))
  moreover obtain s where "Session_readFrame Session_fresh (FrameInit (HIDFrame_decode f)) = Ret (None, s)"
    using Session_readFrame_accept ch by blast
  ultimately show ?thesis
    using assms(2) ch by (simp add: NewSession_def Session_ReadData_def Session_ReadFrame_def)
qed

lemma ReadData_next_accept:
  assumes "Session_ReadData s bs = Ret (None, s')" and "channelID s \<noteq> 0"
  defines "h \<equiv> HIDFrameNext_decode bs"
  shows "length bs = 64" and "HIDFrameNext_validate h = None" and "ShouldReadMore s"
    and "hn_ChannelIDInner h = channelID s"
    and "hn_PacketIndexInner h = lastReadFrameIndex s + 1"
    and "if hn_PacketIndexInner h = 0 then s' = s
         else channelID s' = channelID s \<and> lastReadFrameIndex s' = lastReadFrameIndex s + 1 \<and>
              amountToRead s' = amountToRead s \<and>
              elems (data s') = take (unat (amountToRead s)) (elems (data s) @ drop 5 bs) \<and>
              (ShouldReadMore s' \<longleftrightarrow> len (data s) + 59 < unat (amountToRead s))"
proof -
  from assms(1,2) have len: "length bs = 64" and val: "HIDFrameNext_validate h = None"
    and rf: "Session_ReadFrame s (FrameNext h) = Ret (None, s')"
    by (auto simp: Session_ReadData_def readFrame_Next_iff h_def split: sum.splits option.splits)
  show "length bs = 64" "HIDFrameNext_validate h = None" by fact+
  from rf assms(2) show more: "ShouldReadMore s" and ch: "hn_ChannelIDInner h = channelID s"
    by (auto simp: Session_ReadFrame_def split: if_splits)
  from rf assms(2) more ch obtain e
    where idx: "hn_PacketIndexInner h - lastReadFrameIndex s = 1"
      and inner: "Session_readFrame s (FrameNext h) = Ret (e, s')"
    by (auto simp: Session_ReadFrame_def go_bind_Ret_iff split: if_splits)
  from idx show idx': "hn_PacketIndexInner h = lastReadFrameIndex s + 1"
    by (simp add: algebra_simps)
  have dat: "hn_DataInner h = drop 5 bs" by (simp add: h_def HIDFrameNext_decode_def)
  show "if hn_PacketIndexInner h = 0 then s' = s
         else channelID s' = channelID s \<and> lastReadFrameIndex s' = lastReadFrameIndex s + 1 \<and>
              amountToRead s' = amountToRead s \<and>
              elems (data s') = take (unat (amountToRead s)) (elems (data s) @ drop 5 bs) \<and>
              (ShouldReadMore s' \<longleftrightarrow> len (data s) + 59 < unat (amountToRead s))"
  proof (cases "hn_PacketIndexInner h = 0")
    case True
    with inner assms(2) show ?thesis
      by (auto simp: Session_readFrame_def)
  next
    case False
    then obtain t where "Session_readFrame s (FrameNext h) = Ret (None, t)"
      and "channelID t = hn_ChannelIDInner h" and "lastReadFrameIndex t = hn_PacketIndexInner h"
      and "amountToRead t = amountToRead s"
      and "elems (data t) = take (unat (amountToRead t)) (elems (data s) @ hn_DataInner h)"
      and "ShouldReadMore t \<longleftrightarrow> len (data s) + length (hn_DataInner h) < unat (amountToRead t) \<and>
             ShouldReadMore s"
      using Session_readFrame_accept [of s "FrameNext h"] by (auto simp: frame_consts)
    with inner False ch idx' dat more len show ?thesis
      by simp
  qed
qed

section \<open>Reassembly\<close>

text \<open>Feeding follow-up frames one after the other, stopping at the first error.\<close>

fun Session_feed :: "Session \<Rightarrow> bytes list \<Rightarrow> (go_error option \<times> Session) go" where
  "Session_feed s [] = Ret (None, s)"
| "Session_feed s (f # fs) =
     go_bind (Session_ReadData s f)
       (\<lambda>(e, s'). case e of None \<Rightarrow> Session_feed s' fs | Some err \<Rightarrow> Ret (Some err, s'))"

text \<open>
  The well-formed active session: some message is expected, never more than announced is kept,
  and the session asks for more exactly while bytes are missing.
\<close>

definition session_inv :: "Session \<Rightarrow> bool" where
  "session_inv s \<longleftrightarrow> channelID s \<noteq> 0 \<and> len (data s) \<le> unat (amountToRead s) \<and>
     (ShouldReadMore s \<longleftrightarrow> len (data s) < unat (amountToRead s)) \<and>
     (ShouldReadMore s \<longrightarrow> 57 \<le> len (data s))"

lemma NewSession_channel: "NewSession bs = Ret (Inr s) \<Longrightarrow> channelID s \<noteq> 0"
  using NewSession_accept(2,3) [of bs s] by (auto simp: HIDFrame_validate_def split: if_splits)

lemma NewSession_inv: "NewSession bs = Ret (Inr s) \<Longrightarrow> session_inv s"
  using NewSession_accept [of bs s] NewSession_channel [of bs s]
  by (auto simp: session_inv_def len_def)

lemma ReadData_inv:
  assumes "session_inv s" and "Session_ReadData s bs = Ret (e, s')"
  shows "session_inv s'"
proof (cases e)
  case (Some err)
  with assms show ?thesis
    using Session_ReadData_error_unchanged by blast
next
  case None
  from assms(1) have "channelID s \<noteq> 0" by (simp add: session_inv_def)
  from ReadData_next_accept [OF assms(2) [unfolded None] this] assms(1) show ?thesis
    by (auto simp: session_inv_def len_def split: if_splits)
qed

text \<open>
  \<open>assembling s k n acc\<close>: after \<open>k\<close> follow-up frames the session has seen the bytes \<open>acc\<close> of a
  message of \<open>n\<close> bytes.
\<close>

definition assembling :: "Session \<Rightarrow> nat \<Rightarrow> nat \<Rightarrow> bytes \<Rightarrow> bool" where
  "assembling s k n acc \<longleftrightarrow> channelID s \<noteq> 0 \<and> unat (amountToRead s) = n \<and>
     lastReadFrameIndex s = of_nat k \<and> length acc = 57 + 59 * k \<and>
     elems (data s) = take n acc \<and> (ShouldReadMore s \<longleftrightarrow> 57 + 59 * k < n)"

lemma amount_bound: "unat (w :: uint16) \<le> 65535"
proof -
  have "unat w < 2 ^ LENGTH(16)" by (rule unsigned_less)
  then show ?thesis by simp
qed

lemma of_nat_Suc_nonzero: "57 + 59 * k < unat (w :: uint16) \<Longrightarrow> (of_nat k + 1 :: uint16) \<noteq> 0"
proof -
  assume "57 + 59 * k < unat w"
  with amount_bound [of w] have "Suc k < 65536" by linarith
  then have "unat (of_nat (Suc k) :: uint16) = Suc k"
    by (simp add: unat_of_nat del: of_nat_Suc)
  then show ?thesis
    by (metis Suc_neq_Zero add.commute of_nat_Suc unat_0)
qed

lemma assembling_start:
  assumes "NewSession f = Ret (Inr s)" and "hf_PacketIndexInner (HIDFrame_decode f) = 0"
  shows "assembling s 0 (unat (hf_DataLengthInner (HIDFrame_decode f))) (drop 7 f)"
  using NewSession_accept [OF assms(1)] NewSession_channel [OF assms(1)] assms(2)
  by (simp add: assembling_def)

lemma assembling_step:
  assumes "assembling s k n acc" and "Session_ReadData s f = Ret (None, s')"
  shows "assembling s' (Suc k) n (acc @ drop 5 f)"
proof -
  from assms(1) have ch: "channelID s \<noteq> 0" by (simp add: assembling_def)
  note acc = ReadData_next_accept [OF assms(2) ch]
  from assms(1) acc(3) have more: "57 + 59 * k < unat (amountToRead s)" and n: "unat (amountToRead s) = n"
    by (auto simp: assembling_def)
  from of_nat_Suc_nonzero [OF more] acc(5) assms(1)
  have "hn_PacketIndexInner (HIDFrameNext_decode f) \<noteq> 0" by (simp add: assembling_def)
  with acc(1,6) assms(1) more n show ?thesis
    by (auto simp: assembling_def len_def min_def algebra_simps)
qed

lemma assembling_feed:
  assumes "assembling s k n acc" and "Session_feed s fs = Ret (None, s')"
  shows "assembling s' (k + length fs) n (acc @ concat (map (drop 5) fs))"
  using assms
proof (induction fs arbitrary: s k acc)
  case Nil
  then show ?case by simp
next
  case (Cons f fs)
  then obtain t where "Session_ReadData s f = Ret (None, t)" and "Session_feed t fs = Ret (None, s')"
    by (auto simp: go_bind_Ret_iff split: option.splits)
  with Cons.IH assembling_step [OF Cons.prems(1)] show ?case
    by fastforce
qed

section \<open>Replies read back\<close>

lemma init_frame_wf: "HIDFrame_wf (init_frame s n bs)"
  by (simp add: HIDFrame_wf_def init_frame_def)

lemma next_frame_wf: "HIDFrameNext_wf (next_frame s i c)"
  by (simp add: HIDFrameNext_wf_def next_frame_def)

lemma init_frame_sel [simp]:
  "hf_ChannelIDInner (init_frame s n bs) = channelID s"
  "hf_PacketIndexInner (init_frame s n bs) = 0"
  "hf_DataLengthInner (init_frame s n bs) = of_nat n"
  by (simp_all add: init_frame_def)

lemma decode_init_frame [simp]: "HIDFrame_decode (HIDFrame_encode (init_frame s n bs)) = init_frame s n bs"
  by (rule hid_frame.dec_enc [OF init_frame_wf])

lemma decode_next_frame [simp]:
  "HIDFrameNext_decode (HIDFrameNext_encode (next_frame s i c)) = next_frame s i c"
  by (rule hid_next.dec_enc [OF next_frame_wf])

lemma length_init_frame [simp]: "length (HIDFrame_encode (init_frame s n bs)) = 64"
  using hid_frame.length_enc [OF init_frame_wf] by (simp add: frame_size_def)

lemma length_next_frame [simp]: "length (HIDFrameNext_encode (next_frame s i c)) = 64"
  using hid_next.length_enc [OF next_frame_wf] by (simp add: frame_size_def)

lemma payload_next_frame:
  "drop 5 (HIDFrameNext_encode (next_frame s i c)) = copy_into (replicate 59 0) c"
  by (simp add: HIDFrameNext_encode_def next_frame_def be_put16_def)

lemma payload_init_frame:
  "drop 7 (HIDFrame_encode (init_frame s n c)) = copy_into (replicate 57 0) c"
  by (simp add: HIDFrame_encode_def init_frame_def be_put16_def)

lemma NewSession_init_frame:
  assumes "channelID r \<noteq> 0"
  shows "\<exists>s. NewSession (HIDFrame_encode (init_frame r n c)) = Ret (Inr s)"
proof -
  let ?h = "init_frame r n c"
  have "HIDFrame_validate ?h = None"
    using assms by (simp add: HIDFrame_validate_def init_frame_def)
  moreover obtain s where "Session_readFrame Session_fresh (FrameInit ?h) = Ret (None, s)"
    by (rule Session_readFrame_accept [of Session_fresh "FrameInit ?h"]) (auto simp: Session_fresh_def)
  moreover have "readFrame (HIDFrame_encode ?h) (FrameInit HIDFrame_zero) = Inr (FrameInit ?h)"
    by (simp add: readFrame_Init_iff)
  ultimately show ?thesis
    by (simp add: NewSession_def Session_ReadData_def Session_ReadFrame_def Session_fresh_def)
qed

lemma ReadData_next_frame:
  assumes "assembling s k n acc" and "57 + 59 * k < n" and "channelID s = channelID r"
  shows "\<exists>s'. Session_ReadData s (HIDFrameNext_encode (next_frame r k c)) = Ret (None, s') \<and>
              channelID s' = channelID r"
proof -
  let ?h = "next_frame r k c"
  from assms have ch: "channelID s \<noteq> 0" and more: "ShouldReadMore s"
    and last: "lastReadFrameIndex s = of_nat k" and idx: "of_nat k + 1 \<noteq> (0 :: uint16)"
    using of_nat_Suc_nonzero [of k "amountToRead s"] by (auto simp: assembling_def)
  have h: "hn_PacketIndexInner ?h = of_nat k + 1" "hn_ChannelIDInner ?h = channelID s"
    using assms(3) by (simp_all add: next_frame_def add.commute)
  obtain t where "Session_readFrame s (FrameNext ?h) = Ret (None, t)" "channelID t = hn_ChannelIDInner ?h"
    by (rule Session_readFrame_accept [of s "FrameNext ?h"]) (use idx h in \<open>auto simp: add.commute\<close>)
  moreover have "HIDFrameNext_validate ?h = None"
    using ch assms(3) by (simp add: HIDFrameNext_validate_def next_frame_def)
  moreover have "readFrame (HIDFrameNext_encode ?h) (FrameNext HIDFrameNext_zero) = Inr (FrameNext ?h)"
    by (simp add: readFrame_Next_iff)
  ultimately show ?thesis
    using ch more last h assms(3) by (simp add: Session_ReadData_def Session_ReadFrame_def)
qed

lemma feed_next_frames:
  assumes "assembling s k n acc" and "channelID s = channelID r"
    and "cs \<noteq> [] \<Longrightarrow> 57 + 59 * (k + length cs - 1) < n"
  shows "\<exists>s'. Session_feed s (map (\<lambda>(i, c). HIDFrameNext_encode (next_frame r i c)) (enumerate k cs)) = Ret (None, s') \<and>
              channelID s' = channelID r"
  using assms
proof (induction cs arbitrary: s k acc)
  case Nil
  then show ?case by simp
next
  case (Cons c cs)
  from Cons.prems(3) have "57 + 59 * k < n" by (simp add: algebra_simps)
  with Cons.prems obtain t
    where t: "Session_ReadData s (HIDFrameNext_encode (next_frame r k c)) = Ret (None, t)"
      and ch: "channelID t = channelID r"
    using ReadData_next_frame by blast
  from assembling_step [OF Cons.prems(1) t] ch Cons.prems(3) t show ?case
    using Cons.IH [of t "Suc k"] by auto
qed

lemma concat_padded_chunks:
  assumes "0 < sz"
  shows "\<exists>p. concat (map (copy_into (replicate sz 0)) (chunks_of sz xs)) = xs @ replicate p 0"
  using assms
proof (induction sz xs rule: chunks_of.induct)
  case (1 sz xs)
  show ?case
  proof (cases "length xs \<le> sz")
    case True
    then show ?thesis
      by (auto simp: chunks_of.simps [of sz xs] copy_into_replicate)
  next
    case False
    with "1" obtain p where
      "concat (map (copy_into (replicate sz 0)) (chunks_of sz (drop sz xs))) = drop sz xs @ replicate p 0"
      by auto
    with False "1.prems" show ?thesis
      by (intro exI [of _ p]) (simp add: chunks_of.simps [of sz xs] copy_into_replicate flip: append_assoc)
  qed
qed

lemma FormatResponse_short:
  "length bs \<le> 57 \<Longrightarrow> Session_FormatResponse s bs = Ret [HIDFrame_encode (init_frame s (length bs) bs)]"
  by (simp add: Session_FormatResponse_def frame_consts)

lemma FormatResponse_long:
  "57 < length bs \<Longrightarrow> Session_FormatResponse s bs =
     Ret (HIDFrame_encode (init_frame s (length bs) (take 57 bs)) #
          map (\<lambda>(i, c). HIDFrameNext_encode (next_frame s i c)) (enumerate 0 (chunks_of 59 (drop 57 bs))))"
  by (simp add: Session_FormatResponse_def frame_consts slice_list_def chunk_def chunkFunc_chunks_of)

lemma last_chunk_bound:
  assumes "57 < length bs"
  shows "57 + 59 * (length (chunks_of 59 (drop 57 bs)) - 1) < length bs"
proof -
  have "length (chunks_of 59 (drop 57 bs)) = ceil_div (length bs - 57) 59"
    using assms by (subst length_chunks_of) auto
  moreover have "0 < ceil_div (length bs - 57) 59"
    using assms by (subst less_ceil_div_iff) auto
  ultimately show ?thesis
    using less_ceil_div_iff [of 59 "ceil_div (length bs - 57) 59 - 1" "length bs - 57"] by simp
qed

lemma feed_inv:
  assumes "session_inv s" and "Session_feed s fs = Ret (e, s')"
  shows "session_inv s'"
  using assms
proof (induction fs arbitrary: s)
  case Nil
  then show ?case by simp
next
  case (Cons f fs)
  then obtain e1 t where t: "Session_ReadData s f = Ret (e1, t)"
    and rest: "(case e1 of None \<Rightarrow> Session_feed t fs | Some err \<Rightarrow> Ret (Some err, t)) = Ret (e, s')"
    by (auto simp: go_bind_Ret_iff)
  from ReadData_inv [OF Cons.prems(1) t] have "session_inv t" .
  with Cons.IH rest show ?case
    by (cases e1) auto
qed

lemma FormatResponse_reassembled:
  assumes "channelID r \<noteq> 0" and "length bs \<le> 65535"
  shows "\<exists>f fs s0 s. Session_FormatResponse r bs = Ret (f # fs) \<and> NewSession f = Ret (Inr s0) \<and>
           Session_feed s0 fs = Ret (None, s) \<and> elems (Session_Data s) = bs \<and>
           \<not> ShouldReadMore s \<and> channelID s = channelID r"
proof (cases "length bs \<le> 57")
  case True
  let ?f = "HIDFrame_encode (init_frame r (length bs) bs)"
  obtain s0 where s0: "NewSession ?f = Ret (Inr s0)"
    using NewSession_init_frame [OF assms(1)] by blast
  have "unat (of_nat (length bs) :: uint16) = length bs"
    using assms(2) by (simp add: unat_of_nat)
  with NewSession_accept [OF s0] True
  have "elems (Session_Data s0) = bs" "\<not> ShouldReadMore s0" "channelID s0 = channelID r"
    by (simp_all add: payload_init_frame copy_into_replicate Session_Data_def)
  with s0 FormatResponse_short [OF True, of r] show ?thesis
    by fastforce
next
  case False
  then have long: "57 < length bs" by simp
  let ?cs = "chunks_of 59 (drop 57 bs)"
  let ?f = "HIDFrame_encode (init_frame r (length bs) (take 57 bs))"
  let ?fs = "map (\<lambda>(i, c). HIDFrameNext_encode (next_frame r i c)) (enumerate 0 ?cs)"
  obtain s0 where s0: "NewSession ?f = Ret (Inr s0)"
    using NewSession_init_frame [OF assms(1)] by blast
  have n: "unat (of_nat (length bs) :: uint16) = length bs"
    using assms(2) by (simp add: unat_of_nat)
  have "assembling s0 0 (unat (hf_DataLengthInner (HIDFrame_decode ?f))) (drop 7 ?f)"
    by (rule assembling_start [OF s0]) simp
  moreover have "hf_DataLengthInner (HIDFrame_decode ?f) = of_nat (length bs)"
    by simp
  ultimately have start: "assembling s0 0 (length bs) (take 57 bs)"
    using n long by (simp add: payload_init_frame copy_into_replicate)
  have "channelID s0 = channelID r"
    using NewSession_accept(3) [OF s0] by simp
  then obtain s where s: "Session_feed s0 ?fs = Ret (None, s)" "channelID s = channelID r"
    using feed_next_frames [OF start, of r ?cs] last_chunk_bound [OF long] by auto
  obtain p where "concat (map (copy_into (replicate 59 0)) ?cs) = drop 57 bs @ replicate p 0"
    using concat_padded_chunks [of 59 "drop 57 bs"] by auto
  moreover have "map (drop 5) ?fs = map (copy_into (replicate 59 0)) ?cs"
    by (rule nth_equalityI) (simp_all add: nth_enumerate_eq payload_next_frame)
  ultimately have "assembling s (length ?cs) (length bs) (bs @ replicate p 0)"
    using assembling_feed [OF start s(1)] by (simp flip: append_assoc)
  moreover from this have "length bs \<le> 57 + 59 * length ?cs"
    by (simp add: assembling_def)
  ultimately have "elems (Session_Data s) = bs" "\<not> ShouldReadMore s"
    by (simp_all add: assembling_def Session_Data_def)
  with FormatResponse_long [OF long] s0 s show ?thesis
    by fastforce
qed

section \<open>Properties of the transport\<close>

text \<open>
  C8. Round trip: every message of at most 65535 bytes that is cut into frames by
  \<open>FormatResponse\<close> is put together again by a receiving session, frame by frame, without an
  error, and the session is then complete on the same channel.
\<close>

theorem FormatResponse_roundtrip:
  assumes "channelID r \<noteq> 0" and "length bs \<le> 65535"
  shows "\<exists>f fs s0 s. Session_FormatResponse r bs = Ret (f # fs) \<and> NewSession f = Ret (Inr s0) \<and>
           Session_feed s0 fs = Ret (None, s) \<and> elems (Session_Data s) = bs \<and>
           \<not> ShouldReadMore s \<and> channelID s = channelID r"
  using assms by (rule FormatResponse_reassembled)

theorem FormatResponse_roundtrip_witness:
  "\<exists>f fs s0 s. Session_FormatResponse (Session_fresh\<lparr>channelID := 7\<rparr>) (replicate 100 42) = Ret (f # fs) \<and>
     NewSession f = Ret (Inr s0) \<and> Session_feed s0 fs = Ret (None, s) \<and>
     elems (Session_Data s) = replicate 100 42 \<and> \<not> ShouldReadMore s \<and>
     channelID s = channelID (Session_fresh\<lparr>channelID := 7\<rparr>)"
  by (rule FormatResponse_roundtrip) simp_all

text \<open>
  C27. Reassembly: a session opened by a frame with packet index 0 and fed follow-up frames without
  an error holds exactly the announced prefix of the concatenated payloads, and asks for more
  exactly while the payloads are shorter than announced.
\<close>

theorem Session_reassembly:
  assumes "NewSession f = Ret (Inr s0)" and "hf_PacketIndexInner (HIDFrame_decode f) = 0"
    and "Session_feed s0 fs = Ret (None, s)"
  shows "elems (Session_Data s) =
           take (unat (hf_DataLengthInner (HIDFrame_decode f))) (drop 7 f @ concat (map (drop 5) fs)) \<and>
         (ShouldReadMore s \<longleftrightarrow> 57 + 59 * length fs < unat (hf_DataLengthInner (HIDFrame_decode f)))"
  using assembling_feed [OF assembling_start [OF assms(1,2)] assms(3)]
  by (simp add: assembling_def Session_Data_def)

definition demo_first :: bytes where
  "demo_first = [1, 1, 5, 0, 0, 0, 60] @ replicate 57 7"

definition demo_next :: bytes where
  "demo_next = [1, 1, 5, 0, 1] @ replicate 59 8"

definition demo_session :: Session where
  "demo_session = (case NewSession demo_first of Ret (Inr s) \<Rightarrow> s | _ \<Rightarrow> Session_fresh)"

definition demo_done :: Session where
  "demo_done = (case Session_feed demo_session [demo_next] of Ret (None, s) \<Rightarrow> s | _ \<Rightarrow> Session_fresh)"

lemma demo_open: "NewSession demo_first = Ret (Inr demo_session)"
  by code_simp

lemma demo_feed: "Session_feed demo_session [demo_next] = Ret (None, demo_done)"
  by code_simp

theorem Session_reassembly_witness:
  "elems (Session_Data demo_done) =
     take (unat (hf_DataLengthInner (HIDFrame_decode demo_first)))
       (drop 7 demo_first @ concat (map (drop 5) [demo_next])) \<and>
   (ShouldReadMore demo_done \<longleftrightarrow>
      57 + 59 * length [demo_next] < unat (hf_DataLengthInner (HIDFrame_decode demo_first)))"
  by (rule Session_reassembly [OF demo_open _ demo_feed]) code_simp

text \<open>
  Invariant: whatever frames a session is fed, rejected ones included, it keeps at most the
  announced number of bytes and asks for more exactly while bytes are missing.
\<close>

lemma Session_invariant:
  assumes "NewSession f = Ret (Inr s0)" and "Session_feed s0 fs = Ret (e, s)"
  shows "channelID s \<noteq> 0 \<and> len (data s) \<le> unat (amountToRead s) \<and>
         (ShouldReadMore s \<longleftrightarrow> len (data s) < unat (amountToRead s))"
  using feed_inv [OF NewSession_inv [OF assms(1)] assms(2)] by (simp add: session_inv_def)

lemma Session_invariant_witness:
  "channelID demo_done \<noteq> 0 \<and> len (data demo_done) \<le> unat (amountToRead demo_done) \<and>
   (ShouldReadMore demo_done \<longleftrightarrow> len (data demo_done) < unat (amountToRead demo_done))"
  by (rule Session_invariant [OF demo_open demo_feed])

text \<open>
  C28. Rejection: reading a frame into an active session never panics; it returns an error exactly
  when the frame is not 64 bytes long, has a wrong tag, belongs to another channel, is out of
  order (modulo \<open>2^16\<close>) or the session is complete, and then the session is unchanged.
\<close>

theorem Session_ReadData_rejects:
  assumes "channelID s \<noteq> 0"
  shows "\<exists>err s'. Session_ReadData s bs = Ret (err, s') \<and> (err \<noteq> None \<longrightarrow> s' = s) \<and>
     (err \<noteq> None \<longleftrightarrow>
        length bs \<noteq> 64 \<or> hn_TagInner (HIDFrameNext_decode bs) \<noteq> hidFrameTag \<or>
        hn_ChannelIDInner (HIDFrameNext_decode bs) \<noteq> channelID s \<or> \<not> ShouldReadMore s \<or>
        hn_PacketIndexInner (HIDFrameNext_decode bs) \<noteq> lastReadFrameIndex s + 1)"
proof -
  obtain err s' where rd: "Session_ReadData s bs = Ret (err, s')"
    using Session_ReadData_no_panic by blast
  let ?h = "HIDFrameNext_decode bs"
  have "err = None" if ok: "length bs = 64" "hn_TagInner ?h = hidFrameTag"
    "hn_ChannelIDInner ?h = channelID s" "ShouldReadMore s"
    "hn_PacketIndexInner ?h = lastReadFrameIndex s + 1"
  proof -
    have "readFrame bs (FrameNext HIDFrameNext_zero) = Inr (FrameNext ?h)"
      by (simp add: readFrame_Next_iff ok)
    with rd ok assms show ?thesis
      using Session_readFrame_no_panic [of s "FrameNext ?h"]
      by (auto simp: Session_ReadData_def HIDFrameNext_validate_def Session_ReadFrame_def)
  qed
  moreover have "length bs = 64 \<and> hn_TagInner ?h = hidFrameTag \<and> hn_ChannelIDInner ?h = channelID s \<and>
      ShouldReadMore s \<and> hn_PacketIndexInner ?h = lastReadFrameIndex s + 1" if "err = None"
    using ReadData_next_accept [OF rd [unfolded that] assms]
    by (auto simp: HIDFrameNext_validate_def split: if_splits)
  moreover have "err \<noteq> None \<longrightarrow> s' = s"
    using rd Session_ReadData_error_unchanged by blast
  ultimately show ?thesis
    using rd by blast
qed

theorem Session_ReadData_rejects_witness:
  "\<exists>err s'. Session_ReadData demo_session (replicate 64 0) = Ret (err, s') \<and>
     (err \<noteq> None \<longrightarrow> s' = demo_session) \<and>
     (err \<noteq> None \<longleftrightarrow>
        length (replicate 64 (0 :: byte)) \<noteq> 64 \<or>
        hn_TagInner (HIDFrameNext_decode (replicate 64 0)) \<noteq> hidFrameTag \<or>
        hn_ChannelIDInner (HIDFrameNext_decode (replicate 64 0)) \<noteq> channelID demo_session \<or>
        \<not> ShouldReadMore demo_session \<or>
        hn_PacketIndexInner (HIDFrameNext_decode (replicate 64 0)) \<noteq> lastReadFrameIndex demo_session + 1)"
  by (rule Session_ReadData_rejects) code_simp

text \<open>
  The packet index wraps: after a frame with index 65535 the next frame in sequence has index
  0, which the inner \<open>readFrame\<close> refuses; \<open>ReadFrame\<close> drops that error, so \<open>ReadData\<close> reports
  success although the payload was not read.
\<close>

lemma wrapped_frame_dropped:
  assumes "channelID s \<noteq> 0" and "ShouldReadMore s" and "lastReadFrameIndex s = 65535"
    and "length payload = 59"
  shows "Session_ReadData s (HIDFrameNext_encode
           \<lparr>hn_ChannelIDInner = channelID s, hn_TagInner = hidFrameTag,
             hn_PacketIndexInner = 0, hn_DataInner = payload\<rparr>) = Ret (None, s)"
proof -
  let ?h = "\<lparr>hn_ChannelIDInner = channelID s, hn_TagInner = hidFrameTag,
             hn_PacketIndexInner = 0, hn_DataInner = payload\<rparr>"
  have wf: "HIDFrameNext_wf ?h"
    using assms(4) by (simp add: HIDFrameNext_wf_def)
  have "readFrame (HIDFrameNext_encode ?h) (FrameNext HIDFrameNext_zero) = Inr (FrameNext ?h)"
    using hid_next.length_enc [OF wf] hid_next.dec_enc [OF wf]
    by (simp add: readFrame_Next_iff frame_size_def)
  with assms show ?thesis
    by (simp add: Session_ReadData_def HIDFrameNext_validate_def Session_ReadFrame_def
        Session_readFrame_def)
qed

lemma wrapped_frame_dropped_witness:
  "Session_ReadData (demo_session\<lparr>lastReadFrameIndex := 65535\<rparr>) (HIDFrameNext_encode
     \<lparr>hn_ChannelIDInner = channelID (demo_session\<lparr>lastReadFrameIndex := 65535\<rparr>),
       hn_TagInner = hidFrameTag, hn_PacketIndexInner = 0, hn_DataInner = replicate 59 1\<rparr>) =
   Ret (None, demo_session\<lparr>lastReadFrameIndex := 65535\<rparr>)"
  by (rule wrapped_frame_dropped) (simp_all, code_simp+)

text \<open>
  Every reply is cut into frames of exactly 64 bytes: one when at most 57 bytes are sent,
  otherwise one more than the rounded-up quotient of the rest by 59, and cutting never panics.
\<close>

lemma FormatResponse_frames:
  "\<exists>fs. Session_FormatResponse s bs = Ret fs \<and> list_all (\<lambda>f. length f = 64) fs \<and>
     length fs = (if length bs \<le> 57 then 1 else 1 + nat \<lceil>real (length bs - 57) / 59\<rceil>)"
proof (cases "length bs \<le> 57")
  case True
  then show ?thesis by (simp add: FormatResponse_short)
next
  case False
  then have "length (chunks_of 59 (drop 57 bs)) = nat \<lceil>real (length bs - 57) / 59\<rceil>"
    using ceil_div_real [of 59 "length bs - 57"] by (subst length_chunks_of) simp_all
  with False show ?thesis
    by (simp add: FormatResponse_long list_all_iff) (auto simp: in_set_enumerate_eq)
qed

text \<open>
  The length field has 16 bits: the receiver of a formatted reply expects the length modulo
  65536, so a reply of 65536 bytes or more is announced too short.
\<close>

lemma FormatResponse_length_wraps:
  assumes "channelID r \<noteq> 0"
  shows "\<exists>f fs s0. Session_FormatResponse r bs = Ret (f # fs) \<and> NewSession f = Ret (Inr s0) \<and>
           unat (amountToRead s0) = length bs mod 65536"
proof -
  obtain c fs where f: "Session_FormatResponse r bs = Ret (HIDFrame_encode (init_frame r (length bs) c) # fs)"
    by (cases "length bs \<le> 57") (auto simp: FormatResponse_short FormatResponse_long)
  obtain s0 where s0: "NewSession (HIDFrame_encode (init_frame r (length bs) c)) = Ret (Inr s0)"
    using NewSession_init_frame [OF assms] by blast
  have "unat (amountToRead s0) = length bs mod 65536"
    using NewSession_accept(5) [OF s0] by (simp add: unat_of_nat)
  with f s0 show ?thesis by blast
qed

lemma FormatResponse_length_wraps_witness:
  "\<exists>f fs s0. Session_FormatResponse demo_session (replicate 70000 1) = Ret (f # fs) \<and>
     NewSession f = Ret (Inr s0) \<and>
     unat (amountToRead s0) = length (replicate 70000 (1 :: byte)) mod 65536"
  by (rule FormatResponse_length_wraps) code_simp

text \<open>
  The index loop of \<open>chunkFunc\<close> computes the reference chunking without a slice going out of
  bounds: the chunks put together are the data, none is longer than the chunk size, and there are
  \<open>math.Ceil(len/size)\<close> of them.
\<close>

lemma chunkFunc_correct:
  assumes "0 < sz"
  shows "chunkFunc bs sz = Ret (chunks_of sz bs) \<and> concat (chunks_of sz bs) = bs \<and>
         list_all (\<lambda>c. length c \<le> sz) (chunks_of sz bs) \<and>
         (bs = [] \<or> length (chunks_of sz bs) = nat \<lceil>real (length bs) / real sz\<rceil>)"
  using assms chunks_of_le [of sz _ bs] length_chunks_of [of sz bs]
  by (auto simp: chunkFunc_chunks_of concat_chunks_of list_all_iff ceil_div_real)

lemma chunkFunc_correct_witness:
  "chunkFunc (replicate 130 9) 59 = Ret (chunks_of 59 (replicate 130 9)) \<and>
   concat (chunks_of 59 (replicate 130 9)) = replicate 130 9 \<and>
   list_all (\<lambda>c. length c \<le> 59) (chunks_of 59 (replicate 130 9)) \<and>
   (replicate 130 (9 :: byte) = [] \<or>
    length (chunks_of 59 (replicate 130 9)) = nat \<lceil>real (length (replicate 130 (9 :: byte))) / real 59\<rceil>)"
  by (rule chunkFunc_correct) simp

end
