(* ===== verification/Usb_Device.thy ===== *)
theory Usb_Device
  imports Usb
begin

text \<open>
  The HID side of the USB device set-up (\<open>src/usb.go\<close>): the HID class descriptor and the set-up requests
  answered by the firmware.  \<open>Usb_Config\<close> has the rest of that file.
\<close>

definition hidRequestSetIdle :: byte where "hidRequestSetIdle = 10"
definition hidRequestTypeGetDescriptor :: byte where "hidRequestTypeGetDescriptor = 0x21"
definition descriptorTypeGetReport :: uint16 where "descriptorTypeGetReport = 0x22"

record hidDescriptor =
  Length :: byte
  Type :: byte
  bcdHID :: uint16
  CountryCode :: byte
  NumDescriptors :: byte
  ReportDescriptorType :: byte
  DescriptorLength :: uint16

definition hidDescriptor_zero :: hidDescriptor where
  "hidDescriptor_zero = \<lparr>Length = 0, Type = 0, bcdHID = 0, CountryCode = 0, NumDescriptors = 0,
     ReportDescriptorType = 0, DescriptorLength = 0\<rparr>"

definition setDefaults :: "hidDescriptor \<Rightarrow> hidDescriptor" where
  "setDefaults d = d\<lparr>Length := 0x09, Type := 0x21, bcdHID := 0x101\<rparr>"

definition hidDescriptor_bytes :: "hidDescriptor \<Rightarrow> bytes" where
  "hidDescriptor_bytes d =
     [Length d, Type d] @ le_put16 (bcdHID d) @
     [CountryCode d, NumDescriptors d, ReportDescriptorType d] @ le_put16 (DescriptorLength d)"

text \<open>The class descriptors of the interface, with the HID descriptor appended.\<close>

definition addHIDClassDescriptor :: "bytes list \<Rightarrow> bytes list" where
  "addHIDClassDescriptor ClassDescriptors =
     ClassDescriptors @
     [hidDescriptor_bytes
        ((setDefaults hidDescriptor_zero)\<lparr>CountryCode := 0x0, NumDescriptors := 0x01,
           ReportDescriptorType := 0x22, DescriptorLength := of_nat (length LedgerNanoXReport)\<rparr>)]"

record SetupData =
  RequestType :: byte
  Request :: byte
  Value :: uint16

record setup_result =
  su_in :: "bytes option"
  su_ack :: bool
  su_done :: bool
  su_err :: "go_error option"

definition setup_default :: setup_result where
  "setup_default = \<lparr>su_in = None, su_ack = False, su_done = False, su_err = None\<rparr>"

text \<open>The request numbers of the USB driver are arguments.\<close>

definition hidSetup :: "byte \<Rightarrow> byte \<Rightarrow> SetupData \<Rightarrow> setup_result" where
  "hidSetup SET_FEATURE GET_DESCRIPTOR setup =
     (let bDescriptorType = and (Value setup) 0xff
      in if Request setup = SET_FEATURE
         then setup_default\<lparr>su_err := Some (Errorf ''should stall'' []), su_done := True\<rparr>
         else if and (RequestType setup) (not 0x80) = hidRequestTypeGetDescriptor \<and>
                 Request setup = hidRequestSetIdle
         then setup_default\<lparr>su_ack := True, su_done := True\<rparr>
         else if Request setup = GET_DESCRIPTOR \<and> bDescriptorType = descriptorTypeGetReport
         then setup_default\<lparr>su_in := Some LedgerNanoXReport, su_done := True\<rparr>
         else setup_default)"

text \<open>
  The HID descriptor is consistent: it is nine bytes long as its first byte says, and the report
  length in its last two bytes is the length of the report the set-up function returns when the host asks
  for the report descriptor it announces.
\<close>

lemma hid_descriptor_consistent:
  assumes "GET_DESCRIPTOR \<noteq> SET_FEATURE" and "GET_DESCRIPTOR \<noteq> hidRequestSetIdle"
  shows "\<exists>d report. addHIDClassDescriptor cds = cds @ [d] \<and> length d = unat (d ! 0) \<and>
    su_in (hidSetup SET_FEATURE GET_DESCRIPTOR \<lparr>RequestType = rt, Request = GET_DESCRIPTOR, Value = ucast (d ! 6)\<rparr>) =
      Some report \<and>
    length report = unat (d ! 7) + 256 * unat (d ! 8)"
proof -
  let ?d = "last (addHIDClassDescriptor [])"
  have d: "?d = [9, 0x21, 1, 1, 0, 1, 0x22, 34, 0]"
    by code_simp
  have "addHIDClassDescriptor cds = cds @ [?d]"
    by (simp add: addHIDClassDescriptor_def)
  moreover have "length LedgerNanoXReport = 34"
    by (simp add: LedgerNanoXReport_def)
  ultimately show ?thesis
    using assms
    by - (rule exI [of _ ?d], rule exI [of _ LedgerNanoXReport],
        simp add: d descriptorTypeGetReport_def hidSetup_def Let_def setup_default_def)
qed

lemma hid_descriptor_consistent_witness:
  "\<exists>d report. addHIDClassDescriptor [] = [] @ [d] \<and> length d = unat (d ! 0) \<and>
    su_in (hidSetup 3 6 \<lparr>RequestType = 0x81, Request = 6, Value = ucast (d ! 6)\<rparr>) = Some report \<and>
    length report = unat (d ! 7) + 256 * unat (d ! 8)"
  by (rule hid_descriptor_consistent) (simp_all add: hidRequestSetIdle_def)

end
