(* ===== verification/Usb_Config.thy ===== *)
theory Usb_Config
  imports Usb_Device
begin

text \<open>
  The configuration of the USB device (\<open>src/usb.go\<close>, \<open>src/firmware/usb.go\<close>).  The descriptors are shared by
  pointers: an interface is handed to its configuration before its endpoints are added.  They live in an
  explicit store (\<open>usb_heap\<close>) and a pointer is a position in it.  The descriptor types and the device belong
  to the USB driver: the records have the fields this code sets, and the driver's functions are the argument
  \<open>usb_driver\<close>.
\<close>

section \<open>Descriptors and their store\<close>

type_synonym ref = nat

record 'f EndpointDescriptor =
  Attributes :: byte
  EndpointAddress :: byte
  MaxPacketSize :: uint16
  Interval :: byte
  Function :: "'f option"

record InterfaceDescriptor =
  NumEndpoints :: byte
  InterfaceClass :: byte
  InterfaceSubClass :: byte
  InterfaceProtocol :: byte
  Interface :: byte
  Endpoints :: "ref list"
  ClassDescriptors :: "bytes list"

record ConfigurationDescriptor =
  conf_Attributes :: byte
  conf_Interfaces :: "ref list"

record DeviceDescriptor =
  DeviceClass :: byte
  DeviceSubClass :: byte
  DeviceProtocol :: byte
  VendorId :: uint16
  ProductId :: uint16
  Device_Release :: uint16
  Manufacturer :: byte
  Product :: byte
  SerialNumber :: byte

record DeviceQualifierDescriptor =
  NumConfigurations :: byte

record 'd Device =
  Setup :: "(SetupData \<Rightarrow> setup_result) option"
  Descriptor :: "DeviceDescriptor option"
  Qualifier :: "DeviceQualifierDescriptor option"
  Configurations :: "ref list"
  dev_rest :: 'd

record 'f usb_heap =
  hp_ifaces :: "InterfaceDescriptor list"
  hp_endpoints :: "'f EndpointDescriptor list"
  hp_confs :: "ConfigurationDescriptor list"

record 'f HIDHandler =
  HIDHandler_Tx :: 'f
  HIDHandler_Rx :: 'f

text \<open>The driver: zero values, defaults and the methods of a device and of a configuration.\<close>

record ('d, 'f) usb_driver =
  zero_device :: 'd
  endpoint_SetDefaults :: "'f EndpointDescriptor \<Rightarrow> 'f EndpointDescriptor"
  interface_SetDefaults :: "InterfaceDescriptor \<Rightarrow> InterfaceDescriptor"
  conf_SetDefaults :: "ConfigurationDescriptor \<Rightarrow> ConfigurationDescriptor"
  device_SetDefaults :: "DeviceDescriptor \<Rightarrow> DeviceDescriptor"
  qualifier_SetDefaults :: "DeviceQualifierDescriptor \<Rightarrow> DeviceQualifierDescriptor"
  SetLanguageCodes :: "uint16 list \<Rightarrow> 'd Device \<Rightarrow> 'd Device"
  AddString :: "string \<Rightarrow> 'd Device \<Rightarrow> (go_error + byte) \<times> 'd Device"
  AddConfiguration :: "ref \<Rightarrow> 'd Device \<Rightarrow> go_error option \<times> 'd Device"
  AddInterface :: "ref \<Rightarrow> ConfigurationDescriptor \<Rightarrow> ConfigurationDescriptor"
  USB_SET_FEATURE :: byte
  USB_GET_DESCRIPTOR :: byte

definition endpoint_zero :: "'f EndpointDescriptor" where
  "endpoint_zero = \<lparr>Attributes = 0, EndpointAddress = 0, MaxPacketSize = 0, Interval = 0, Function = None\<rparr>"

definition interface_zero :: InterfaceDescriptor where
  "interface_zero = \<lparr>NumEndpoints = 0, InterfaceClass = 0, InterfaceSubClass = 0, InterfaceProtocol = 0,
     Interface = 0, Endpoints = [], ClassDescriptors = []\<rparr>"

definition conf_zero :: ConfigurationDescriptor where
  "conf_zero = \<lparr>conf_Attributes = 0, conf_Interfaces = []\<rparr>"

definition device_descriptor_zero :: DeviceDescriptor where
  "device_descriptor_zero = \<lparr>DeviceClass = 0, DeviceSubClass = 0, DeviceProtocol = 0, VendorId = 0, ProductId = 0,
     Device_Release = 0, Manufacturer = 0, Product = 0, SerialNumber = 0\<rparr>"

definition heap_empty :: "'f usb_heap" where
  "heap_empty = \<lparr>hp_ifaces = [], hp_endpoints = [], hp_confs = []\<rparr>"

text \<open>Writing through a pointer.\<close>

definition upd_iface :: "ref \<Rightarrow> (InterfaceDescriptor \<Rightarrow> InterfaceDescriptor) \<Rightarrow> 'f usb_heap \<Rightarrow> 'f usb_heap" where
  "upd_iface r f h = h\<lparr>hp_ifaces := (hp_ifaces h)[r := f (hp_ifaces h ! r)]\<rparr>"

definition upd_endpoint :: "ref \<Rightarrow> ('f EndpointDescriptor \<Rightarrow> 'f EndpointDescriptor) \<Rightarrow> 'f usb_heap \<Rightarrow> 'f usb_heap" where
  "upd_endpoint r f h = h\<lparr>hp_endpoints := (hp_endpoints h)[r := f (hp_endpoints h ! r)]\<rparr>"

definition upd_conf :: "ref \<Rightarrow> (ConfigurationDescriptor \<Rightarrow> ConfigurationDescriptor) \<Rightarrow> 'f usb_heap \<Rightarrow> 'f usb_heap" where
  "upd_conf r f h = h\<lparr>hp_confs := (hp_confs h)[r := f (hp_confs h ! r)]\<rparr>"

section \<open>The HID interface\<close>

definition addInterface ::
  "('d, 'f) usb_driver \<Rightarrow> 'd Device \<Rightarrow> ref \<Rightarrow> 'f usb_heap \<Rightarrow> (go_error + ref) \<times> 'd Device \<times> 'f usb_heap" where
  "addInterface drv device conf h =
     (let iface = length (hp_ifaces h);
          d = (interface_SetDefaults drv interface_zero)\<lparr>NumEndpoints := 2, InterfaceClass := 0x03,
                InterfaceSubClass := 0x0, InterfaceProtocol := 0x0\<rparr>;
          (res, device') = AddString drv ''fidati interface descriptor'' device
      in case res of
           Inl err \<Rightarrow> (Inl err, device', h\<lparr>hp_ifaces := hp_ifaces h @ [d]\<rparr>)
         | Inr i \<Rightarrow> (Inr iface, device', upd_conf conf (AddInterface drv iface) (h\<lparr>hp_ifaces := hp_ifaces h @ [d\<lparr>Interface := i\<rparr>]\<rparr>)))"

record endpoints =
  ep_in :: ref
  ep_out :: ref

definition addEndpoints :: "('d, 'f) usb_driver \<Rightarrow> ref \<Rightarrow> 'f usb_heap \<Rightarrow> endpoints \<times> 'f usb_heap" where
  "addEndpoints drv conf h =
     (let e = \<lparr>ep_in = length (hp_endpoints h), ep_out = Suc (length (hp_endpoints h))\<rparr>;
          i = (endpoint_SetDefaults drv endpoint_zero)\<lparr>Attributes := 0x03, EndpointAddress := 0x81,
                MaxPacketSize := 512, Interval := 1\<rparr>;
          u = (endpoint_SetDefaults drv endpoint_zero)\<lparr>Attributes := 0x03, EndpointAddress := 0x01,
                MaxPacketSize := 512, Interval := 1\<rparr>;
          h' = h\<lparr>hp_endpoints := hp_endpoints h @ [i, u]\<rparr>
      in (e, upd_iface conf (\<lambda>d. d\<lparr>Endpoints := Endpoints d @ [ep_out e, ep_in e]\<rparr>) h'))"

definition configureDevice ::
  "('d, 'f) usb_driver \<Rightarrow> 'd Device \<Rightarrow> ref \<Rightarrow> 'f HIDHandler \<Rightarrow> 'f usb_heap \<Rightarrow> go_error option \<times> 'd Device \<times> 'f usb_heap" where
  "configureDevice drv device conf handler h =
     (let device = device\<lparr>Setup := Some (hidSetup (USB_SET_FEATURE drv) (USB_GET_DESCRIPTOR drv))\<rparr>;
          (res, device, h) = addInterface drv device conf h
      in case res of
           Inl err \<Rightarrow> (Some (Wrap ''cannot add U2F USB Interface'' err), device, h)
         | Inr iface \<Rightarrow>
             let (e, h) = addEndpoints drv iface h;
                 h = upd_endpoint (ep_in e) (\<lambda>d. d\<lparr>Function := Some (HIDHandler_Tx handler)\<rparr>) h;
                 h = upd_endpoint (ep_out e) (\<lambda>d. d\<lparr>Function := Some (HIDHandler_Rx handler)\<rparr>) h;
                 h = upd_iface iface (\<lambda>d. d\<lparr>ClassDescriptors := addHIDClassDescriptor (ClassDescriptors d)\<rparr>) h;
                 q = (qualifier_SetDefaults drv \<lparr>NumConfigurations = 0\<rparr>)
                       \<lparr>NumConfigurations := of_nat (length (Configurations device))\<rparr>
             in (None, device\<lparr>Qualifier := Some q\<rparr>, h))"

definition DefaultConfiguration :: "('d, 'f) usb_driver \<Rightarrow> ConfigurationDescriptor" where
  "DefaultConfiguration drv = (conf_SetDefaults drv conf_zero)\<lparr>conf_Attributes := 160\<rparr>"

definition ConfigureUSB ::
  "('d, 'f) usb_driver \<Rightarrow> ref \<Rightarrow> 'd Device \<Rightarrow> 'f HIDHandler \<Rightarrow> 'f usb_heap \<Rightarrow> go_error option \<times> 'd Device \<times> 'f usb_heap" where
  "ConfigureUSB drv config device handler h = configureDevice drv device config handler h"

section \<open>The firmware's device\<close>

definition baseConfiguration :: "('d, 'f) usb_driver \<Rightarrow> 'd Device \<Rightarrow> go_error option \<times> 'd Device" where
  "baseConfiguration drv device =
     (let device = SetLanguageCodes drv [0x0409] device;
          dd = (device_SetDefaults drv device_descriptor_zero)\<lparr>DeviceClass := 0x0, DeviceSubClass := 0x0,
                 DeviceProtocol := 0x0, VendorId := 0x2c97, ProductId := 0x4011, Device_Release := 0x0001\<rparr>;
          set = (\<lambda>f device. device\<lparr>Descriptor := map_option f (Descriptor device)\<rparr>);
          device = device\<lparr>Descriptor := Some dd\<rparr>;
          (iManufacturer, device) = AddString drv ''Ledger'' device
      in case iManufacturer of
           Inl err \<Rightarrow> (Some err, device)
         | Inr i \<Rightarrow>
             let (iProduct, device) = AddString drv ''Nano X'' (set (\<lambda>d. d\<lparr>Manufacturer := i\<rparr>) device)
             in case iProduct of
                  Inl err \<Rightarrow> (Some err, device)
                | Inr j \<Rightarrow>
                    let (iSerial, device) = AddString drv ''0001'' (set (\<lambda>d. d\<lparr>Product := j\<rparr>) device)
                    in case iSerial of
                         Inl err \<Rightarrow> (Some err, device)
                       | Inr k \<Rightarrow> (None, set (\<lambda>d. d\<lparr>SerialNumber := k\<rparr>) device))"

text \<open>\<open>USB1.Start\<close> does not return: \<open>Inr\<close> is the device it serves.  The error of \<open>baseConfiguration\<close> is dropped.\<close>

definition startUSB ::
  "('d, 'f) usb_driver \<Rightarrow> 'f HIDHandler \<Rightarrow> go_error + ('d Device \<times> 'f usb_heap)" where
  "startUSB drv handler =
     (let device = \<lparr>Setup = None, Descriptor = None, Qualifier = None, Configurations = [], dev_rest = zero_device drv\<rparr>;
          cd = 0;
          h = heap_empty\<lparr>hp_confs := [(conf_SetDefaults drv conf_zero)\<lparr>conf_Attributes := 160\<rparr>]\<rparr>;
          (_, device) = baseConfiguration drv device;
          (err, device) = AddConfiguration drv cd device
      in case err of
           Some e \<Rightarrow> Inl e
         | None \<Rightarrow>
             (case ConfigureUSB drv cd device handler h of
                (Some e, _, _) \<Rightarrow> Inl e
              | (None, device, h) \<Rightarrow> Inr (device, h)))"

section \<open>What the host finds\<close>

text \<open>
  What the code relies on: defaults fill in no lists, strings are kept apart from the descriptors, and a
  configuration or an interface is added at the end of its list.
\<close>

definition driver_ok :: "('d, 'f) usb_driver \<Rightarrow> bool" where
  "driver_ok drv \<longleftrightarrow>
     conf_Interfaces (conf_SetDefaults drv conf_zero) = [] \<and>
     Endpoints (interface_SetDefaults drv interface_zero) = [] \<and>
     ClassDescriptors (interface_SetDefaults drv interface_zero) = [] \<and>
     (\<forall>cs d. Configurations (SetLanguageCodes drv cs d) = Configurations d) \<and>
     (\<forall>s d. Configurations (snd (AddString drv s d)) = Configurations d \<and> Setup (snd (AddString drv s d)) = Setup d) \<and>
     (\<forall>r d d'. AddConfiguration drv r d = (None, d') \<longrightarrow> Configurations d' = Configurations d @ [r]) \<and>
     (\<forall>r c. conf_Interfaces (AddInterface drv r c) = conf_Interfaces c @ [r])"

lemma AddString_keeps:
  "driver_ok drv \<Longrightarrow> AddString drv s d = (r, d') \<Longrightarrow> Configurations d' = Configurations d \<and> Setup d' = Setup d"
  by (auto simp: driver_ok_def) (metis snd_conv)+

lemma baseConfiguration_keeps:
  assumes "driver_ok drv" and "baseConfiguration drv d = (r, d')"
  shows "Configurations d' = Configurations d"
  using assms(2) AddString_keeps [OF assms(1)] assms(1)
  by (auto simp: baseConfiguration_def Let_def driver_ok_def split: prod.splits sum.splits)

text \<open>The endpoints of an interface with the functions that serve them.\<close>

definition served_endpoints :: "'f usb_heap \<Rightarrow> ref \<Rightarrow> (byte \<times> uint16 \<times> 'f option) list" where
  "served_endpoints h r =
     map (\<lambda>e. (EndpointAddress (hp_endpoints h ! e), MaxPacketSize (hp_endpoints h ! e), Function (hp_endpoints h ! e)))
       (Endpoints (hp_ifaces h ! r))"

lemma ConfigureUSB_wired:
  assumes "driver_ok drv" and "ConfigureUSB drv 0 d handler (heap_empty\<lparr>hp_confs := [DefaultConfiguration drv]\<rparr>) = (None, d', h)"
  shows "Configurations d' = Configurations d" and "Setup d' = Some (hidSetup (USB_SET_FEATURE drv) (USB_GET_DESCRIPTOR drv))"
    and "map_option NumConfigurations (Qualifier d') = Some (of_nat (length (Configurations d)))"
    and "map conf_Interfaces (hp_confs h) = [[0]]" and "conf_Attributes (hp_confs h ! 0) = conf_Attributes (AddInterface drv 0 (DefaultConfiguration drv))"
    and "InterfaceClass (hp_ifaces h ! 0) = 3" and "NumEndpoints (hp_ifaces h ! 0) = 2"
    and "ClassDescriptors (hp_ifaces h ! 0) = addHIDClassDescriptor []"
    and "served_endpoints h 0 = [(0x01, 512, Some (HIDHandler_Rx handler)), (0x81, 512, Some (HIDHandler_Tx handler))]"
  using assms AddString_keeps [OF assms(1)]
  by (auto simp: ConfigureUSB_def configureDevice_def addInterface_def addEndpoints_def Let_def heap_empty_def
      upd_conf_def upd_iface_def upd_endpoint_def driver_ok_def DefaultConfiguration_def served_endpoints_def
      split: prod.splits sum.splits)

text \<open>
  C40. The device the firmware starts is wired to the HID loop: its only configuration has one HID interface
  with the descriptor of the report, and the interface has as many endpoints as it announces, the out endpoint
  served by \<open>Rx\<close> and the in endpoint by \<open>Tx\<close>, although both were added after the interface was handed
  over; set-up requests go to the HID set-up function.
\<close>

theorem startUSB_wired:
  assumes "driver_ok drv" and "startUSB drv handler = Inr (device, h)"
  shows "Configurations device = [0] \<and> conf_Interfaces (hp_confs h ! 0) = [0] \<and>
    Setup device = Some (hidSetup (USB_SET_FEATURE drv) (USB_GET_DESCRIPTOR drv)) \<and>
    map_option NumConfigurations (Qualifier device) = Some 1 \<and>
    InterfaceClass (hp_ifaces h ! 0) = 3 \<and> ClassDescriptors (hp_ifaces h ! 0) = addHIDClassDescriptor [] \<and>
    served_endpoints h 0 = [(0x01, 512, Some (HIDHandler_Rx handler)), (0x81, 512, Some (HIDHandler_Tx handler))] \<and>
    length (served_endpoints h 0) = unat (NumEndpoints (hp_ifaces h ! 0))"
proof -
  let ?d0 = "\<lparr>Setup = None, Descriptor = None, Qualifier = None, Configurations = [], dev_rest = zero_device drv\<rparr>"
  obtain r d1 where base: "baseConfiguration drv ?d0 = (r, d1)" by (cases "baseConfiguration drv ?d0")
  with assms(2) obtain d2 where add: "AddConfiguration drv 0 d1 = (None, d2)"
    and conf: "ConfigureUSB drv 0 d2 handler (heap_empty\<lparr>hp_confs := [DefaultConfiguration drv]\<rparr>) = (None, device, h)"
    by (auto simp: startUSB_def Let_def DefaultConfiguration_def split: prod.splits option.splits)
  from baseConfiguration_keeps [OF assms(1) base] add assms(1) have "Configurations d2 = [0]"
    by (auto simp: driver_ok_def)
  with ConfigureUSB_wired [OF assms(1) conf] show ?thesis
    by (cases "hp_confs h") auto
qed

definition demo_driver :: "(string list, bool) usb_driver" where
  "demo_driver = \<lparr>zero_device = [], endpoint_SetDefaults = id, interface_SetDefaults = id, conf_SetDefaults = id,
     device_SetDefaults = id, qualifier_SetDefaults = id, SetLanguageCodes = (\<lambda>cs d. d),
     AddString = (\<lambda>s d. (Inr (of_nat (Suc (length (dev_rest d)))), d\<lparr>dev_rest := dev_rest d @ [s]\<rparr>)),
     AddConfiguration = (\<lambda>r d. (None, d\<lparr>Configurations := Configurations d @ [r]\<rparr>)),
     AddInterface = (\<lambda>r c. c\<lparr>conf_Interfaces := conf_Interfaces c @ [r]\<rparr>),
     USB_SET_FEATURE = 3, USB_GET_DESCRIPTOR = 6\<rparr>"

definition demo_usb :: "string list Device \<times> bool usb_heap" where
  "demo_usb = (case startUSB demo_driver \<lparr>HIDHandler_Tx = False, HIDHandler_Rx = True\<rparr> of Inr x \<Rightarrow> x)"

theorem startUSB_wired_witness:
  "served_endpoints (snd demo_usb) 0 = [(0x01, 512, Some True), (0x81, 512, Some False)] \<and>
   dev_rest (fst demo_usb) = [''Ledger'', ''Nano X'', ''0001'', ''fidati interface descriptor'']"
proof -
  have "driver_ok demo_driver"
    by (simp add: driver_ok_def demo_driver_def conf_zero_def interface_zero_def)
  moreover have "startUSB demo_driver \<lparr>HIDHandler_Tx = False, HIDHandler_Rx = True\<rparr> = Inr demo_usb"
    and strings: "dev_rest (fst demo_usb) = [''Ledger'', ''Nano X'', ''0001'', ''fidati interface descriptor'']"
    by (simp_all add: demo_usb_def startUSB_def demo_driver_def baseConfiguration_def ConfigureUSB_def configureDevice_def
        addInterface_def addEndpoints_def Let_def)
  ultimately show ?thesis
    using startUSB_wired [of demo_driver "\<lparr>HIDHandler_Tx = False, HIDHandler_Rx = True\<rparr>" "fst demo_usb" "snd demo_usb"]
    by simp
qed

end
