(* ===== verification/Sha256_Vectors.thy ===== *)
theory Sha256_Vectors
  imports Sha256
begin

text \<open>A published test vector, evaluated with the definitions of \<open>Sha256\<close>.\<close>

text \<open>The one-block example of FIPS 180-4: the digest of the ASCII string abc.\<close>

lemma Sum256_abc: "Sum256 (map of_nat [97, 98, 99]) =
  [0xba, 0x78, 0x16, 0xbf, 0x8f, 0x01, 0xcf, 0xea, 0x41, 0x41, 0x40, 0xde, 0x5d, 0xae, 0x22, 0x23,
   0xb0, 0x03, 0x61, 0xa3, 0x96, 0x17, 0x7a, 0x9c, 0xb4, 0x10, 0xff, 0x61, 0xf2, 0x00, 0x15, 0xad]"
  by code_simp

end
