(* ===== verification/Crypto.thy ===== *)
theory Crypto
  imports Go_Runtime Sha256
begin

text \<open>
  The \<open>crypto\<close> package (\<open>src/crypto/\<close>): derivation paths, key derivation along a path, the \<open>Token\<close>
  interface and the software token \<open>dumbToken\<close>.  The third-party packages \<open>hdkeychain\<close>, \<open>btcec\<close> and
  \<open>go-bip39\<close> are a record of operations that the definitions take as an argument; the operating
  system's random source and the allocator's limit are arguments too.
\<close>

section \<open>Algorithms\<close>

text \<open>\<open>uint\<close> has 32 bits on the board.\<close>

type_synonym Algorithm = uint32

definition AlgoSecp256K1 :: Algorithm where
  "AlgoSecp256K1 = 0"

definition Algorithm_String :: "Algorithm \<Rightarrow> string go" where
  "Algorithm_String i =
     (let index = [0, 13 :: nat]; name = ''AlgoSecp256K1''
      in if i \<ge> of_nat (length index - 1) then Ret (''Algorithm('' @ format_int (uint i) @ '')'')
         else slice_list name (index ! unat i) (index ! (unat i + 1)))"

section \<open>The diversifier\<close>

definition diversifier :: bytes where
  "diversifier =
    [116, 101, 110, 103, 32, 101, 32, 115, 111, 114, 100, 10, 116, 101, 110, 103,
     32, 101, 32, 115, 111, 114, 100, 10, 116, 101, 110, 103, 32, 101, 32, 115,
     111, 114, 100, 32, 111, 32, 118, 101, 114, 10, 102, 97, 99, 105, 116, 109,
     32, 115, 116, 97, 32, 113, 117, 105, 101, 116, 10, 109, 32, 109, 97, 103,
     110, 32, 109, 105, 108, 108, 39, 101, 117, 114, 32, 111, 32, 106, 117, 111,
     114, 110]"

definition Diversifier :: bytes where
  "Diversifier = diversifier"

section \<open>Derivation paths\<close>

record DerivationPath =
  Purpose :: uint32
  CoinType :: uint32
  Account :: uint32
  Change :: uint32
  AddressIndex :: uint32

text \<open>\<open>binary.LittleEndian.Uint32\<close> panics when the slice has fewer than four bytes.\<close>

definition le_Uint32 :: "bytes \<Rightarrow> uint32 go" where
  "le_Uint32 b = (if length b < 4 then Panic IndexOutOfRange
                  else Ret (le_uint32 (b ! 0) (b ! 1) (b ! 2) (b ! 3)))"

definition NewDerivationPathFromBytes ::
  "bytes \<Rightarrow> bytes \<Rightarrow> bytes \<Rightarrow> bytes \<Rightarrow> bytes \<Rightarrow> DerivationPath go" where
  "NewDerivationPathFromBytes purpose coinType account change addressIndex =
     go_bind (le_Uint32 purpose) (\<lambda>p.
     go_bind (le_Uint32 coinType) (\<lambda>c.
     go_bind (le_Uint32 account) (\<lambda>a.
     go_bind (le_Uint32 change) (\<lambda>ch.
     go_bind (le_Uint32 addressIndex) (\<lambda>ai.
       Ret \<lparr>Purpose = 0x80000000 XOR p, CoinType = 0x80000000 XOR c, Account = 0x80000000 XOR a,
            Change = ch, AddressIndex = ai\<rparr>)))))"

definition DerivationPath_String :: "DerivationPath \<Rightarrow> string" where
  "DerivationPath_String d =
     ''m/'' @ decimal (unat (Purpose d)) @ [CHR 0x27] @ ''/'' @ decimal (unat (CoinType d)) @ [CHR 0x27] @
     ''/'' @ decimal (unat (Account d)) @ [CHR 0x27] @ ''/'' @ decimal (unat (Change d)) @
     ''/'' @ decimal (unat (AddressIndex d))"

definition InOrder :: "DerivationPath \<Rightarrow> uint32 list" where
  "InOrder d = [Purpose d, CoinType d, Account d, Change d, AddressIndex d]"

section \<open>Key derivation\<close>

text \<open>
  What the code uses of \<open>hdkeychain\<close>, \<open>btcec\<close> and \<open>bip39\<close>: \<open>hd_NewMaster\<close> takes the seed and the
  coin type written into the chain parameters; \<open>ec_Sign\<close> is \<open>PrivateKey.Sign\<close> followed by
  \<open>Serialize\<close>, \<open>hd_ECPubKey\<close> is \<open>ECPubKey\<close> followed by \<open>SerializeCompressed\<close>.
\<close>

record ('k, 'sk) hdlib =
  hd_HardenedKeyStart :: uint32
  hd_NewMaster :: "bytes \<Rightarrow> uint32 \<Rightarrow> go_error + 'k"
  hd_Child :: "'k \<Rightarrow> uint32 \<Rightarrow> go_error + 'k"
  hd_ECPrivKey :: "'k \<Rightarrow> go_error + 'sk"
  ec_Sign :: "'sk \<Rightarrow> bytes \<Rightarrow> go_error + bytes"
  hd_Neuter :: "'k \<Rightarrow> go_error + 'k"
  hd_ECPubKey :: "'k \<Rightarrow> go_error + bytes"
  bip39_NewMnemonic :: "bytes \<Rightarrow> go_error + string"

text \<open>The loop over the components: \<open>child\<close> is nil before the first iteration.\<close>

fun KeyFromPath_loop ::
  "('k, 'sk) hdlib \<Rightarrow> 'k \<Rightarrow> uint32 list \<Rightarrow> nat \<Rightarrow> uint32 list \<Rightarrow> 'k option \<Rightarrow> go_error + 'k option" where
  "KeyFromPath_loop lib privateKey all idx [] child = Inr child"
| "KeyFromPath_loop lib privateKey all idx (component # rest) child =
     (let k = (case child of None \<Rightarrow> privateKey | Some c \<Rightarrow> c);
          mustHarden = idx \<le> 2;
          component' = (if mustHarden then component + hd_HardenedKeyStart lib else component)
      in case hd_Child lib k component' of
           Inl err \<Rightarrow> Inl (Errorf ''cannot generate child key for path %v'' (map unat (take idx all)))
         | Inr c \<Rightarrow> KeyFromPath_loop lib privateKey all (idx + 1) rest (Some c))"

definition KeyFromPath :: "('k, 'sk) hdlib \<Rightarrow> 'k \<Rightarrow> DerivationPath \<Rightarrow> go_error + 'k option" where
  "KeyFromPath lib privateKey path =
     KeyFromPath_loop lib privateKey (InOrder path) 0 (InOrder path) None"

section \<open>The Token interface\<close>

text \<open>
  One record per implementation of \<open>crypto.Token\<close>, over the state \<open>'t\<close> of the token and the world
  \<open>'w\<close> it acts on (a random source, the secure world).  Only \<open>Initialize\<close> writes the token.
\<close>

record ('t, 'w) Token =
  RandomBytes :: "'t \<Rightarrow> uint64 \<Rightarrow> 'w \<Rightarrow> ((go_error + bytes) \<times> 'w) go"
  DeriveSecret :: "'t \<Rightarrow> 'w \<Rightarrow> ((go_error + bytes) \<times> 'w) go"
  Initialize :: "'t \<Rightarrow> DerivationPath \<Rightarrow> 'w \<Rightarrow> (go_error option \<times> 't \<times> 'w) go"
  Sign :: "'t \<Rightarrow> bytes \<Rightarrow> Algorithm \<Rightarrow> 'w \<Rightarrow> ((go_error + bytes) \<times> 'w) go"
  PublicKey :: "'t \<Rightarrow> 'w \<Rightarrow> ((go_error + bytes) \<times> 'w) go"
  Mnemonic :: "'t \<Rightarrow> 'w \<Rightarrow> ((go_error + string list) \<times> 'w) go"
  Clone :: "'t \<Rightarrow> 't"
  SupportedSignAlgorithms :: "'t \<Rightarrow> Algorithm list"

section \<open>The software token\<close>

definition defaultEntropy :: bytes where
  "defaultEntropy =
    [118, 252, 209, 103, 94, 240, 60, 245, 18, 224, 156, 240, 11, 232, 52, 25,
     31, 134, 125, 135, 192, 2, 31, 206, 216, 100, 159, 234, 150, 9, 236, 57]"

record 'k dumbToken =
  privKey :: "'k option"

text \<open>
  The operating environment of a software token: the library, \<open>crypto/rand.Read\<close> (\<open>n\<close> bytes or an
  error, and the source's next state) and the largest slice that \<open>make\<close> can allocate.
\<close>

record ('k, 'sk, 'w) token_env =
  env_lib :: "('k, 'sk) hdlib"
  env_rand :: "nat \<Rightarrow> 'w \<Rightarrow> (go_error + bytes) \<times> 'w"
  env_maxAlloc :: nat

definition NewDumbToken :: "'k dumbToken" where
  "NewDumbToken = \<lparr>privKey = None\<rparr>"

definition dumbToken_RandomBytes ::
  "('k, 'sk, 'w) token_env \<Rightarrow> 'k dumbToken \<Rightarrow> uint64 \<Rightarrow> 'w \<Rightarrow> ((go_error + bytes) \<times> 'w) go" where
  "dumbToken_RandomBytes env dt amount w =
     (if amount = 0 then Ret (Inl (Errorf ''requested bytes amount is zero'' []), w)
      else if unat amount > env_maxAlloc env
        then Panic (ExplicitPanic ''makeslice: len out of range'')
      else Ret (env_rand env (unat amount) w))"

text \<open>Writing to an HMAC cannot fail and its sum is never nil, so the error branches are gone.\<close>

definition dumbToken_secret :: bytes where
  "dumbToken_secret = copy_into (replicate 32 0) (hmac_sha256 Diversifier defaultEntropy)"

definition dumbToken_DeriveSecret ::
  "'k dumbToken \<Rightarrow> 'w \<Rightarrow> ((go_error + bytes) \<times> 'w) go" where
  "dumbToken_DeriveSecret dt w = Ret (Inr dumbToken_secret, w)"

definition dumbToken_Initialize ::
  "('k, 'sk, 'w) token_env \<Rightarrow> 'k dumbToken \<Rightarrow> DerivationPath \<Rightarrow> 'w \<Rightarrow>
   (go_error option \<times> 'k dumbToken \<times> 'w) go" where
  "dumbToken_Initialize env dt path w =
     go_bind (dumbToken_DeriveSecret dt w) (\<lambda>(secret, w').
       case secret of
         Inl err \<Rightarrow> Ret (Some err, dt, w')
       | Inr s \<Rightarrow>
           (case hd_NewMaster (env_lib env) s (CoinType path) of
              Inl err \<Rightarrow> Ret (Some err, dt, w')
            | Inr sb \<Rightarrow>
                (case KeyFromPath (env_lib env) sb path of
                   Inl err \<Rightarrow> Ret (Some err, dt\<lparr>privKey := None\<rparr>, w')
                 | Inr child \<Rightarrow> Ret (None, dt\<lparr>privKey := child\<rparr>, w'))))"

text \<open>A method call on the nil key of a token that was never initialised panics.\<close>

definition dumbToken_Sign ::
  "('k, 'sk, 'w) token_env \<Rightarrow> 'k dumbToken \<Rightarrow> bytes \<Rightarrow> Algorithm \<Rightarrow> 'w \<Rightarrow> ((go_error + bytes) \<times> 'w) go" where
  "dumbToken_Sign env dt payload algorithm w =
     (case privKey dt of
        None \<Rightarrow> Panic NilPointer
      | Some k \<Rightarrow>
          (case hd_ECPrivKey (env_lib env) k of
             Inl err \<Rightarrow> Ret (Inl err, w)
           | Inr pk \<Rightarrow> Ret (ec_Sign (env_lib env) pk payload, w)))"

definition dumbToken_PublicKey ::
  "('k, 'sk, 'w) token_env \<Rightarrow> 'k dumbToken \<Rightarrow> 'w \<Rightarrow> ((go_error + bytes) \<times> 'w) go" where
  "dumbToken_PublicKey env dt w =
     (case privKey dt of
        None \<Rightarrow> Panic NilPointer
      | Some k \<Rightarrow>
          (case hd_Neuter (env_lib env) k of
             Inl err \<Rightarrow> Ret (Inl err, w)
           | Inr epubk \<Rightarrow> Ret (hd_ECPubKey (env_lib env) epubk, w)))"

text \<open>\<open>strings.Split(s, " ")\<close>: the pieces between blanks, at least one.\<close>

fun split_blank :: "string \<Rightarrow> string list" where
  "split_blank [] = [[]]"
| "split_blank (c # cs) =
     (case split_blank cs of
        [] \<Rightarrow> [[c]]
      | w # ws \<Rightarrow> if c = CHR '' '' then [] # w # ws else (c # w) # ws)"

definition dumbToken_Mnemonic ::
  "('k, 'sk, 'w) token_env \<Rightarrow> 'k dumbToken \<Rightarrow> 'w \<Rightarrow> ((go_error + string list) \<times> 'w) go" where
  "dumbToken_Mnemonic env dt w =
     go_bind (dumbToken_DeriveSecret dt w) (\<lambda>(secret, w').
       case secret of
         Inl err \<Rightarrow> Ret (Inl err, w')
       | Inr s \<Rightarrow>
           (case bip39_NewMnemonic (env_lib env) s of
              Inl err \<Rightarrow> Ret (Inl err, w')
            | Inr mnemonic \<Rightarrow> Ret (Inr (split_blank mnemonic), w')))"

definition dumbToken_SupportedSignAlgorithms :: "'k dumbToken \<Rightarrow> Algorithm list" where
  "dumbToken_SupportedSignAlgorithms dt = [AlgoSecp256K1]"

definition dumbToken_Clone :: "'k dumbToken \<Rightarrow> 'k dumbToken" where
  "dumbToken_Clone dt = dt"

definition dumbToken_impl :: "('k, 'sk, 'w) token_env \<Rightarrow> ('k dumbToken, 'w) Token" where
  "dumbToken_impl env = \<lparr>
     RandomBytes = dumbToken_RandomBytes env,
     DeriveSecret = dumbToken_DeriveSecret,
     Initialize = dumbToken_Initialize env,
     Sign = dumbToken_Sign env,
     PublicKey = dumbToken_PublicKey env,
     Mnemonic = dumbToken_Mnemonic env,
     Clone = dumbToken_Clone,
     SupportedSignAlgorithms = dumbToken_SupportedSignAlgorithms\<rparr>"

section \<open>Path arithmetic\<close>

lemma and_top_bit: "(w :: uint32) AND 0x80000000 = (if bit w 31 then 0x80000000 else 0)"
proof (rule bit_word_eqI)
  fix n
  have top: "bit (0x80000000 :: uint32) n \<longleftrightarrow> n = 31"
    using bit_exp_iff [of 31 n, where 'a = uint32] by auto
  show "bit (w AND 0x80000000) n = bit (if bit w 31 then 0x80000000 else 0 :: uint32) n"
    using top by (auto simp: bit_and_iff)
qed

text \<open>Flipping the top bit is adding \<open>2^31\<close>, so flipping and then adding \<open>2^31\<close> is the identity.\<close>

lemma xor_top_bit: "(0x80000000 :: uint32) XOR w = w + 0x80000000"
proof -
  have "w + 0x80000000 = (w AND 0x80000000) + (w OR 0x80000000)"
    by (rule word_plus_and_or [symmetric])
  also have "w OR 0x80000000 = (w XOR 0x80000000) OR (w AND 0x80000000)"
    by (rule bit_word_eqI) (auto simp: bit_or_iff bit_xor_iff bit_and_iff)
  also have "\<dots> = (w XOR 0x80000000) + (w AND 0x80000000)"
    by (rule disjunctive_add [symmetric]) (auto simp: bit_xor_iff bit_and_iff)
  finally show ?thesis
    by (simp add: and_top_bit xor.commute split: if_splits)
qed

lemma wire_component: "((0x80000000 :: uint32) XOR w) + 0x80000000 = w"
  by (simp add: xor_top_bit add.assoc)

section \<open>Derivation along a path\<close>

text \<open>The reference: apply \<open>Child\<close> at a list of indices, one after the other.\<close>

fun child_chain :: "('k, 'sk) hdlib \<Rightarrow> 'k \<Rightarrow> uint32 list \<Rightarrow> 'k option" where
  "child_chain lib k [] = Some k"
| "child_chain lib k (i # is) =
     (case hd_Child lib k i of Inl _ \<Rightarrow> None | Inr c \<Rightarrow> child_chain lib c is)"

text \<open>The indices \<open>KeyFromPath\<close> hands to \<open>Child\<close>: the first three levels are shifted.\<close>

definition path_indices :: "('k, 'sk) hdlib \<Rightarrow> DerivationPath \<Rightarrow> uint32 list" where
  "path_indices lib p =
     [Purpose p + hd_HardenedKeyStart lib, CoinType p + hd_HardenedKeyStart lib,
      Account p + hd_HardenedKeyStart lib, Change p, AddressIndex p]"

lemma KeyFromPath_eq:
  "KeyFromPath lib k p =
     (case hd_Child lib k (Purpose p + hd_HardenedKeyStart lib) of
        Inl _ \<Rightarrow> Inl (Errorf ''cannot generate child key for path %v'' [])
      | Inr k1 \<Rightarrow>
     (case hd_Child lib k1 (CoinType p + hd_HardenedKeyStart lib) of
        Inl _ \<Rightarrow> Inl (Errorf ''cannot generate child key for path %v'' [unat (Purpose p)])
      | Inr k2 \<Rightarrow>
     (case hd_Child lib k2 (Account p + hd_HardenedKeyStart lib) of
        Inl _ \<Rightarrow> Inl (Errorf ''cannot generate child key for path %v''
                     [unat (Purpose p), unat (CoinType p)])
      | Inr k3 \<Rightarrow>
     (case hd_Child lib k3 (Change p) of
        Inl _ \<Rightarrow> Inl (Errorf ''cannot generate child key for path %v''
                     [unat (Purpose p), unat (CoinType p), unat (Account p)])
      | Inr k4 \<Rightarrow>
     (case hd_Child lib k4 (AddressIndex p) of
        Inl _ \<Rightarrow> Inl (Errorf ''cannot generate child key for path %v''
                     [unat (Purpose p), unat (CoinType p), unat (Account p), unat (Change p)])
      | Inr k5 \<Rightarrow> Inr (Some k5))))))"
  by (simp add: KeyFromPath_def InOrder_def Let_def split: sum.split)

lemma KeyFromPath_Some_iff:
  "KeyFromPath lib k p = Inr (Some r) \<longleftrightarrow> child_chain lib k (path_indices lib p) = Some r"
  by (simp add: KeyFromPath_eq path_indices_def split: sum.split)

lemma KeyFromPath_not_nil: "KeyFromPath lib k p \<noteq> Inr None"
  by (simp add: KeyFromPath_eq split: sum.split)

lemma le_Uint32_put [codec_simps]: "le_Uint32 (le_put32 v) = Ret v"
  using le_uint32_put [of v] by (simp add: le_Uint32_def le_put32_def)

lemma NewDerivationPathFromBytes_put:
  "NewDerivationPathFromBytes (le_put32 a) (le_put32 b) (le_put32 c) (le_put32 d) (le_put32 e) =
     Ret \<lparr>Purpose = 0x80000000 XOR a, CoinType = 0x80000000 XOR b, Account = 0x80000000 XOR c,
          Change = d, AddressIndex = e\<rparr>"
  by (simp add: NewDerivationPathFromBytes_def codec_simps)

section \<open>What a token promises\<close>

text \<open>
  The contract the application relies on: a clone is a copy, \<open>Initialize\<close> returns and leaves the
  world alone, and a successfully initialised token depends on the path only.
\<close>

locale token_contract =
  fixes T :: "('t, 'w) Token"
  assumes Clone_same: "Clone T t = t"
    and Initialize_total: "\<exists>e t'. Initialize T t p w = Ret (e, t', w)"
    and Initialize_path: "Initialize T t p w = Ret (None, t', w') \<Longrightarrow> Initialize T u p w = Ret (None, t', w')"
    and Initialize_error: "Initialize T t p w = Ret (Some e, t', w') \<Longrightarrow> \<exists>u'. Initialize T u p w = Ret (Some e, u', w')"
begin

text \<open>Whatever a session does with a fresh clone does not depend on the token it was cloned from.\<close>

lemma session_independent:
  assumes "\<And>e a b. f (Some e, a, w) = f (Some e, b, w)"
  shows "go_bind (Initialize T (Clone T t) p w) f = go_bind (Initialize T (Clone T u) p w) f"
proof -
  obtain e t' where t: "Initialize T t p w = Ret (e, t', w)"
    using Initialize_total by blast
  show ?thesis
  proof (cases e)
    case None
    with t Initialize_path [of t p w t' w u] show ?thesis
      by (simp add: Clone_same)
  next
    case (Some err)
    with t Initialize_error [of t p w err t' w u] assms show ?thesis
      by (auto simp: Clone_same)
  qed
qed

end

text \<open>A token that answers locally also never panics once it is initialised.\<close>

locale local_token = token_contract T
  for T :: "('t, 'w) Token" +
  assumes Sign_ready: "Initialize T t p w = Ret (None, t', w') \<Longrightarrow> \<exists>r. Sign T t' m a v = Ret (r, v)"
    and PublicKey_ready: "Initialize T t p w = Ret (None, t', w') \<Longrightarrow> \<exists>r. PublicKey T t' v = Ret (r, v)"
begin

lemma sign_after_init_no_panic:
  "\<exists>r. go_bind (Initialize T t p w) (\<lambda>(e, t', w').
     case e of Some err \<Rightarrow> Ret (Inl err, w') | None \<Rightarrow> Sign T t' m a w') = Ret r"
proof -
  obtain e t' where "Initialize T t p w = Ret (e, t', w)"
    using Initialize_total by blast
  with Sign_ready show ?thesis
    by (cases e) fastforce+
qed

end

lemma dumbToken_Initialize_eq:
  "dumbToken_Initialize env dt path w =
     (case hd_NewMaster (env_lib env) dumbToken_secret (CoinType path) of
        Inl err \<Rightarrow> Ret (Some err, dt, w)
      | Inr sb \<Rightarrow>
          (case KeyFromPath (env_lib env) sb path of
             Inl err \<Rightarrow> Ret (Some err, \<lparr>privKey = None\<rparr>, w)
           | Inr child \<Rightarrow> Ret (None, \<lparr>privKey = child\<rparr>, w)))"
  by (cases dt) (simp add: dumbToken_Initialize_def dumbToken_DeriveSecret_def split: sum.split)

lemma dumbToken_Initialize_ready:
  "dumbToken_Initialize env dt path w = Ret (None, dt', w') \<Longrightarrow> \<exists>k. privKey dt' = Some k"
  using KeyFromPath_not_nil [of "env_lib env" _ path]
  by (auto simp: dumbToken_Initialize_eq split: sum.splits) (metis option.exhaust)

lemmas dumbToken_impl_sel = dumbToken_impl_def Token.select_convs

interpretation dumb: local_token "dumbToken_impl env" for env :: "('k, 'sk, 'w) token_env"
proof
  fix t u t' :: "'k dumbToken" and p w w' e m a v
  show "Clone (dumbToken_impl env) t = t"
    by (simp add: dumbToken_impl_def dumbToken_Clone_def)
  show "\<exists>e t'. Initialize (dumbToken_impl env) t p w = Ret (e, t', w)"
    by (auto simp: dumbToken_impl_def dumbToken_Initialize_eq split: sum.split)
  show "Initialize (dumbToken_impl env) t p w = Ret (None, t', w') \<Longrightarrow>
      Initialize (dumbToken_impl env) u p w = Ret (None, t', w')"
    by (auto simp: dumbToken_impl_def dumbToken_Initialize_eq split: sum.splits)
  show "Initialize (dumbToken_impl env) t p w = Ret (Some e, t', w') \<Longrightarrow>
      \<exists>u'. Initialize (dumbToken_impl env) u p w = Ret (Some e, u', w')"
    by (auto simp: dumbToken_impl_def dumbToken_Initialize_eq split: sum.splits)
  show "\<exists>r. Sign (dumbToken_impl env) t' m a v = Ret (r, v)"
    if "Initialize (dumbToken_impl env) t p w = Ret (None, t', w')"
    using dumbToken_Initialize_ready [of env t p w t' w'] that
    by (auto simp: dumbToken_impl_def dumbToken_Sign_def split: sum.split)
  show "\<exists>r. PublicKey (dumbToken_impl env) t' v = Ret (r, v)"
    if "Initialize (dumbToken_impl env) t p w = Ret (None, t', w')"
    using dumbToken_Initialize_ready [of env t p w t' w'] that
    by (auto simp: dumbToken_impl_def dumbToken_PublicKey_def split: sum.split)
qed

section \<open>Properties of key derivation and of the software token\<close>

text \<open>
  A library that records the derivation: keys are the lists of indices they were derived at.
  It shows that the hypotheses about the third-party packages can hold.
\<close>

definition trace_lib :: "(uint32 list, uint32 list) hdlib" where
  "trace_lib = \<lparr>
     hd_HardenedKeyStart = 0x80000000,
     hd_NewMaster = (\<lambda>seed coin. Inr []),
     hd_Child = (\<lambda>k i. Inr (k @ [i])),
     hd_ECPrivKey = Inr,
     ec_Sign = (\<lambda>k m. Inr (m @ concat (map le_put32 k))),
     hd_Neuter = Inr,
     hd_ECPubKey = (\<lambda>k. Inr (2 # concat (map le_put32 k))),
     bip39_NewMnemonic = (\<lambda>s. Inr ''a b'')\<rparr>"

definition trace_env :: "(uint32 list, uint32 list, unit) token_env" where
  "trace_env = \<lparr>env_lib = trace_lib, env_rand = (\<lambda>n w. (Inr (replicate n 4), w)), env_maxAlloc = 1000\<rparr>"

text \<open>
  \<open>KeyFromPath\<close> derives the child at the five path components in order, the first three
  shifted by \<open>HardenedKeyStart\<close> (with 32-bit wrap-around); it never returns a nil key without
  an error.
\<close>

lemma KeyFromPath_chain:
  "(KeyFromPath lib k p = Inr (Some r) \<longleftrightarrow>
      child_chain lib k
        [Purpose p + hd_HardenedKeyStart lib, CoinType p + hd_HardenedKeyStart lib,
         Account p + hd_HardenedKeyStart lib, Change p, AddressIndex p] = Some r) \<and>
   KeyFromPath lib k p \<noteq> Inr None"
  using KeyFromPath_Some_iff [of lib k p r] KeyFromPath_not_nil [of lib k p]
  by (simp add: path_indices_def)

text \<open>
  C11. From the wire to the key: the first three components of a received path are xored with
  \<open>0x80000000\<close> and later shifted by the same amount, which cancels.  The key is derived at exactly
  the five little-endian words the host sent, hardened or not.
\<close>

theorem wire_path_indices:
  assumes "hd_HardenedKeyStart lib = 0x80000000"
  shows "\<exists>path.
    NewDerivationPathFromBytes (le_put32 a) (le_put32 b) (le_put32 c) (le_put32 d) (le_put32 e) = Ret path \<and>
    (KeyFromPath lib k path = Inr (Some r) \<longleftrightarrow> child_chain lib k [a, b, c, d, e] = Some r)"
proof -
  let ?p = "\<lparr>Purpose = 0x80000000 XOR a, CoinType = 0x80000000 XOR b, Account = 0x80000000 XOR c,
     Change = d, AddressIndex = e\<rparr>"
  have "path_indices lib ?p = [a, b, c, d, e]"
    by (simp add: path_indices_def assms wire_component)
  then show ?thesis
    by (simp only: NewDerivationPathFromBytes_put go.inject KeyFromPath_Some_iff simp_thms ex_simps)
qed

theorem wire_path_indices_witness:
  "\<exists>path. NewDerivationPathFromBytes (le_put32 44) (le_put32 0x80000076) (le_put32 0x80000000)
        (le_put32 0) (le_put32 1) = Ret path \<and>
    (KeyFromPath trace_lib [] path = Inr (Some [44, 0x80000076, 0x80000000, 0, 1]) \<longleftrightarrow>
     child_chain trace_lib [] [44, 0x80000076, 0x80000000, 0, 1] = Some [44, 0x80000076, 0x80000000, 0, 1])"
  by (rule wire_path_indices) (simp add: trace_lib_def)

text \<open>
  Signing with the software token: from any previous state, initialising it at a path and
  signing uses the key derived from the fixed 32-byte secret along that path, without a panic.
\<close>

lemma dumbToken_signs_at_path:
  assumes "hd_NewMaster (env_lib env) dumbToken_secret (CoinType p) = Inr master"
    and "child_chain (env_lib env) master (path_indices (env_lib env) p) = Some k"
    and "hd_ECPrivKey (env_lib env) k = Inr sk"
  shows "length dumbToken_secret = 32 \<and>
         (\<exists>dt'. dumbToken_Initialize env dt p w = Ret (None, dt', w) \<and>
            dumbToken_Sign env dt' m a v = Ret (ec_Sign (env_lib env) sk m, v))"
proof -
  have "KeyFromPath (env_lib env) master p = Inr (Some k)"
    using assms(2) by (simp add: KeyFromPath_Some_iff)
  with assms(1,3) show ?thesis
    by (simp add: dumbToken_Initialize_eq dumbToken_Sign_def dumbToken_secret_def)
qed

definition demo_path :: DerivationPath where
  "demo_path = \<lparr>Purpose = 44, CoinType = 118, Account = 0, Change = 0, AddressIndex = 0\<rparr>"

lemma trace_chain:
  "child_chain (env_lib trace_env) [] (path_indices (env_lib trace_env) demo_path) =
     Some [0x8000002c, 0x80000076, 0x80000000, 0, 0]"
  by (simp add: trace_env_def trace_lib_def demo_path_def path_indices_def)

lemma dumbToken_signs_at_path_witness:
  "length dumbToken_secret = 32 \<and>
   (\<exists>dt'. dumbToken_Initialize trace_env NewDumbToken demo_path () = Ret (None, dt', ()) \<and>
      dumbToken_Sign trace_env dt' [1] AlgoSecp256K1 () =
        Ret (ec_Sign (env_lib trace_env) [0x8000002c, 0x80000076, 0x80000000, 0, 0] [1], ()))"
  by (rule dumbToken_signs_at_path [OF _ trace_chain]) (simp_all add: trace_env_def trace_lib_def)

end
