(* ===== verification/Apps.thy ===== *)
theory Apps
  imports Go_Runtime Crypto
begin

text \<open>
  The application registry of \<open>src/apps/\<close>: status codes, the \<open>App\<close> interface, the \<open>Handler\<close> that
  routes a command APDU to the registered application, and the packaging of responses.  The parser
  of the third-party package \<open>go-nfctype4/apdu\<close> is an argument.
\<close>

section \<open>Status codes\<close>

type_synonym APDUCode = uint16

definition APDUExecutionError :: APDUCode where "APDUExecutionError = 0x6400"
definition APDUEmptyBuffer :: APDUCode where "APDUEmptyBuffer = 0x6982"
definition APDUOutputBufferTooSmall :: APDUCode where "APDUOutputBufferTooSmall = 0x6983"
definition APDUCommandNotAllowed :: APDUCode where "APDUCommandNotAllowed = 0x6986"
definition APDUINSNotSupported :: APDUCode where "APDUINSNotSupported = 0x6D00"
definition APDUCLANotSupported :: APDUCode where "APDUCLANotSupported = 0x6E00"
definition APDUUnknown :: APDUCode where "APDUUnknown = 0x6F00"
definition APDUSuccess :: APDUCode where "APDUSuccess = 0x9000"
definition APDUWrongLength :: APDUCode where "APDUWrongLength = 0x6700"
definition APDUDataInvalid :: APDUCode where "APDUDataInvalid = 0x6984"

lemmas apdu_codes = APDUExecutionError_def APDUEmptyBuffer_def APDUOutputBufferTooSmall_def
  APDUCommandNotAllowed_def APDUINSNotSupported_def APDUCLANotSupported_def APDUUnknown_def
  APDUSuccess_def APDUWrongLength_def APDUDataInvalid_def

text \<open>The generated \<open>String\<close> method: three names share one table and are cut out by index.\<close>

definition APDUCode_String :: "APDUCode \<Rightarrow> string go" where
  "APDUCode_String i =
     (if i = 25600 then Ret ''APDUExecutionError''
      else if i = 26368 then Ret ''APDUWrongLength''
      else if 27010 \<le> i \<and> i \<le> 27012
        then let i' = unat (i - 27010); index = [0, 15, 39, 54 :: nat];
                 name = ''APDUEmptyBufferAPDUOutputBufferTooSmallAPDUDataInvalid''
             in slice_list name (index ! i') (index ! (i' + 1))
      else if i = 27014 then Ret ''APDUCommandNotAllowed''
      else if i = 27904 then Ret ''APDUINSNotSupported''
      else if i = 28160 then Ret ''APDUCLANotSupported''
      else if i = 28416 then Ret ''APDUUnknown''
      else if i = 36864 then Ret ''APDUSuccess''
      else Ret (''APDUCode('' @ format_int (int (unat i)) @ '')''))"

section \<open>Responses\<close>

definition PackageResponse :: "bytes \<Rightarrow> APDUCode \<Rightarrow> bytes" where
  "PackageResponse payload code = payload @ be_put16 code"

section \<open>Applications and the handler\<close>

text \<open>
  The interface \<open>App\<close>: one record per implementation, over the application's own state \<open>'s\<close> and the
  world \<open>'w\<close> its operations act on.
\<close>

record ('s, 'w) App =
  App_Name :: "'s \<Rightarrow> string"
  App_ID :: "'s \<Rightarrow> byte"
  App_Commands :: "'s \<Rightarrow> byte list"
  App_Handle :: "byte \<Rightarrow> gslice \<Rightarrow> 's \<Rightarrow> 'w \<Rightarrow> ((bytes \<times> APDUCode \<times> go_error option) \<times> 's \<times> 'w) go"

record commandMapping =
  cm_appID :: byte
  cm_command :: byte

record 's Handler =
  appMap :: "byte \<rightharpoonup> 's"
  commandAppMap :: "commandMapping set"

definition NewHandler :: "'s Handler" where
  "NewHandler = \<lparr>appMap = Map.empty, commandAppMap = {}\<rparr>"

definition mappingExists :: "'s Handler \<Rightarrow> byte \<Rightarrow> bool" where
  "mappingExists h i \<longleftrightarrow> appMap h i \<noteq> None"

definition commandAppMappingExists :: "'s Handler \<Rightarrow> byte \<Rightarrow> byte \<Rightarrow> bool" where
  "commandAppMappingExists h i c \<longleftrightarrow> \<lparr>cm_appID = i, cm_command = c\<rparr> \<in> commandAppMap h"

text \<open>\<open>Register\<close> stops at the first application whose ID is taken; the ones before it stay registered.\<close>

fun Register :: "('s, 'w) App \<Rightarrow> 's Handler \<Rightarrow> 's list \<Rightarrow> go_error option \<times> 's Handler" where
  "Register A h [] = (None, h)"
| "Register A h (app # rest) =
     (let i = App_ID A app; cmds = App_Commands A app
      in if mappingExists h i
         then (Some (Errorf (''mapping for '' @ App_Name A app @ '' already exists'') []), h)
         else Register A
                (h\<lparr>appMap := (appMap h)(i \<mapsto> app),
                   commandAppMap := commandAppMap h \<union>
                     (\<lambda>cmd. \<lparr>cm_appID = i, cm_command = cmd\<rparr>) ` set cmds\<rparr>)
                rest)"

record CAPDU =
  CLA :: byte
  INS :: byte

text \<open>A failing parse is answered with the zero packet and a nil error, as the code does.\<close>

definition UnmarshalCAPDU :: "(bytes \<Rightarrow> go_error + CAPDU) \<Rightarrow> bytes \<Rightarrow> go_error + CAPDU" where
  "UnmarshalCAPDU unmarshal bs =
     (case unmarshal bs of
        Inl _ \<Rightarrow> Inr \<lparr>CLA = 0, INS = 0\<rparr>
      | Inr packet \<Rightarrow> Inr packet)"

text \<open>A nil response is \<^const>\<open>None\<close>.\<close>

definition Handle ::
  "(bytes \<Rightarrow> go_error + CAPDU) \<Rightarrow> ('s, 'w) App \<Rightarrow> 's Handler \<Rightarrow> gslice \<Rightarrow> 'w \<Rightarrow>
   ((bytes option \<times> go_error option) \<times> 's Handler \<times> 'w) go" where
  "Handle unmarshal A h bs w =
     (case UnmarshalCAPDU unmarshal (elems bs) of
        Inl err \<Rightarrow> Ret ((None, Some err), h, w)
      | Inr capdu \<Rightarrow>
          (let i = CLA capdu; command = INS capdu
           in case appMap h i of
                None \<Rightarrow>
                  Ret ((Some (PackageResponse [] APDUCLANotSupported),
                        Some (Errorf ''appID %v not supported'' [unat i])), h, w)
              | Some app \<Rightarrow>
                  if \<not> commandAppMappingExists h i command
                  then Ret ((Some (PackageResponse [] APDUCLANotSupported),
                             Some (Errorf ''command ID %v not supported in app %v''
                               [unat command, unat i])), h, w)
                  else go_bind (App_Handle A command bs app w)
                         (\<lambda>((respData, respCode, err), app', w').
                            Ret ((Some (PackageResponse respData respCode), err),
                                 h\<lparr>appMap := (appMap h)(i \<mapsto> app')\<rparr>, w'))))"

section \<open>What an application promises\<close>

text \<open>
  Handling a command does not change an application's identity: its ID and its command list are
  those it was registered with.  This is what keeps the two maps of the handler consistent.
\<close>

locale apdu_app =
  fixes A :: "('s, 'w) App"
  assumes ID_stable: "App_Handle A c bs s w = Ret (r, s', w') \<Longrightarrow> App_ID A s' = App_ID A s"
    and Commands_stable: "App_Handle A c bs s w = Ret (r, s', w') \<Longrightarrow> App_Commands A s' = App_Commands A s"

text \<open>The registry invariant: every entry sits under its own ID with exactly its own commands.\<close>

definition handler_inv :: "('s, 'w) App \<Rightarrow> 's Handler \<Rightarrow> bool" where
  "handler_inv A h \<longleftrightarrow>
     (\<forall>i s. appMap h i = Some s \<longrightarrow> App_ID A s = i) \<and>
     (\<forall>i c. commandAppMappingExists h i c \<longleftrightarrow> (\<exists>s. appMap h i = Some s \<and> c \<in> set (App_Commands A s)))"

lemma handler_inv_New: "handler_inv A NewHandler"
  by (simp add: handler_inv_def NewHandler_def commandAppMappingExists_def)

lemma handler_inv_Register: "handler_inv A h \<Longrightarrow> handler_inv A (snd (Register A h apps))"
proof (induction A h apps rule: Register.induct)
  case (1 A h)
  then show ?case by simp
next
  case (2 A h app rest)
  show ?case
  proof (cases "mappingExists h (App_ID A app)")
    case True
    with "2.prems" show ?thesis by (simp add: Let_def)
  next
    case False
    let ?h = "h\<lparr>appMap := (appMap h)(App_ID A app \<mapsto> app),
        commandAppMap := commandAppMap h \<union>
          (\<lambda>cmd. \<lparr>cm_appID = App_ID A app, cm_command = cmd\<rparr>) ` set (App_Commands A app)\<rparr>"
    have "handler_inv A ?h"
      using "2.prems" False
      by (auto simp: handler_inv_def commandAppMappingExists_def mappingExists_def)
    with "2.IH" False show ?thesis by (simp add: Let_def)
  qed
qed

context apdu_app
begin

lemma handler_inv_Handle:
  assumes "handler_inv A h" and "Handle unm A h bs w = Ret (r, h', w')"
  shows "handler_inv A h'"
proof -
  obtain capdu where c: "UnmarshalCAPDU unm (elems bs) = Inr capdu"
    by (cases "unm (elems bs)") (auto simp: UnmarshalCAPDU_def)
  show ?thesis
  proof (cases "h' = h")
    case True
    with assms(1) show ?thesis by simp
  next
    case False
    with assms(2) c obtain app r2 app' where app: "appMap h (CLA capdu) = Some app"
      and run: "App_Handle A (INS capdu) bs app w = Ret (r2, app', w')"
      and h': "h' = h\<lparr>appMap := (appMap h)(CLA capdu \<mapsto> app')\<rparr>"
      by (auto simp: Handle_def go_bind_Ret_iff Let_def split: option.splits if_splits)
    from run have "App_ID A app' = App_ID A app" "App_Commands A app' = App_Commands A app"
      by (rule ID_stable, rule Commands_stable)
    with assms(1) app h' show ?thesis
      by (auto simp: handler_inv_def commandAppMappingExists_def)
  qed
qed

text \<open>An application is only ever asked for commands it announced.\<close>

lemma Handle_announced:
  assumes "handler_inv A h" and "UnmarshalCAPDU unm (elems bs) = Inr c" and "appMap h (CLA c) = Some app"
  shows "Handle unm A h bs w =
    (if INS c \<in> set (App_Commands A app)
     then go_bind (App_Handle A (INS c) bs app w) (\<lambda>((d, code, err), app', w').
            Ret ((Some (PackageResponse d code), err), h\<lparr>appMap := (appMap h)(CLA c \<mapsto> app')\<rparr>, w'))
     else Ret ((Some (PackageResponse [] APDUCLANotSupported),
                Some (Errorf ''command ID %v not supported in app %v'' [unat (INS c), unat (CLA c)])), h, w))"
  using assms by (auto simp: Handle_def Let_def handler_inv_def)

end

section \<open>Properties of the registry\<close>

text \<open>One registration step.\<close>

definition add_app :: "('s, 'w) App \<Rightarrow> 's Handler \<Rightarrow> 's \<Rightarrow> 's Handler" where
  "add_app A h app = h\<lparr>appMap := (appMap h)(App_ID A app \<mapsto> app),
     commandAppMap := commandAppMap h \<union>
       (\<lambda>cmd. \<lparr>cm_appID = App_ID A app, cm_command = cmd\<rparr>) ` set (App_Commands A app)\<rparr>"

lemma Register_Cons:
  "Register A h (app # rest) =
     (if appMap h (App_ID A app) \<noteq> None
      then (Some (Errorf (''mapping for '' @ App_Name A app @ '' already exists'') []), h)
      else Register A (add_app A h app) rest)"
  by (simp add: Let_def add_app_def mappingExists_def)

lemma appMap_add_app [simp]: "appMap (add_app A h app) = (appMap h)(App_ID A app \<mapsto> app)"
  by (simp add: add_app_def)

lemma Register_None_iff:
  "fst (Register A h apps) = None \<longleftrightarrow>
     distinct (map (App_ID A) apps) \<and> (\<forall>a\<in>set apps. appMap h (App_ID A a) = None)"
proof (induction apps arbitrary: h)
  case Nil
  then show ?case by simp
next
  case (Cons app apps)
  show ?case
    by (auto simp: Register_Cons Cons.IH image_iff simp del: Register.simps(2))
qed

lemma Register_appMap:
  "fst (Register A h apps) = None \<Longrightarrow>
   appMap (snd (Register A h apps)) = appMap h ++ map_of (map (\<lambda>a. (App_ID A a, a)) apps)"
proof (induction apps arbitrary: h)
  case Nil
  then show ?case by simp
next
  case (Cons app apps)
  then have ok: "appMap h (App_ID A app) = None" "fst (Register A (add_app A h app) apps) = None"
    by (auto simp: Register_Cons simp del: Register.simps(2) split: if_split_asm)
  from Cons.prems have "App_ID A app \<notin> dom (map_of (map (\<lambda>a. (App_ID A a, a)) apps))"
    by (auto simp: Register_None_iff dom_map_of_conv_image_fst image_image simp del: Register.simps(2))
  with ok Cons.IH [OF ok(2)] show ?case
    by (auto simp: Register_Cons map_add_def fun_eq_iff simp del: Register.simps(2) split: option.split)
qed

text \<open>
  C33. Registering applications succeeds exactly when their IDs are distinct and unused; then each
  is found under its ID and nothing else changes hands.  Successful or not, the registry stays
  consistent: every entry sits under its own ID, with exactly the commands it announces.
\<close>

theorem Register_correct:
  assumes "handler_inv A h"
  shows "(fst (Register A h apps) = None \<longleftrightarrow>
            distinct (map (App_ID A) apps) \<and> list_all (\<lambda>a. appMap h (App_ID A a) = None) apps) \<and>
         (fst (Register A h apps) = None \<longrightarrow>
            appMap (snd (Register A h apps)) = appMap h ++ map_of (map (\<lambda>a. (App_ID A a, a)) apps)) \<and>
         handler_inv A (snd (Register A h apps))"
  using handler_inv_Register [OF assms] Register_None_iff [of A h apps] Register_appMap [of A h apps]
  by (auto simp: list_all_iff)

definition toy_App :: "(byte, unit) App" where
  "toy_App = \<lparr>App_Name = (\<lambda>i. ''toy''), App_ID = id, App_Commands = (\<lambda>i. [i, 1]),
     App_Handle = (\<lambda>c bs s w. Ret (([c], APDUSuccess, None), s, w))\<rparr>"

theorem Register_correct_witness:
  "fst (Register toy_App NewHandler [3, 4]) = None \<and>
   appMap (snd (Register toy_App NewHandler [3, 4])) =
     appMap NewHandler ++ map_of (map (\<lambda>a. (App_ID toy_App a, a)) [3, 4]) \<and>
   handler_inv toy_App (snd (Register toy_App NewHandler [3, 4])) \<and>
   fst (Register toy_App NewHandler [3, 4, 3]) \<noteq> None"
proof -
  have "distinct (map (App_ID toy_App) [3, 4])" "\<not> distinct (map (App_ID toy_App) [3, 4, 3])"
    "list_all (\<lambda>a. appMap (NewHandler :: byte Handler) (App_ID toy_App a) = None) [3, 4]"
    by (simp_all add: toy_App_def NewHandler_def)
  with Register_correct [OF handler_inv_New, of toy_App "[3, 4]"]
    Register_correct [OF handler_inv_New, of toy_App "[3, 4, 3]"]
  show ?thesis by blast
qed

text \<open>
  A response can be taken apart again: the last two bytes are the status code, what is before
  them is the payload.
\<close>

lemma PackageResponse_roundtrip:
  "length (PackageResponse d code) = length d + 2 \<and>
   take (length d) (PackageResponse d code) = d \<and>
   be_uint16 (PackageResponse d code ! length d) (PackageResponse d code ! (length d + 1)) = code"
  by (simp add: PackageResponse_def be_put16_def nth_append codec_simps)

text \<open>
  A packet the APDU parser refuses is not refused by the handler: it is handled exactly like a
  packet of class 0 and instruction 0, because the parser's error is dropped.
\<close>

lemma malformed_is_zero_packet:
  assumes "unm (elems g) = Inl e"
  shows "Handle unm A h g w = Handle (\<lambda>_. Inr \<lparr>CLA = 0, INS = 0\<rparr>) A h g w"
  using assms by (simp add: Handle_def UnmarshalCAPDU_def)

lemma malformed_is_zero_packet_witness:
  "Handle (\<lambda>_. Inl io_EOF) toy_App (snd (Register toy_App NewHandler [0])) (slice_of []) () =
   Handle (\<lambda>_. Inr \<lparr>CLA = 0, INS = 0\<rparr>) toy_App (snd (Register toy_App NewHandler [0])) (slice_of []) ()"
  by (rule malformed_is_zero_packet) (rule refl)

text \<open>
  Naming a status code never panics, the table of names is cut at the right places, and the
  named codes are told apart by their names.
\<close>

lemma APDUCode_String_names:
  "(\<exists>s. APDUCode_String i = Ret s) \<and>
   map APDUCode_String [APDUExecutionError, APDUEmptyBuffer, APDUOutputBufferTooSmall,
       APDUCommandNotAllowed, APDUINSNotSupported, APDUCLANotSupported, APDUUnknown, APDUSuccess,
       APDUWrongLength, APDUDataInvalid] =
   map Ret [''APDUExecutionError'', ''APDUEmptyBuffer'', ''APDUOutputBufferTooSmall'',
       ''APDUCommandNotAllowed'', ''APDUINSNotSupported'', ''APDUCLANotSupported'', ''APDUUnknown'',
       ''APDUSuccess'', ''APDUWrongLength'', ''APDUDataInvalid'']"
proof
  show "\<exists>s. APDUCode_String i = Ret s"
  proof (cases "27010 \<le> i \<and> i \<le> 27012")
    case True
    then have "i \<in> {27010, 27011, 27012}"
      by (simp add: word_le_nat_alt word_unat_eq_iff) linarith
    then show ?thesis
      by (auto simp: APDUCode_String_def slice_list_def)
  next
    case False
    then show ?thesis
      unfolding APDUCode_String_def if_not_P [OF False] by simp
  qed
qed code_simp

end
