(* ===== verification/Json_Scanner.thy ===== *)
theory Json_Scanner
  imports Go_Runtime
begin

text \<open>
  The scanner of the standard library's \<open>encoding/json\<close> (\<open>scanner.go\<close>): one step per byte, with a stack
  of the open objects and arrays.  A step returns the code that tells the decoder what the byte means
  and the next state; \<^const>\<open>None\<close> is the error state, from which the scanner never recovers.
  \<open>checkValid\<close> runs it over a whole text; \<open>json.Unmarshal\<close> into a \<open>json.RawMessage\<close> succeeds exactly
  when this check does.
\<close>

datatype scan_op =
    ScanContinue | ScanBeginLiteral | ScanBeginObject | ScanObjectKey | ScanObjectValue | ScanEndObject
  | ScanBeginArray | ScanArrayValue | ScanEndArray | ScanSkipSpace | ScanEnd

type_synonym 's scan_result = "(scan_op \<times> 's) option"

datatype parse_state = ParseObjectKey | ParseObjectValue | ParseArrayValue

datatype scan_state =
    StateBeginValueOrEmpty | StateBeginValue | StateBeginStringOrEmpty | StateBeginString | StateEndValue | StateEndTop
  | StateInString | StateInStringEsc | StateInStringEscU nat
  | StateNeg | StateInt1 | StateInt0 | StateDot | StateDot0 | StateE | StateESign | StateE0
  | StateKeyword bytes

record scanner =
  sc_step :: scan_state
  sc_parseState :: "parse_state list"
  sc_endTop :: bool

definition maxNestingDepth :: nat where
  "maxNestingDepth = 10000"

definition is_space :: "byte \<Rightarrow> bool" where
  "is_space c \<longleftrightarrow> c = 0x20 \<or> c = 0x09 \<or> c = 0x0d \<or> c = 0x0a"

definition is_digit :: "byte \<Rightarrow> bool" where
  "is_digit c \<longleftrightarrow> 0x30 \<le> c \<and> c \<le> 0x39"

definition is_digit19 :: "byte \<Rightarrow> bool" where
  "is_digit19 c \<longleftrightarrow> 0x31 \<le> c \<and> c \<le> 0x39"

definition is_hex :: "byte \<Rightarrow> bool" where
  "is_hex c \<longleftrightarrow> is_digit c \<or> (0x61 \<le> c \<and> c \<le> 0x66) \<or> (0x41 \<le> c \<and> c \<le> 0x46)"

definition is_exp :: "byte \<Rightarrow> bool" where
  "is_exp c \<longleftrightarrow> c = 0x65 \<or> c = 0x45"

definition push_parse :: "scanner \<Rightarrow> parse_state \<Rightarrow> scan_state \<Rightarrow> scan_op \<Rightarrow> scanner scan_result" where
  "push_parse s p st opc =
     (if Suc (length (sc_parseState s)) \<le> maxNestingDepth
      then Some (opc, s\<lparr>sc_step := st, sc_parseState := p # sc_parseState s\<rparr>) else None)"

definition pop_parse :: "scanner \<Rightarrow> scanner" where
  "pop_parse s =
     (let ps = tl (sc_parseState s)
      in if ps = [] then s\<lparr>sc_step := StateEndTop, sc_parseState := [], sc_endTop := True\<rparr>
         else s\<lparr>sc_step := StateEndValue, sc_parseState := ps\<rparr>)"

text \<open>The step to another state.\<close>

definition go_to :: "scanner \<Rightarrow> scan_op \<Rightarrow> scan_state \<Rightarrow> scanner scan_result" where
  "go_to s opc st = Some (opc, s\<lparr>sc_step := st\<rparr>)"

definition state_end_value :: "scanner \<Rightarrow> byte \<Rightarrow> scanner scan_result" where
  "state_end_value s c =
     (case sc_parseState s of
        [] \<Rightarrow> (if is_space c then Some (ScanEnd, s\<lparr>sc_step := StateEndTop, sc_endTop := True\<rparr>) else None)
      | p # ps \<Rightarrow>
          if is_space c then go_to s ScanSkipSpace StateEndValue
          else case p of
            ParseObjectKey \<Rightarrow>
              (if c = 0x3a
               then Some (ScanObjectKey, s\<lparr>sc_step := StateBeginValue, sc_parseState := ParseObjectValue # ps\<rparr>)
               else None)
          | ParseObjectValue \<Rightarrow>
              (if c = 0x2c
               then Some (ScanObjectValue, s\<lparr>sc_step := StateBeginString, sc_parseState := ParseObjectKey # ps\<rparr>)
               else if c = 0x7d then Some (ScanEndObject, pop_parse s) else None)
          | ParseArrayValue \<Rightarrow>
              (if c = 0x2c then go_to s ScanArrayValue StateBeginValue
               else if c = 0x5d then Some (ScanEndArray, pop_parse s) else None))"

definition state_begin_value :: "scanner \<Rightarrow> byte \<Rightarrow> scanner scan_result" where
  "state_begin_value s c =
     (if is_space c then Some (ScanSkipSpace, s)
      else if c = 0x7b then push_parse s ParseObjectKey StateBeginStringOrEmpty ScanBeginObject
      else if c = 0x5b then push_parse s ParseArrayValue StateBeginValueOrEmpty ScanBeginArray
      else if c = 0x22 then go_to s ScanBeginLiteral StateInString
      else if c = 0x2d then go_to s ScanBeginLiteral StateNeg
      else if c = 0x30 then go_to s ScanBeginLiteral StateInt0
      else if c = 0x74 then go_to s ScanBeginLiteral (StateKeyword [0x72, 0x75, 0x65])
      else if c = 0x66 then go_to s ScanBeginLiteral (StateKeyword [0x61, 0x6c, 0x73, 0x65])
      else if c = 0x6e then go_to s ScanBeginLiteral (StateKeyword [0x75, 0x6c, 0x6c])
      else if is_digit19 c then go_to s ScanBeginLiteral StateInt1
      else None)"

definition state_begin_string :: "scanner \<Rightarrow> byte \<Rightarrow> scanner scan_result" where
  "state_begin_string s c =
     (if is_space c then Some (ScanSkipSpace, s)
      else if c = 0x22 then go_to s ScanBeginLiteral StateInString else None)"

definition state_int0 :: "scanner \<Rightarrow> byte \<Rightarrow> scanner scan_result" where
  "state_int0 s c =
     (if c = 0x2e then go_to s ScanContinue StateDot
      else if is_exp c then go_to s ScanContinue StateE
      else state_end_value s c)"

definition state_esign :: "scanner \<Rightarrow> byte \<Rightarrow> scanner scan_result" where
  "state_esign s c = (if is_digit c then go_to s ScanContinue StateE0 else None)"

definition scan_step :: "scanner \<Rightarrow> byte \<Rightarrow> scanner scan_result" where
  "scan_step s c =
     (case sc_step s of
        StateBeginValueOrEmpty \<Rightarrow>
          if is_space c then Some (ScanSkipSpace, s)
          else if c = 0x5d then state_end_value s c else state_begin_value s c
      | StateBeginValue \<Rightarrow> state_begin_value s c
      | StateBeginStringOrEmpty \<Rightarrow>
          if is_space c then Some (ScanSkipSpace, s)
          else if c = 0x7d
               then state_end_value (s\<lparr>sc_parseState := ParseObjectValue # tl (sc_parseState s)\<rparr>) c
          else state_begin_string s c
      | StateBeginString \<Rightarrow> state_begin_string s c
      | StateEndValue \<Rightarrow> state_end_value s c
      | StateEndTop \<Rightarrow> if is_space c then Some (ScanEnd, s) else None
      | StateInString \<Rightarrow>
          if c = 0x22 then go_to s ScanContinue StateEndValue
          else if c = 0x5c then go_to s ScanContinue StateInStringEsc
          else if c < 0x20 then None else Some (ScanContinue, s)
      | StateInStringEsc \<Rightarrow>
          if c \<in> {0x62, 0x66, 0x6e, 0x72, 0x74, 0x5c, 0x2f, 0x22} then go_to s ScanContinue StateInString
          else if c = 0x75 then go_to s ScanContinue (StateInStringEscU 3) else None
      | StateInStringEscU n \<Rightarrow>
          if is_hex c then go_to s ScanContinue (if n = 0 then StateInString else StateInStringEscU (n - 1)) else None
      | StateNeg \<Rightarrow>
          if c = 0x30 then go_to s ScanContinue StateInt0
          else if is_digit19 c then go_to s ScanContinue StateInt1 else None
      | StateInt1 \<Rightarrow> if is_digit c then Some (ScanContinue, s) else state_int0 s c
      | StateInt0 \<Rightarrow> state_int0 s c
      | StateDot \<Rightarrow> if is_digit c then go_to s ScanContinue StateDot0 else None
      | StateDot0 \<Rightarrow>
          if is_digit c then Some (ScanContinue, s)
          else if is_exp c then go_to s ScanContinue StateE else state_end_value s c
      | StateE \<Rightarrow> if c = 0x2b \<or> c = 0x2d then go_to s ScanContinue StateESign else state_esign s c
      | StateESign \<Rightarrow> state_esign s c
      | StateE0 \<Rightarrow> if is_digit c then Some (ScanContinue, s) else state_end_value s c
      | StateKeyword ks \<Rightarrow>
          (case ks of
             [] \<Rightarrow> None
           | k # ks' \<Rightarrow>
               if c = k then go_to s ScanContinue (if ks' = [] then StateEndValue else StateKeyword ks') else None))"

fun scan_all :: "scanner \<Rightarrow> bytes \<Rightarrow> scanner option" where
  "scan_all s [] = Some s"
| "scan_all s (c # cs) = (case scan_step s c of None \<Rightarrow> None | Some (_, s') \<Rightarrow> scan_all s' cs)"

definition scan_eof :: "scanner \<Rightarrow> bool" where
  "scan_eof s = (sc_endTop s \<or> (case scan_step s 0x20 of None \<Rightarrow> False | Some (_, s') \<Rightarrow> sc_endTop s'))"

definition scan_start :: scanner where
  "scan_start = \<lparr>sc_step = StateBeginValue, sc_parseState = [], sc_endTop = False\<rparr>"

definition json_valid :: "bytes \<Rightarrow> bool" where
  "json_valid bs = (case scan_all scan_start bs of None \<Rightarrow> False | Some s \<Rightarrow> scan_eof s)"

lemma scan_all_append:
  "scan_all s (xs @ ys) = (case scan_all s xs of None \<Rightarrow> None | Some s' \<Rightarrow> scan_all s' ys)"
  by (induction xs arbitrary: s) (auto split: option.split)

lemma json_valid_empty_object: "json_valid [0x7b, 0x7d]"
  by code_simp

lemma json_invalid_examples: "\<not> json_valid []" "\<not> json_valid [0x7b]" "\<not> json_valid [0x31, 0x31, 0x78]"
  by code_simp+

text \<open>Leading blanks do not matter; the scanner skips them before the value starts.\<close>

lemma scan_all_spaces: "list_all is_space ws \<Longrightarrow> scan_all scan_start ws = Some scan_start"
  by (induction ws) (simp_all add: scan_step_def scan_start_def state_begin_value_def)

lemma json_valid_leading_spaces: "list_all is_space ws \<Longrightarrow> json_valid (ws @ bs) = json_valid bs"
  by (simp add: json_valid_def scan_all_append scan_all_spaces)

end
