(* ===== verification/Cosmos.thy ===== *)
theory Cosmos
  imports Apps Json_Scanner
begin

text \<open>
  The Cosmos application of \<open>src/apps/cosmos/\<close>: version, address and signature commands.  The token
  is any implementation of the \<open>Token\<close> interface; the third-party packages \<open>ripemd160\<close> and \<open>bech32\<close>
  are arguments.  The logger only prints and is left out.
\<close>

section \<open>Commands and descriptors\<close>

definition appName :: string where "appName = ''COSMOS''"
definition appID :: byte where "appID = 85"
definition minDataLen :: nat where "minDataLen = 5"

definition claGetVersion :: byte where "claGetVersion = 0x00"
definition claSignSecp256K1 :: byte where "claSignSecp256K1 = 0x02"
definition claGetAddrSecp256K1 :: byte where "claGetAddrSecp256K1 = 0x04"

definition signInit :: byte where "signInit = 0"
definition signAdd :: byte where "signAdd = 1"
definition signLast :: byte where "signLast = 2"

lemmas sign_descrs = signInit_def signAdd_def signLast_def

lemmas cosmos_consts = appID_def minDataLen_def claGetVersion_def claSignSecp256K1_def
  claGetAddrSecp256K1_def signInit_def signAdd_def signLast_def

definition command_String :: "byte \<Rightarrow> string" where
  "command_String i =
     (if i = 0 then ''claGetVersion''
      else if i = 2 then ''claSignSecp256K1''
      else if i = 4 then ''claGetAddrSecp256K1''
      else ''command('' @ format_int (int (unat i)) @ '')'')"

definition signPayloadDescr_String :: "byte \<Rightarrow> string go" where
  "signPayloadDescr_String i =
     (let index = [0, 8, 15, 23 :: nat]; name = ''signInitsignAddsignLast''
      in if i \<ge> of_nat (length index - 1)
         then Ret (''signPayloadDescr('' @ format_int (int (unat i)) @ '')'')
         else slice_list name (index ! unat i) (index ! (unat i + 1)))"

section \<open>State\<close>

record signatureSession =
  derivationPath :: DerivationPath
  sig_data :: buffer

record 't Cosmos =
  Cosmos_Token :: 't
  currentSignatureSession :: "signatureSession option"

text \<open>The hash and the bech32 functions the address is built with; the conversion is from 8 to 5 bits, padded.\<close>

record cosmos_lib =
  lib_ripemd160 :: "bytes \<Rightarrow> bytes"
  bech32_ConvertBits :: "bytes \<Rightarrow> go_error + bytes"
  bech32_Encode :: "bytes \<Rightarrow> bytes \<Rightarrow> go_error + bytes"

definition Cosmos_Name :: "'t Cosmos \<Rightarrow> string" where
  "Cosmos_Name c = appName"

definition Cosmos_ID :: "'t Cosmos \<Rightarrow> byte" where
  "Cosmos_ID c = appID"

definition Cosmos_Commands :: "'t Cosmos \<Rightarrow> byte list" where
  "Cosmos_Commands c = [claGetVersion, claSignSecp256K1, claGetAddrSecp256K1]"

section \<open>Version\<close>

record version =
  Major :: byte
  Minor :: byte
  Patch :: byte

record getVersionResponse =
  TestMode :: byte
  Version :: version
  DeviceLocked :: byte

definition getVersionResponse_Marshal :: "getVersionResponse \<Rightarrow> bytes" where
  "getVersionResponse_Marshal g =
     [TestMode g, Major (Version g), Minor (Version g), Patch (Version g), DeviceLocked g]"

definition handleGetVersion :: "bytes \<times> APDUCode \<times> go_error option" where
  "handleGetVersion =
     (getVersionResponse_Marshal
        \<lparr>TestMode = 0, Version = \<lparr>Major = 2, Minor = 0, Patch = 0\<rparr>, DeviceLocked = 0\<rparr>,
      APDUSuccess, None)"

section \<open>Signatures\<close>

definition zero_path :: DerivationPath where
  "zero_path = \<lparr>Purpose = 0, CoinType = 0, Account = 0, Change = 0, AddressIndex = 0\<rparr>"

text \<open>Five consecutive four-byte fields; every slice expression may reach up to the capacity.\<close>

definition path_from_slice :: "gslice \<Rightarrow> DerivationPath go" where
  "path_from_slice d =
     go_bind (reslice d 0 4) (\<lambda>a.
     go_bind (reslice d 4 8) (\<lambda>b.
     go_bind (reslice d 8 12) (\<lambda>c.
     go_bind (reslice d 12 16) (\<lambda>ch.
     go_bind (reslice d 16 20) (\<lambda>ai.
       NewDerivationPathFromBytes (elems a) (elems b) (elems c) (elems ch) (elems ai))))))"

text \<open>The part of the handler behind \<open>payloadDescription == signLast\<close>, with the deferred reset.\<close>

definition sign_last ::
  "('t, 'w) Token \<Rightarrow> 't Cosmos \<Rightarrow> signatureSession \<Rightarrow> 'w \<Rightarrow>
   ((bytes \<times> APDUCode \<times> go_error option) \<times> 't Cosmos \<times> 'w) go" where
  "sign_last T c ss w =
     (let c' = c\<lparr>currentSignatureSession := None\<rparr>
      in go_bind (Initialize T (Clone T (Cosmos_Token c)) (derivationPath ss) w)
           (\<lambda>(err, sessionToken, w1).
              case err of
                Some e \<Rightarrow> Ret (([], APDUExecutionError, Some e), c', w1)
              | None \<Rightarrow>
                  let sigBytes = elems (sig_data ss)
                  in if \<not> json_valid sigBytes
                     then Ret (([], APDUDataInvalid,
                                Some (Errorf ''provided signature data isn't JSON'' [])), c', w1)
                     else go_bind (Sign T sessionToken (Sum256 sigBytes) AlgoSecp256K1 w1)
                            (\<lambda>(resp, w2).
                               case resp of
                                 Inl e \<Rightarrow> Ret (([], APDUExecutionError, Some e), c', w2)
                               | Inr r \<Rightarrow> Ret ((r, APDUSuccess, None), c', w2))))"

text \<open>
  The signature command.  The first error names the descriptor with \<open>signPayloadDescr.String\<close> (above); here
  the error value keeps its number.
\<close>

definition handleSignSecp256K1 ::
  "('t, 'w) Token \<Rightarrow> gslice \<Rightarrow> 't Cosmos \<Rightarrow> 'w \<Rightarrow>
   ((bytes \<times> APDUCode \<times> go_error option) \<times> 't Cosmos \<times> 'w) go" where
  "handleSignSecp256K1 T bs c w =
     go_bind (index_at bs 2) (\<lambda>payloadDescription.
       if currentSignatureSession c = None \<and> payloadDescription \<noteq> signInit
       then Ret (([], APDUExecutionError,
                  Some (Errorf ''wrong signature description with no session initialized, %v''
                    [unat payloadDescription])), c, w)
       else
         let ss = (if payloadDescription = signInit
                   then \<lparr>derivationPath = zero_path, sig_data = empty_buffer\<rparr>
                   else the (currentSignatureSession c))
         in go_bind (slice_from bs 5) (\<lambda>d.
            go_bind (if payloadDescription = signInit
                     then go_bind (path_from_slice d) (\<lambda>p. Ret (ss\<lparr>derivationPath := p\<rparr>))
                     else if payloadDescription = signAdd \<or> payloadDescription = signLast
                     then Ret (ss\<lparr>sig_data := buffer_Write (sig_data ss) (elems d)\<rparr>)
                     else Ret ss) (\<lambda>ss'.
              let c' = c\<lparr>currentSignatureSession := Some ss'\<rparr>
              in if payloadDescription \<noteq> signLast
                 then Ret (([], APDUSuccess, None), c', w)
                 else sign_last T c' ss' w)))"

section \<open>Addresses\<close>

definition buildGetAddressResponse :: "bytes \<Rightarrow> bytes \<Rightarrow> bytes" where
  "buildGetAddressResponse pubkey address = pubkey @ address"

record getAddressRequest =
  P1 :: byte
  P2 :: byte
  PayloadLength :: byte
  HRPLength :: byte

text \<open>\<open>binary.Read\<close> into the struct: two blank bytes, then the four fields.\<close>

definition getAddressRequest_decode :: "bytes \<Rightarrow> getAddressRequest" where
  "getAddressRequest_decode bs =
     \<lparr>P1 = bs ! 2, P2 = bs ! 3, PayloadLength = bs ! 4, HRPLength = bs ! 5\<rparr>"

definition getAddressRequest_validate :: "getAddressRequest \<Rightarrow> go_error option" where
  "getAddressRequest_validate g =
     (if P1 g > 1 then Some (Errorf ''first parameter cannot be greater than 1'' [])
      else if unat (PayloadLength g) > 255
        then Some (Errorf ''total APDU payload length cannot exceed 255 bytes'' [])
      else if PayloadLength g = 0 then Some (Errorf ''no payload specified but should be present'' [])
      else if HRPLength g < 1 \<or> HRPLength g > 83
        then Some (Errorf ''hrp length cannot be less than 1 or exceed 83, found %v'' [unat (HRPLength g)])
      else None)"

definition hrpFromGetAddressRequest :: "getAddressRequest \<Rightarrow> gslice \<Rightarrow> bytes go" where
  "hrpFromGetAddressRequest r bs =
     go_bind (reslice bs 6 (unat (6 + HRPLength r))) (\<lambda>s. Ret (elems s))"

definition derivationPathFromGetAddressRequest ::
  "getAddressRequest \<Rightarrow> gslice \<Rightarrow> DerivationPath go" where
  "derivationPathFromGetAddressRequest r bs =
     (let offset = 6 + HRPLength r
      in go_bind (reslice bs (unat offset) (unat (offset + 20))) path_from_slice)"

definition displayAddrOnDevice :: "getAddressRequest \<Rightarrow> bool" where
  "displayAddrOnDevice r \<longleftrightarrow> P1 r = 0x01"

definition addressFromPubkey :: "cosmos_lib \<Rightarrow> bytes \<Rightarrow> bytes \<Rightarrow> go_error + bytes" where
  "addressFromPubkey L pubkey hrp =
     (case bech32_ConvertBits L (lib_ripemd160 L (Sum256 pubkey)) of
        Inl err \<Rightarrow> Inl err
      | Inr converted \<Rightarrow>
          (case bech32_Encode L hrp converted of
             Inl err \<Rightarrow> Inl err
           | Inr addr \<Rightarrow> Inr addr))"

definition handleGetAddrSecp256K1 ::
  "cosmos_lib \<Rightarrow> ('t, 'w) Token \<Rightarrow> gslice \<Rightarrow> 't Cosmos \<Rightarrow> 'w \<Rightarrow>
   ((bytes \<times> APDUCode \<times> go_error option) \<times> 't Cosmos \<times> 'w) go" where
  "handleGetAddrSecp256K1 L T bs c w =
     (case binary_Read 6 getAddressRequest_decode (elems bs) of
        Inl err \<Rightarrow> Ret (([], APDUExecutionError, Some err), c, w)
      | Inr req \<Rightarrow>
          (case getAddressRequest_validate req of
             Some err \<Rightarrow> Ret (([], APDUExecutionError, Some err), c, w)
           | None \<Rightarrow>
               go_bind (hrpFromGetAddressRequest req bs) (\<lambda>hrp.
               go_bind (derivationPathFromGetAddressRequest req bs) (\<lambda>dp.
               go_bind (Initialize T (Clone T (Cosmos_Token c)) dp w) (\<lambda>(err, sessionToken, w1).
                 case err of
                   Some e \<Rightarrow> Ret (([], APDUExecutionError, Some e), c, w1)
                 | None \<Rightarrow>
                     go_bind (PublicKey T sessionToken w1) (\<lambda>(pk, w2).
                       case pk of
                         Inl e \<Rightarrow> Ret (([], APDUExecutionError, Some e), c, w2)
                       | Inr pubkey \<Rightarrow>
                           (case addressFromPubkey L pubkey hrp of
                              Inl e \<Rightarrow> Ret (([], APDUExecutionError, Some e), c, w2)
                            | Inr address \<Rightarrow>
                                Ret ((buildGetAddressResponse pubkey address, APDUSuccess, None), c, w2))))))))"

section \<open>Dispatch\<close>

definition Cosmos_Handle ::
  "cosmos_lib \<Rightarrow> ('t, 'w) Token \<Rightarrow> byte \<Rightarrow> gslice \<Rightarrow> 't Cosmos \<Rightarrow> 'w \<Rightarrow>
   ((bytes \<times> APDUCode \<times> go_error option) \<times> 't Cosmos \<times> 'w) go" where
  "Cosmos_Handle L T cmd bs c w =
     (if len bs < minDataLen
      then Ret (([], APDUWrongLength, Some (Errorf ''data is too small to be processed'' [])), c, w)
      else if cmd = claGetVersion then Ret (handleGetVersion, c, w)
      else if cmd = claSignSecp256K1 then handleSignSecp256K1 T bs c w
      else if cmd = claGetAddrSecp256K1 then handleGetAddrSecp256K1 L T bs c w
      else Ret (([], APDUINSNotSupported, Some (Errorf ''command not found'' [])), c, w))"

definition cosmos_App :: "cosmos_lib \<Rightarrow> ('t, 'w) Token \<Rightarrow> ('t Cosmos, 'w) App" where
  "cosmos_App L T = \<lparr>
     App_Name = Cosmos_Name,
     App_ID = Cosmos_ID,
     App_Commands = Cosmos_Commands,
     App_Handle = Cosmos_Handle L T\<rparr>"

interpretation cosmos: apdu_app "cosmos_App L T" for L :: cosmos_lib and T :: "('t, 'w) Token"
  by unfold_locales (simp_all add: cosmos_App_def Cosmos_ID_def Cosmos_Commands_def)

section \<open>The path on the wire\<close>

definition wire_path :: "bytes \<Rightarrow> DerivationPath" where
  "wire_path b = \<lparr>
     Purpose = 0x80000000 XOR le_uint32 (b ! 0) (b ! 1) (b ! 2) (b ! 3),
     CoinType = 0x80000000 XOR le_uint32 (b ! 4) (b ! 5) (b ! 6) (b ! 7),
     Account = 0x80000000 XOR le_uint32 (b ! 8) (b ! 9) (b ! 10) (b ! 11),
     Change = le_uint32 (b ! 12) (b ! 13) (b ! 14) (b ! 15),
     AddressIndex = le_uint32 (b ! 16) (b ! 17) (b ! 18) (b ! 19)\<rparr>"

lemma le_Uint32_take:
  "k + 4 \<le> length xs \<Longrightarrow>
   le_Uint32 (take 4 (drop k xs)) = Ret (le_uint32 (xs ! k) (xs ! (k + 1)) (xs ! (k + 2)) (xs ! (k + 3)))"
  by (simp add: le_Uint32_def)

lemma reslice_field:
  "k + 4 \<le> cap d \<Longrightarrow> \<exists>s. reslice d k (k + 4) = Ret s \<and> elems s = take 4 (drop k (backing d))"
  by (simp add: reslice_def)

text \<open>The path is read from the backing array; only a capacity below 20 bytes stops it.\<close>

lemma path_from_slice_eq:
  "path_from_slice d =
     (if 20 \<le> cap d then Ret (wire_path (backing d)) else Panic SliceBoundsOutOfRange)"
proof (cases "20 \<le> cap d")
  case True
  then have "20 \<le> length (backing d)" by (simp add: cap_def)
  with True show ?thesis
    using le_Uint32_take [of 0 "backing d"] le_Uint32_take [of 4 "backing d"]
      le_Uint32_take [of 8 "backing d"] le_Uint32_take [of 12 "backing d"]
      le_Uint32_take [of 16 "backing d"]
    by (simp add: path_from_slice_def reslice_def NewDerivationPathFromBytes_def wire_path_def
        numeral_2_eq_2)
next
  case False
  then show ?thesis
    by (simp add: path_from_slice_def reslice_def)
qed

lemma wire_path_take: "20 \<le> n \<Longrightarrow> wire_path (take n b) = wire_path b"
  by (simp add: wire_path_def)

section \<open>The signature protocol\<close>

text \<open>
  The abstract protocol: nothing is going on, or a path is known and a message is being collected.
\<close>

datatype sig_phase = Idle | Collecting DerivationPath bytes

datatype sig_cmd = SInit DerivationPath | SAdd bytes | SLast bytes | SOther

fun sig_step :: "sig_phase \<Rightarrow> sig_cmd \<Rightarrow> sig_phase" where
  "sig_step ph (SInit p) = Collecting p []"
| "sig_step (Collecting p m) (SAdd d) = Collecting p (m @ d)"
| "sig_step (Collecting p m) (SLast d) = Idle"
| "sig_step (Collecting p m) SOther = Collecting p m"
| "sig_step Idle _ = Idle"

text \<open>The answer to the last chunk: the message is signed under the session's path.\<close>

definition sign_result ::
  "('t, 'w) Token \<Rightarrow> 't \<Rightarrow> DerivationPath \<Rightarrow> bytes \<Rightarrow> 'w \<Rightarrow> ((bytes \<times> APDUCode \<times> go_error option) \<times> 'w) go" where
  "sign_result T t p m w =
     go_bind (Initialize T (Clone T t) p w) (\<lambda>(err, st, w1).
       case err of
         Some e \<Rightarrow> Ret (([], APDUExecutionError, Some e), w1)
       | None \<Rightarrow>
           if \<not> json_valid m
           then Ret (([], APDUDataInvalid, Some (Errorf ''provided signature data isn't JSON'' [])), w1)
           else go_bind (Sign T st (Sum256 m) AlgoSecp256K1 w1) (\<lambda>(resp, w2).
                  case resp of
                    Inl e \<Rightarrow> Ret (([], APDUExecutionError, Some e), w2)
                  | Inr r \<Rightarrow> Ret ((r, APDUSuccess, None), w2)))"

fun sig_reply ::
  "('t, 'w) Token \<Rightarrow> 't \<Rightarrow> byte \<Rightarrow> sig_phase \<Rightarrow> sig_cmd \<Rightarrow> 'w \<Rightarrow>
   ((bytes \<times> APDUCode \<times> go_error option) \<times> 'w) go" where
  "sig_reply T t descr (Collecting p m) (SLast d) w = sign_result T t p (m @ d) w"
| "sig_reply T t descr ph (SInit p) w = Ret (([], APDUSuccess, None), w)"
| "sig_reply T t descr (Collecting p m) cmd w = Ret (([], APDUSuccess, None), w)"
| "sig_reply T t descr Idle cmd w =
     Ret (([], APDUExecutionError,
           Some (Errorf ''wrong signature description with no session initialized, %v'' [unat descr])), w)"

text \<open>How a request is read as an abstract command, and the abstraction of the application state.\<close>

definition sig_cmd_of :: "gslice \<Rightarrow> sig_cmd" where
  "sig_cmd_of bs =
     (let descr = elems bs ! 2; payload = drop 5 (elems bs)
      in if descr = signInit then SInit (wire_path (drop 5 (backing bs)))
         else if descr = signAdd then SAdd payload
         else if descr = signLast then SLast payload
         else SOther)"

definition sig_phase_of :: "'t Cosmos \<Rightarrow> sig_phase" where
  "sig_phase_of c =
     (case currentSignatureSession c of
        None \<Rightarrow> Idle
      | Some ss \<Rightarrow> Collecting (derivationPath ss) (elems (sig_data ss)))"

lemma sign_last_result:
  "sign_last T c ss w =
     go_bind (sign_result T (Cosmos_Token c) (derivationPath ss) (elems (sig_data ss)) w)
       (\<lambda>(r, w'). Ret (r, c\<lparr>currentSignatureSession := None\<rparr>, w'))"
  unfolding sign_last_def sign_result_def Let_def go_bind_assoc
  by (rule go_bind_cong [OF refl])
     (auto simp: go_bind_assoc split: option.split sum.split intro!: go_bind_cong [OF refl])

lemma slice_from_backing:
  assumes "lo \<le> len bs"
  shows "\<exists>d. slice_from bs lo = Ret d \<and> elems d = drop lo (elems bs) \<and> backing d = drop lo (backing bs)"
  using slice_from_Ret [OF assms] assms by (auto simp: backing_def len_def)

text \<open>Functional refinement: the handler is the abstract protocol, panics included.\<close>

lemma handleSign_refines:
  assumes "5 \<le> len bs" and "elems bs ! 2 \<noteq> signInit \<or> 25 \<le> cap bs"
  shows "map_go (\<lambda>(r, c', w'). (r, sig_phase_of c', Cosmos_Token c', w')) (handleSignSecp256K1 T bs c w) =
         go_bind (sig_reply T (Cosmos_Token c) (elems bs ! 2) (sig_phase_of c) (sig_cmd_of bs) w)
           (\<lambda>(r, w'). Ret (r, sig_step (sig_phase_of c) (sig_cmd_of bs), Cosmos_Token c, w'))"
proof -
  obtain d where d: "slice_from bs 5 = Ret d" "elems d = drop 5 (elems bs)" "backing d = drop 5 (backing bs)"
    using slice_from_backing [OF assms(1)] by blast
  have idx: "index_at bs 2 = Ret (elems bs ! 2)"
    using assms(1) by (simp add: index_at_def)
  consider (init) "elems bs ! 2 = signInit" | (add) "elems bs ! 2 = signAdd"
    | (last) "elems bs ! 2 = signLast"
    | (other) "elems bs ! 2 \<noteq> signInit" "elems bs ! 2 \<noteq> signAdd" "elems bs ! 2 \<noteq> signLast"
    by blast
  then show ?thesis
  proof cases
    case init
    with assms(2) have "20 \<le> cap d" by (simp add: cap_def d)
    with init idx d show ?thesis
      by (simp add: handleSignSecp256K1_def path_from_slice_eq sig_phase_of_def sig_cmd_of_def cosmos_consts)
  next
    case add
    with idx d show ?thesis
      by (cases "currentSignatureSession c")
         (simp_all add: handleSignSecp256K1_def sig_phase_of_def sig_cmd_of_def cosmos_consts)
  next
    case last
    with idx d show ?thesis
      by (cases "currentSignatureSession c")
         (simp_all add: handleSignSecp256K1_def sig_phase_of_def sig_cmd_of_def cosmos_consts
           sign_last_result map_go_bind case_prod_unfold)
  next
    case other
    with idx d show ?thesis
      by (cases "currentSignatureSession c")
         (simp_all add: handleSignSecp256K1_def sig_phase_of_def sig_cmd_of_def cosmos_consts)
  qed
qed

lemma handleSign_short_init:
  assumes "5 \<le> len bs" and "elems bs ! 2 = signInit" and "cap bs < 25"
  shows "handleSignSecp256K1 T bs c w = Panic SliceBoundsOutOfRange"
proof -
  obtain d where d: "slice_from bs 5 = Ret d" "backing d = drop 5 (backing bs)"
    using slice_from_backing [OF assms(1)] by blast
  with assms have "cap d < 20" by (simp add: cap_def)
  with assms d show ?thesis
    by (simp add: handleSignSecp256K1_def index_at_def path_from_slice_eq)
qed

section \<open>Address requests\<close>

definition address_result ::
  "cosmos_lib \<Rightarrow> ('t, 'w) Token \<Rightarrow> 't \<Rightarrow> bytes \<Rightarrow> DerivationPath \<Rightarrow> 'w \<Rightarrow>
   ((bytes \<times> APDUCode \<times> go_error option) \<times> 'w) go" where
  "address_result L T t hrp p w =
     go_bind (Initialize T (Clone T t) p w) (\<lambda>(err, st, w1).
       case err of
         Some e \<Rightarrow> Ret (([], APDUExecutionError, Some e), w1)
       | None \<Rightarrow>
           go_bind (PublicKey T st w1) (\<lambda>(pk, w2).
             case pk of
               Inl e \<Rightarrow> Ret (([], APDUExecutionError, Some e), w2)
             | Inr pubkey \<Rightarrow>
                 (case addressFromPubkey L pubkey hrp of
                    Inl e \<Rightarrow> Ret (([], APDUExecutionError, Some e), w2)
                  | Inr address \<Rightarrow> Ret ((pubkey @ address, APDUSuccess, None), w2))))"

lemma hrp_bounds:
  assumes "getAddressRequest_validate r = None"
  shows "unat (6 + HRPLength r) = 6 + unat (HRPLength r)"
    and "unat (26 + HRPLength r) = 26 + unat (HRPLength r)"
    and "1 \<le> unat (HRPLength r)" and "unat (HRPLength r) \<le> 83"
proof -
  from assms have lo: "\<not> HRPLength r < 1" and hi: "\<not> 83 < HRPLength r"
    by (auto simp: getAddressRequest_validate_def split: if_splits)
  from hi show le: "unat (HRPLength r) \<le> 83"
    by (simp add: word_less_nat_alt)
  from lo show "1 \<le> unat (HRPLength r)"
    by (simp add: word_less_nat_alt)
  show "unat (6 + HRPLength r) = 6 + unat (HRPLength r)"
    using le by (simp add: unat_word_ariths)
  show "unat (26 + HRPLength r) = 26 + unat (HRPLength r)"
    using le by (simp add: unat_word_ariths)
qed

lemma request_slices:
  assumes "getAddressRequest_validate r = None"
  defines "n \<equiv> unat (HRPLength r)"
  shows "26 + n \<le> cap bs \<Longrightarrow> hrpFromGetAddressRequest r bs = Ret (take n (drop 6 (backing bs)))"
    and "26 + n \<le> cap bs \<Longrightarrow>
           derivationPathFromGetAddressRequest r bs = Ret (wire_path (drop (6 + n) (backing bs)))"
    and "cap bs < 26 + n \<Longrightarrow>
           go_bind (hrpFromGetAddressRequest r bs) (\<lambda>h.
           go_bind (derivationPathFromGetAddressRequest r bs) (f h)) = Panic SliceBoundsOutOfRange"
proof -
  note b = hrp_bounds [OF assms(1), folded n_def]
  show "26 + n \<le> cap bs \<Longrightarrow> hrpFromGetAddressRequest r bs = Ret (take n (drop 6 (backing bs)))"
    by (simp add: hrpFromGetAddressRequest_def b reslice_def)
  show "derivationPathFromGetAddressRequest r bs = Ret (wire_path (drop (6 + n) (backing bs)))"
    if room: "26 + n \<le> cap bs"
  proof -
    obtain d where d: "reslice bs (6 + n) (26 + n) = Ret d"
      using room by (auto simp: reslice_def)
    then have "backing d = drop (6 + n) (backing bs)" "cap d = cap bs - (6 + n)"
      by (rule backing_reslice, rule cap_reslice)
    with d room show ?thesis
      by (simp add: derivationPathFromGetAddressRequest_def b Let_def path_from_slice_eq)
  qed
  show "cap bs < 26 + n \<Longrightarrow>
           go_bind (hrpFromGetAddressRequest r bs) (\<lambda>h.
           go_bind (derivationPathFromGetAddressRequest r bs) (f h)) = Panic SliceBoundsOutOfRange"
    by (simp add: hrpFromGetAddressRequest_def derivationPathFromGetAddressRequest_def b Let_def reslice_def)
qed

lemma handleGetAddr_result:
  "handleGetAddrSecp256K1 L T bs c w =
     (if len bs < 6
      then Ret (([], APDUExecutionError, Some (if elems bs = [] then io_EOF else io_ErrUnexpectedEOF)), c, w)
      else
        let r = getAddressRequest_decode (elems bs); n = unat (HRPLength r)
        in case getAddressRequest_validate r of
             Some err \<Rightarrow> Ret (([], APDUExecutionError, Some err), c, w)
           | None \<Rightarrow>
               if cap bs < 26 + n then Panic SliceBoundsOutOfRange
               else go_bind (address_result L T (Cosmos_Token c) (take n (drop 6 (backing bs)))
                               (wire_path (drop (6 + n) (backing bs))) w)
                      (\<lambda>(a, w'). Ret (a, c, w')))"
proof (cases "len bs < 6")
  case True
  then show ?thesis
    by (simp add: handleGetAddrSecp256K1_def binary_Read_def len_def)
next
  case False
  have dec: "getAddressRequest_decode (take 6 (elems bs)) = getAddressRequest_decode (elems bs)"
    by (simp add: getAddressRequest_decode_def)
  let ?r = "getAddressRequest_decode (elems bs)"
  from False have rd: "binary_Read 6 getAddressRequest_decode (elems bs) = Inr ?r"
    by (auto simp: binary_Read_def len_def dec)
  show ?thesis
  proof (cases "getAddressRequest_validate ?r")
    case (Some err)
    with False rd show ?thesis by (simp add: handleGetAddrSecp256K1_def Let_def)
  next
    case None
    show ?thesis
    proof (cases "cap bs < 26 + unat (HRPLength ?r)")
      case True
      with False rd None request_slices(3) [OF None True] show ?thesis
        by (simp add: handleGetAddrSecp256K1_def Let_def)
    next
      case roomy: False
      then show ?thesis
        using False rd None request_slices(1,2) [OF None, of bs]
        by (simp add: handleGetAddrSecp256K1_def Let_def address_result_def go_bind_assoc
            buildGetAddressResponse_def)
           (auto simp: go_bind_assoc buildGetAddressResponse_def split: option.split sum.split
              intro!: go_bind_cong [OF refl])
    qed
  qed
qed

section \<open>Running a sequence of requests\<close>

fun Cosmos_run ::
  "cosmos_lib \<Rightarrow> ('t, 'w) Token \<Rightarrow> (byte \<times> gslice) list \<Rightarrow> 't Cosmos \<Rightarrow> 'w \<Rightarrow>
   ((bytes \<times> APDUCode \<times> go_error option) list \<times> 't Cosmos \<times> 'w) go" where
  "Cosmos_run L T [] c w = Ret ([], c, w)"
| "Cosmos_run L T ((cmd, bs) # rest) c w =
     go_bind (Cosmos_Handle L T cmd bs c w) (\<lambda>(r, c1, w1).
     go_bind (Cosmos_run L T rest c1 w1) (\<lambda>(rs, c2, w2). Ret (r # rs, c2, w2)))"

definition is_add :: "gslice \<Rightarrow> bool" where
  "is_add bs \<longleftrightarrow> 5 \<le> len bs \<and> elems bs ! 2 = signAdd"

lemma Cosmos_Handle_sign:
  "5 \<le> len bs \<Longrightarrow> Cosmos_Handle L T claSignSecp256K1 bs c w = handleSignSecp256K1 T bs c w"
  by (simp add: Cosmos_Handle_def cosmos_consts)

lemma handle_add:
  assumes "is_add bs" and "currentSignatureSession c = Some ss"
  shows "Cosmos_Handle L T claSignSecp256K1 bs c w =
    Ret (([], APDUSuccess, None),
      c\<lparr>currentSignatureSession := Some (ss\<lparr>sig_data := buffer_Write (sig_data ss) (drop 5 (elems bs))\<rparr>)\<rparr>, w)"
  using assms slice_from_Ret [of 5 bs]
  by (simp add: is_add_def Cosmos_Handle_sign handleSignSecp256K1_def index_at_def sign_descrs)

lemma handle_last:
  assumes "5 \<le> len bs" and "elems bs ! 2 = signLast" and "currentSignatureSession c = Some ss"
  shows "Cosmos_Handle L T claSignSecp256K1 bs c w =
    go_bind (sign_result T (Cosmos_Token c) (derivationPath ss) (elems (sig_data ss) @ drop 5 (elems bs)) w)
      (\<lambda>(r, w'). Ret (r, c\<lparr>currentSignatureSession := None\<rparr>, w'))"
  using assms slice_from_Ret [of 5 bs]
  by (simp add: Cosmos_Handle_sign handleSignSecp256K1_def index_at_def sign_descrs sign_last_result)

lemma handle_init:
  assumes "25 \<le> len bs" and "elems bs ! 2 = signInit"
  shows "Cosmos_Handle L T claSignSecp256K1 bs c w =
    Ret (([], APDUSuccess, None),
      c\<lparr>currentSignatureSession :=
          Some \<lparr>derivationPath = wire_path (drop 5 (elems bs)), sig_data = empty_buffer\<rparr>\<rparr>, w)"
proof -
  let ?d = "\<lparr>elems = drop 5 (elems bs), spare = spare bs\<rparr>"
  have d: "slice_from bs 5 = Ret ?d"
    using assms(1) slice_from_Ret [of 5 bs] by simp
  have "20 \<le> cap ?d"
    using assms(1) by (simp add: cap_def len_def)
  moreover have "wire_path (drop 5 (elems bs) @ spare bs) = wire_path (drop 5 (elems bs))"
    using assms(1) wire_path_take [of "len bs - 5" "drop 5 (elems bs) @ spare bs"] by (simp add: len_def)
  ultimately show ?thesis
    using assms d
    by (simp add: Cosmos_Handle_sign handleSignSecp256K1_def index_at_def sign_descrs path_from_slice_eq)
qed

lemma run_adds_last:
  assumes "list_all is_add as" and "5 \<le> len l" and "elems l ! 2 = signLast"
    and "currentSignatureSession c = Some ss"
  shows "Cosmos_run L T (map (Pair claSignSecp256K1) (as @ [l])) c w =
    go_bind (sign_result T (Cosmos_Token c) (derivationPath ss)
        (elems (sig_data ss) @ concat (map (\<lambda>b. drop 5 (elems b)) (as @ [l]))) w)
      (\<lambda>(r, w'). Ret (replicate (length as) ([], APDUSuccess, None) @ [r],
                     c\<lparr>currentSignatureSession := None\<rparr>, w'))"
  using assms
proof (induction as arbitrary: c ss)
  case Nil
  then show ?case
    by (simp add: handle_last go_bind_assoc case_prod_unfold)
next
  case (Cons a as)
  let ?ss = "ss\<lparr>sig_data := buffer_Write (sig_data ss) (drop 5 (elems a))\<rparr>"
  from Cons.prems have "is_add a" by simp
  with Cons.IH [of "c\<lparr>currentSignatureSession := Some ?ss\<rparr>" ?ss] Cons.prems handle_add [of a c ss L T w]
  show ?case
    by (simp add: go_bind_assoc case_prod_unfold)
qed

lemma Cosmos_run_protocol:
  assumes "25 \<le> len i" and "elems i ! 2 = signInit" and "list_all is_add as"
    and "5 \<le> len l" and "elems l ! 2 = signLast"
  shows "Cosmos_run L T (map (Pair claSignSecp256K1) (i # as @ [l])) c w =
    go_bind (sign_result T (Cosmos_Token c) (wire_path (drop 5 (elems i)))
        (concat (map (\<lambda>b. drop 5 (elems b)) (as @ [l]))) w)
      (\<lambda>(r, w'). Ret (([], APDUSuccess, None) # replicate (length as) ([], APDUSuccess, None) @ [r],
                     c\<lparr>currentSignatureSession := None\<rparr>, w'))"
proof -
  let ?ss = "\<lparr>derivationPath = wire_path (drop 5 (elems i)), sig_data = empty_buffer\<rparr>"
  show ?thesis
    using handle_init [OF assms(1,2), of L T c w]
      run_adds_last [OF assms(3,4,5), of "c\<lparr>currentSignatureSession := Some ?ss\<rparr>" ?ss L T w]
    by (simp add: go_bind_assoc case_prod_unfold)
qed

section \<open>Properties of the Cosmos application\<close>

text \<open>
  The signing protocol: from any state, an init request with a full path, any number of add
  requests and a last request are all answered, the session ends, and the last answer is what the
  token says about the SHA-256 hash of the concatenated chunks under exactly the path that was sent.
\<close>

lemma signing_protocol:
  assumes "25 \<le> len i" and "elems i ! 2 = signInit" and "list_all is_add as"
    and "5 \<le> len l" and "elems l ! 2 = signLast"
  shows "Cosmos_run L T (map (Pair claSignSecp256K1) (i # as @ [l])) c w =
    go_bind (sign_result T (Cosmos_Token c) (wire_path (drop 5 (elems i)))
        (concat (map (\<lambda>b. drop 5 (elems b)) (as @ [l]))) w)
      (\<lambda>(r, w'). Ret (([], APDUSuccess, None) # replicate (length as) ([], APDUSuccess, None) @ [r],
                     c\<lparr>currentSignatureSession := None\<rparr>, w'))"
  using assms by (rule Cosmos_run_protocol)

definition demo_init :: gslice where
  "demo_init = slice_of ([85, 2, 0, 0, 20] @ concat (map le_put32 [0x8000002c, 0x80000076, 0x80000000, 0, 0]))"

definition demo_add :: gslice where
  "demo_add = slice_of [85, 2, 1, 0, 1, 0x7b]"

definition demo_last :: gslice where
  "demo_last = slice_of [85, 2, 2, 0, 1, 0x7d]"

definition demo_cosmos_lib :: cosmos_lib where
  "demo_cosmos_lib = \<lparr>lib_ripemd160 = take 20, bech32_ConvertBits = Inr, bech32_Encode = (\<lambda>h d. Inr (h @ d))\<rparr>"

definition demo_cosmos :: "uint32 list dumbToken Cosmos" where
  "demo_cosmos = \<lparr>Cosmos_Token = NewDumbToken, currentSignatureSession = None\<rparr>"

lemma signing_protocol_witness:
  "Cosmos_run demo_cosmos_lib (dumbToken_impl trace_env)
      (map (Pair claSignSecp256K1) (demo_init # [demo_add] @ [demo_last])) demo_cosmos () =
    go_bind (sign_result (dumbToken_impl trace_env) (Cosmos_Token demo_cosmos)
        (wire_path (drop 5 (elems demo_init)))
        (concat (map (\<lambda>b. drop 5 (elems b)) ([demo_add] @ [demo_last]))) ())
      (\<lambda>(r, w'). Ret (([], APDUSuccess, None) # replicate (length [demo_add]) ([], APDUSuccess, None) @ [r],
                     demo_cosmos\<lparr>currentSignatureSession := None\<rparr>, w'))"
  by (rule signing_protocol) code_simp+

text \<open>
  C7. The signature handler implements the abstract protocol machine: answer, next phase, token and
  world are those of \<open>sig_reply\<close> and \<open>sig_step\<close>; an init request panics exactly when even the
  capacity of its slice does not hold a path.
\<close>

theorem signing_refinement:
  assumes "5 \<le> len bs"
  shows "map_go (\<lambda>(r, c', w'). (r, sig_phase_of c', Cosmos_Token c', w'))
           (Cosmos_Handle L T claSignSecp256K1 bs c w) =
         (if elems bs ! 2 = signInit \<and> cap bs < 25 then Panic SliceBoundsOutOfRange
          else go_bind (sig_reply T (Cosmos_Token c) (elems bs ! 2) (sig_phase_of c) (sig_cmd_of bs) w)
                 (\<lambda>(r, w'). Ret (r, sig_step (sig_phase_of c) (sig_cmd_of bs), Cosmos_Token c, w')))"
proof (cases "elems bs ! 2 = signInit \<and> cap bs < 25")
  case True
  with assms show ?thesis
    by (simp add: Cosmos_Handle_sign handleSign_short_init)
next
  case False
  then have "elems bs ! 2 \<noteq> signInit \<or> 25 \<le> cap bs" by auto
  then show ?thesis
    unfolding Cosmos_Handle_sign [OF assms] if_not_P [OF False]
    by (rule handleSign_refines [OF assms])
qed

theorem signing_refinement_witness:
  "map_go (\<lambda>(r, c', w'). (r, sig_phase_of c', Cosmos_Token c', w'))
     (Cosmos_Handle demo_cosmos_lib (dumbToken_impl trace_env) claSignSecp256K1 demo_add demo_cosmos ()) =
   (if elems demo_add ! 2 = signInit \<and> cap demo_add < 25 then Panic SliceBoundsOutOfRange
    else go_bind (sig_reply (dumbToken_impl trace_env) (Cosmos_Token demo_cosmos) (elems demo_add ! 2)
                    (sig_phase_of demo_cosmos) (sig_cmd_of demo_add) ())
           (\<lambda>(r, w'). Ret (r, sig_step (sig_phase_of demo_cosmos) (sig_cmd_of demo_add),
                          Cosmos_Token demo_cosmos, w')))"
  by (rule signing_refinement) code_simp

text \<open>
  C10. The address command on every branch: too short data, an invalid request, a slice expression
  beyond the capacity (a panic), and otherwise the public key at the requested path followed by its
  address under the requested prefix; the application state never changes.
\<close>

theorem get_address_result:
  "Cosmos_Handle L T claGetAddrSecp256K1 bs c w =
     (if len bs < 5
      then Ret (([], APDUWrongLength, Some (Errorf ''data is too small to be processed'' [])), c, w)
      else if len bs < 6 then Ret (([], APDUExecutionError, Some io_ErrUnexpectedEOF), c, w)
      else
        let r = getAddressRequest_decode (elems bs); n = unat (HRPLength r)
        in case getAddressRequest_validate r of
             Some err \<Rightarrow> Ret (([], APDUExecutionError, Some err), c, w)
           | None \<Rightarrow>
               if cap bs < 26 + n then Panic SliceBoundsOutOfRange
               else go_bind (address_result L T (Cosmos_Token c) (take n (drop 6 (backing bs)))
                               (wire_path (drop (6 + n) (backing bs))) w)
                      (\<lambda>(a, w'). Ret (a, c, w')))"
  by (auto simp: Cosmos_Handle_def cosmos_consts handleGetAddr_result len_def)

lemma sign_result_consistent:
  "sign_result T t p m w = Ret ((d, code, err), w') \<Longrightarrow>
   (code = APDUSuccess \<longleftrightarrow> err = None) \<and> (err \<noteq> None \<longrightarrow> d = [])"
  by (auto simp: sign_result_def apdu_codes elim!: go_bind_RetE
      split: option.split_asm sum.split_asm if_split_asm)

lemma address_result_consistent:
  "address_result L T t h p w = Ret ((d, code, err), w') \<Longrightarrow>
   (code = APDUSuccess \<longleftrightarrow> err = None) \<and> (err \<noteq> None \<longrightarrow> d = [])"
  by (auto simp: address_result_def apdu_codes elim!: go_bind_RetE
      split: option.split_asm sum.split_asm)

lemma handleSign_consistent:
  "handleSignSecp256K1 T bs c w = Ret ((d, code, err), c', w') \<Longrightarrow>
   (code = APDUSuccess \<longleftrightarrow> err = None) \<and> (err \<noteq> None \<longrightarrow> d = []) \<and> Cosmos_Token c' = Cosmos_Token c"
  by (auto simp: handleSignSecp256K1_def sign_last_result Let_def apdu_codes elim!: go_bind_RetE
      dest!: sign_result_consistent split: if_split_asm)

lemma handleGetAddr_consistent:
  "handleGetAddrSecp256K1 L T bs c w = Ret ((d, code, err), c', w') \<Longrightarrow>
   (code = APDUSuccess \<longleftrightarrow> err = None) \<and> (err \<noteq> None \<longrightarrow> d = []) \<and> c' = c"
  by (auto simp: handleGetAddr_result Let_def apdu_codes elim!: go_bind_RetE
      dest!: address_result_consistent split: if_split_asm option.split_asm) (metis+)

text \<open>
  C30. Every answer is consistent: the status is success exactly when no error is reported, an
  error comes with an empty body, no command touches the application's own token, and only the
  signature command can change its state.
\<close>

theorem Cosmos_Handle_consistent:
  assumes "Cosmos_Handle L T cmd bs c w = Ret ((d, code, err), c', w')"
  shows "(code = APDUSuccess \<longleftrightarrow> err = None) \<and> (err \<noteq> None \<longrightarrow> d = []) \<and>
         Cosmos_Token c' = Cosmos_Token c \<and> (cmd \<noteq> claSignSecp256K1 \<longrightarrow> c' = c)"
  using assms handleSign_consistent [of T bs c w d code err c' w']
    handleGetAddr_consistent [of L T bs c w d code err c' w']
  by (auto simp: Cosmos_Handle_def handleGetVersion_def apdu_codes split: if_split_asm)

theorem Cosmos_Handle_consistent_witness:
  "\<exists>d code err c'. Cosmos_Handle demo_cosmos_lib (dumbToken_impl trace_env) claGetVersion demo_add demo_cosmos () =
     Ret ((d, code, err), c', ()) \<and> (code = APDUSuccess \<longleftrightarrow> err = None) \<and> c' = demo_cosmos"
proof -
  have run: "Cosmos_Handle demo_cosmos_lib (dumbToken_impl trace_env) claGetVersion demo_add demo_cosmos () =
      Ret (([0, 2, 0, 0, 0], APDUSuccess, None), demo_cosmos, ())"
    by (simp add: Cosmos_Handle_def handleGetVersion_def getVersionResponse_Marshal_def demo_add_def
        len_def cosmos_consts)
  have "claGetVersion \<noteq> claSignSecp256K1" by (simp add: cosmos_consts)
  with run Cosmos_Handle_consistent [OF run] show ?thesis by blast
qed

lemma handle_short_init:
  assumes "len bs = 5" and "elems bs ! 2 = signInit" and "20 \<le> length (spare bs)"
  shows "Cosmos_Handle L T claSignSecp256K1 bs c w =
    Ret (([], APDUSuccess, None),
      c\<lparr>currentSignatureSession :=
          Some \<lparr>derivationPath = wire_path (spare bs), sig_data = empty_buffer\<rparr>\<rparr>, w)"
proof -
  have d: "slice_from bs 5 = Ret \<lparr>elems = [], spare = spare bs\<rparr>"
    using assms(1) slice_from_Ret [of 5 bs] by (simp add: len_def)
  have "20 \<le> cap \<lparr>elems = [], spare = spare bs\<rparr>"
    using assms(3) by (simp add: cap_def)
  with assms d show ?thesis
    by (simp add: Cosmos_Handle_sign handleSignSecp256K1_def index_at_def sign_descrs path_from_slice_eq)
qed

end
