(* ===== verification/Firmware.thy ===== *)
theory Firmware
  imports Usb Apps Cosmos
begin

text \<open>
  The device side of the HID loop (\<open>src/firmware/wallera.go\<close>, \<open>src/firmware/main.go\<close>): \<open>Rx\<close> takes one
  64-byte report from the host, reassembles requests, asks the application handler and hands the
  frames of the answer to \<open>Tx\<close> over an unbuffered channel.  The application handler is a function
  argument; its contract is the locale \<open>request_handler\<close>.
\<close>

section \<open>The handler contract\<close>

locale request_handler =
  fixes H :: "'h \<Rightarrow> gslice \<Rightarrow> 'w \<Rightarrow> ((bytes option \<times> go_error option) \<times> 'h \<times> 'w) go"
    and inv :: "'h \<Rightarrow> bool"
  assumes inv_step: "inv h \<Longrightarrow> H h g w = Ret (r, h', w') \<Longrightarrow> inv h'"
    and answers: "H h g w = Ret ((resp, err), h', w') \<Longrightarrow> \<exists>d code. resp = Some (PackageResponse d code)"

lemma Handle_answers:
  assumes "Handle unm A h g w = Ret ((resp, err), h', w')"
  shows "\<exists>d code. resp = Some (PackageResponse d code)"
proof -
  obtain c where "UnmarshalCAPDU unm (elems g) = Inr c"
    by (cases "unm (elems g)") (auto simp: UnmarshalCAPDU_def)
  with assms show ?thesis
    by (auto simp: Handle_def Let_def elim!: go_bind_RetE split: option.split_asm if_split_asm)
qed

interpretation wallet: request_handler "Handle unm (cosmos_App L T)" "handler_inv (cosmos_App L T)"
  for unm :: "bytes \<Rightarrow> go_error + CAPDU" and L :: cosmos_lib and T :: "('t, 'w) Token"
proof
  fix h g w r h' w' resp err
  show "handler_inv (cosmos_App L T) h \<Longrightarrow> Handle unm (cosmos_App L T) h g w = Ret (r, h', w') \<Longrightarrow>
      handler_inv (cosmos_App L T) h'"
    by (rule cosmos.handler_inv_Handle)
  show "Handle unm (cosmos_App L T) h g w = Ret ((resp, err), h', w') \<Longrightarrow>
      \<exists>d code. resp = Some (PackageResponse d code)"
    by (rule Handle_answers)
qed

section \<open>Rx and Tx\<close>

record 'h hidHandler =
  ah :: 'h
  session :: "Session option"

definition newHidHandler :: "'h \<Rightarrow> 'h hidHandler" where
  "newHidHandler apps = \<lparr>ah = apps, session = None\<rparr>"

text \<open>\<open>notErr\<close> panics on an error.\<close>

definition notErr :: "go_error option \<Rightarrow> unit go" where
  "notErr e = (case e of None \<Rightarrow> Ret () | Some _ \<Rightarrow> Panic (ExplicitPanic ''notErr''))"

text \<open>
  The tail of \<open>Rx\<close>: a complete session is handled and its answer is sent frame by frame.  The
  result is the list of frames sent on the channel, the returned error and the new state.
\<close>

definition Rx_handle ::
  "('h \<Rightarrow> gslice \<Rightarrow> 'w \<Rightarrow> ((bytes option \<times> go_error option) \<times> 'h \<times> 'w) go) \<Rightarrow>
   'h hidHandler \<Rightarrow> Session \<Rightarrow> bytes list \<Rightarrow> 'w \<Rightarrow>
   (bytes list \<times> go_error option \<times> 'h hidHandler \<times> 'w) go" where
  "Rx_handle H hh s sent w =
     (if ShouldReadMore s then Ret (sent, None, hh\<lparr>session := Some s\<rparr>, w)
      else go_bind (H (ah hh) (Session_Data s) w) (\<lambda>((resp, err), h', w').
             case resp of
               None \<Rightarrow> Ret (sent, None, hh\<lparr>ah := h', session := None\<rparr>, w')
             | Some r \<Rightarrow>
                 go_bind (Session_FormatResponse s r) (\<lambda>chunks.
                   Ret (sent @ chunks, None, hh\<lparr>ah := h', session := None\<rparr>, w'))))"

definition Rx ::
  "('h \<Rightarrow> gslice \<Rightarrow> 'w \<Rightarrow> ((bytes option \<times> go_error option) \<times> 'h \<times> 'w) go) \<Rightarrow>
   'h hidHandler \<Rightarrow> bytes \<Rightarrow> 'w \<Rightarrow> (bytes list \<times> go_error option \<times> 'h hidHandler \<times> 'w) go" where
  "Rx H hh buf w =
     (case session hh of
        None \<Rightarrow>
          go_bind (NewSession buf) (\<lambda>r.
            case r of
              Inl err \<Rightarrow> go_bind (notErr (Some err)) (\<lambda>_. Ret ([], None, hh, w))
            | Inr s \<Rightarrow> Rx_handle H hh s [] w)
      | Some s \<Rightarrow>
          go_bind (Session_ReadData s buf) (\<lambda>(err, s').
            go_bind (case err of
                       None \<Rightarrow> Ret []
                     | Some _ \<Rightarrow> Session_FormatResponse s' (PackageResponse [] APDUCommandNotAllowed))
              (\<lambda>sent.
                 if ShouldReadMore s' then Ret (sent, err, hh\<lparr>session := Some s'\<rparr>, w)
                 else Rx_handle H hh s' sent w)))"

text \<open>A sequence of reports from the host; all frames sent, in order.\<close>

fun Rx_run ::
  "('h \<Rightarrow> gslice \<Rightarrow> 'w \<Rightarrow> ((bytes option \<times> go_error option) \<times> 'h \<times> 'w) go) \<Rightarrow>
   'h hidHandler \<Rightarrow> bytes list \<Rightarrow> 'w \<Rightarrow> (bytes list \<times> 'h hidHandler \<times> 'w) go" where
  "Rx_run H hh [] w = Ret ([], hh, w)"
| "Rx_run H hh (b # bs) w =
     go_bind (Rx H hh b w) (\<lambda>(out, _, hh1, w1).
     go_bind (Rx_run H hh1 bs w1) (\<lambda>(outs, hh2, w2). Ret (out @ outs, hh2, w2)))"

section \<open>Invariant\<close>

text \<open>Between two calls of \<open>Rx\<close> a session is kept only while it is incomplete.\<close>

definition hid_inv :: "'h hidHandler \<Rightarrow> bool" where
  "hid_inv hh \<longleftrightarrow> (\<forall>s. session hh = Some s \<longrightarrow> session_inv s \<and> ShouldReadMore s)"

lemma FormatResponse_total: "\<exists>fs. Session_FormatResponse s bs = Ret fs"
  by (cases "length bs \<le> 57") (auto simp: FormatResponse_short FormatResponse_long)

lemma Rx_handle_inv:
  assumes "session_inv s" and "Rx_handle H hh s sent w = Ret (out, e, hh', w')"
  shows "hid_inv hh'"
  using assms
  by (auto simp: Rx_handle_def hid_inv_def elim!: go_bind_RetE split: if_split_asm option.split_asm)

lemma Rx_inv:
  assumes "hid_inv hh" and "Rx H hh buf w = Ret (out, e, hh', w')"
  shows "hid_inv hh'"
proof (cases "session hh")
  case None
  with assms(2) obtain s where s: "NewSession buf = Ret (Inr s)"
    and tl: "Rx_handle H hh s [] w = Ret (out, e, hh', w')"
    by (auto simp: Rx_def notErr_def elim!: go_bind_RetE split: sum.split_asm)
  show ?thesis
    by (rule Rx_handle_inv [OF NewSession_inv [OF s] tl])
next
  case (Some s)
  with assms(1) have inv: "session_inv s" by (simp add: hid_inv_def)
  from Some assms(2) obtain err s' sent where rd: "Session_ReadData s buf = Ret (err, s')"
    and tl: "(if ShouldReadMore s' then Ret (sent, err, hh\<lparr>session := Some s'\<rparr>, w)
              else Rx_handle H hh s' sent w) = Ret (out, e, hh', w')"
    by (auto simp: Rx_def elim!: go_bind_RetE)
  from ReadData_inv [OF inv rd] have "session_inv s'" .
  show ?thesis
  proof (cases "ShouldReadMore s'")
    case True
    with tl \<open>session_inv s'\<close> show ?thesis by (auto simp: hid_inv_def)
  next
    case False
    with tl have "Rx_handle H hh s' sent w = Ret (out, e, hh', w')" by simp
    then show ?thesis by (rule Rx_handle_inv [OF \<open>session_inv s'\<close>])
  qed
qed

lemma Rx_run_inv: "hid_inv hh \<Longrightarrow> Rx_run H hh bs w = Ret (out, hh', w') \<Longrightarrow> hid_inv hh'"
  by (induction H hh bs w arbitrary: out rule: Rx_run.induct)
     (auto elim!: go_bind_RetE dest: Rx_inv)

section \<open>A request arrives in frames\<close>

lemma session_overwritten [simp]: "hh\<lparr>session := x, ah := h, session := y\<rparr> = hh\<lparr>ah := h, session := y\<rparr>"
  by (cases hh) simp

lemma Rx_handle_session [simp]: "Rx_handle H (hh\<lparr>session := x\<rparr>) s sent w = Rx_handle H hh s sent w"
  by (simp add: Rx_handle_def cong: option.case_cong)

lemma FormatResponse_channel:
  "channelID s = channelID r \<Longrightarrow> Session_FormatResponse s bs = Session_FormatResponse r bs"
  by (cases "length bs \<le> 57")
     (simp_all add: FormatResponse_short FormatResponse_long init_frame_def next_frame_def)

lemma Rx_accept:
  assumes "session hh = Some s" and "Session_ReadData s f = Ret (None, s')"
  shows "Rx H hh f w = Rx_handle H hh s' [] w"
  using assms by (simp add: Rx_def Rx_handle_def)

text \<open>A session that accepts a frame is still open, so nothing is answered before the last frame.\<close>

lemma feed_first_open:
  assumes "Session_feed s (f # fs) = Ret (None, s')" and "channelID s \<noteq> 0"
  shows "ShouldReadMore s"
  using assms by (auto elim!: go_bind_RetE split: option.split_asm dest: ReadData_next_accept(3))

lemma Rx_run_feed:
  assumes "session hh = Some s" and "session_inv s" and "fs \<noteq> []"
    and "Session_feed s fs = Ret (None, s')"
  shows "Rx_run H hh fs w = map_go (\<lambda>(out, e, r). (out, r)) (Rx_handle H hh s' [] w)"
  using assms
proof (induction fs arbitrary: hh s)
  case Nil
  then show ?case by simp
next
  case (Cons f fs)
  from Cons.prems(4) obtain t where t: "Session_ReadData s f = Ret (None, t)"
    and rest: "Session_feed t fs = Ret (None, s')"
    by (auto elim!: go_bind_RetE split: option.split_asm)
  from ReadData_inv [OF Cons.prems(2) t] have inv: "session_inv t" .
  note rx = Rx_accept [OF Cons.prems(1) t, of H w]
  show ?case
  proof (cases "fs = []")
    case True
    with rest rx show ?thesis
      by (simp add: go_bind_Ret_map case_prod_unfold)
  next
    case False
    with rest inv have "ShouldReadMore t"
      by (cases fs) (auto intro: feed_first_open simp: session_inv_def simp del: Session_feed.simps)
    then have "Rx_handle H hh t [] w = Ret ([], None, hh\<lparr>session := Some t\<rparr>, w)"
      by (simp add: Rx_handle_def)
    with rx Cons.IH [of "hh\<lparr>session := Some t\<rparr>" t] inv False rest show ?thesis
      by (simp add: go_bind_Ret_map case_prod_unfold go.map_ident)
  qed
qed

section \<open>Whole requests\<close>

text \<open>The frames a host on the channel of \<open>r\<close> sends for a request, and the slice they become here.\<close>

definition frames_of :: "Session \<Rightarrow> bytes \<Rightarrow> bytes list" where
  "frames_of r m = (case Session_FormatResponse r m of Ret fs \<Rightarrow> fs | Panic _ \<Rightarrow> [])"

definition received :: "Session \<Rightarrow> bytes \<Rightarrow> gslice" where
  "received r m =
     (case frames_of r m of
        [] \<Rightarrow> empty_buffer
      | f # fs \<Rightarrow>
          (case NewSession f of
             Ret (Inr s0) \<Rightarrow>
               (case Session_feed s0 fs of Ret (_, s) \<Rightarrow> Session_Data s | Panic _ \<Rightarrow> empty_buffer)
           | _ \<Rightarrow> empty_buffer))"

lemma frames_of_reassembled:
  assumes "channelID r \<noteq> 0" and "length m \<le> 65535"
  obtains f fs s0 s where "frames_of r m = f # fs" and "NewSession f = Ret (Inr s0)"
    and "Session_feed s0 fs = Ret (None, s)" and "Session_Data s = received r m" and "elems (received r m) = m"
    and "\<not> ShouldReadMore s" and "channelID s = channelID r"
proof -
  obtain f fs s0 s where *: "Session_FormatResponse r m = Ret (f # fs)" "NewSession f = Ret (Inr s0)"
    "Session_feed s0 fs = Ret (None, s)" "elems (Session_Data s) = m" "\<not> ShouldReadMore s"
    "channelID s = channelID r"
    using FormatResponse_reassembled [OF assms] by blast
  from * have "Session_Data s = received r m"
    by (simp add: received_def frames_of_def)
  with * show thesis
    by (intro that [of f fs s0 s]) (simp_all add: frames_of_def)
qed

lemma frames_of_channel: "channelID s = channelID r \<Longrightarrow> frames_of s m = frames_of r m"
  using FormatResponse_channel [of s r m] by (simp add: frames_of_def)

lemma frames_of_eq: "Session_FormatResponse r m = Ret (frames_of r m)"
  using FormatResponse_total [of r m] by (auto simp: frames_of_def)

text \<open>What serving a sequence of whole requests means, without any transport.\<close>

fun serve ::
  "('h \<Rightarrow> gslice \<Rightarrow> 'w \<Rightarrow> ((bytes option \<times> go_error option) \<times> 'h \<times> 'w) go) \<Rightarrow> Session \<Rightarrow>
   'h \<Rightarrow> gslice list \<Rightarrow> 'w \<Rightarrow> (bytes list \<times> 'h \<times> 'w) go" where
  "serve H r h [] w = Ret ([], h, w)"
| "serve H r h (g # gs) w =
     go_bind (H h g w) (\<lambda>((resp, err), h1, w1).
     go_bind (serve H r h1 gs w1) (\<lambda>(outs, h2, w2).
       Ret ((case resp of None \<Rightarrow> [] | Some m \<Rightarrow> frames_of r m) @ outs, h2, w2)))"

lemma Rx_run_append:
  "Rx_run H hh (xs @ ys) w =
     go_bind (Rx_run H hh xs w) (\<lambda>(o1, hh1, w1).
     go_bind (Rx_run H hh1 ys w1) (\<lambda>(o2, hh2, w2). Ret (o1 @ o2, hh2, w2)))"
proof (induction xs arbitrary: hh w)
  case Nil
  then show ?case by (simp add: go_bind_Ret_map go.map_ident)
next
  case (Cons x xs)
  then show ?case by (simp add: go_bind_assoc case_prod_unfold)
qed

lemma Rx_handle_open: "ShouldReadMore s \<Longrightarrow> Rx_handle H hh s sent w = Ret (sent, None, hh\<lparr>session := Some s\<rparr>, w)"
  by (simp add: Rx_handle_def)

lemma Rx_handle_complete:
  assumes "\<not> ShouldReadMore s" and "channelID s = channelID r"
  shows "Rx_handle H hh s [] w =
    go_bind (H (ah hh) (Session_Data s) w) (\<lambda>((resp, err), h', w').
      Ret ((case resp of None \<Rightarrow> [] | Some m \<Rightarrow> frames_of r m), None, hh\<lparr>ah := h', session := None\<rparr>, w'))"
  using assms
  by (auto simp: Rx_handle_def frames_of_channel [OF assms(2)] frames_of_eq case_prod_unfold
      split: option.split intro!: go_bind_cong)

lemma Rx_run_request:
  assumes "channelID r \<noteq> 0" and "length m \<le> 65535" and "session hh = None"
  shows "Rx_run H hh (frames_of r m) w =
    go_bind (H (ah hh) (received r m) w) (\<lambda>((resp, err), h', w').
      Ret ((case resp of None \<Rightarrow> [] | Some b \<Rightarrow> frames_of r b), hh\<lparr>ah := h', session := None\<rparr>, w'))"
proof -
  obtain f fs s0 s where fs: "frames_of r m = f # fs" and s0: "NewSession f = Ret (Inr s0)"
    and feed: "Session_feed s0 fs = Ret (None, s)" and dat: "Session_Data s = received r m"
    and fin: "\<not> ShouldReadMore s" and ch: "channelID s = channelID r"
    using frames_of_reassembled [OF assms(1,2)] .
  have first: "Rx H hh f w = Rx_handle H hh s0 [] w"
    using assms(3) s0 by (simp add: Rx_def)
  have "Rx_run H hh (f # fs) w = map_go (\<lambda>(out, e, r). (out, r)) (Rx_handle H hh s [] w)"
  proof (cases "fs = []")
    case True
    with feed first show ?thesis by (simp add: go_bind_Ret_map case_prod_unfold)
  next
    case False
    with feed NewSession_channel [OF s0] have more: "ShouldReadMore s0"
      by (cases fs) (auto intro: feed_first_open simp del: Session_feed.simps)
    from Rx_run_feed [OF _ NewSession_inv [OF s0] False feed, of "hh\<lparr>session := Some s0\<rparr>" H w]
    have "Rx_run H (hh\<lparr>session := Some s0\<rparr>) fs w = map_go (\<lambda>(out, e, r). (out, r)) (Rx_handle H hh s [] w)"
      by simp
    with more first show ?thesis
      by (simp add: Rx_handle_def [of H hh s0] go_bind_Ret_map go.map_ident case_prod_unfold)
  qed
  then show ?thesis
    by (simp add: fs Rx_handle_complete [OF fin ch] dat map_go_bind case_prod_unfold)
qed

lemma Rx_run_requests:
  assumes "channelID r \<noteq> 0" and "list_all (\<lambda>m. length m \<le> 65535) ms" and "session hh = None"
  shows "Rx_run H hh (concat (map (frames_of r) ms)) w =
    go_bind (serve H r (ah hh) (map (received r) ms) w) (\<lambda>(out, h', w'). Ret (out, hh\<lparr>ah := h'\<rparr>, w'))"
  using assms(2,3)
proof (induction ms arbitrary: hh w)
  case Nil
  then show ?case by (cases hh) simp
next
  case (Cons m ms)
  have upd: "hh\<lparr>ah := h, session := None, ah := h'\<rparr> = hh\<lparr>ah := h'\<rparr>" for h h'
    using Cons.prems(2) by (cases hh) simp
  from Cons show ?case
    by (simp add: Rx_run_append Rx_run_request [OF assms(1)] go_bind_assoc case_prod_unfold upd)
qed

section \<open>What the contract gives\<close>

context request_handler
begin

lemma Rx_handle_keeps:
  "inv (ah hh) \<Longrightarrow> Rx_handle H hh s sent w = Ret (out, e, hh', w') \<Longrightarrow> inv (ah hh')"
  by (auto simp: Rx_handle_def elim!: go_bind_RetE split: if_split_asm option.split_asm)
     (erule inv_step, assumption)+

lemma Rx_keeps: "inv (ah hh) \<Longrightarrow> Rx H hh f w = Ret (out, e, hh', w') \<Longrightarrow> inv (ah hh')"
  by (auto simp: Rx_def notErr_def elim!: go_bind_RetE split: option.split_asm sum.split_asm if_split_asm
      dest: Rx_handle_keeps)

lemma Rx_run_keeps: "inv (ah hh) \<Longrightarrow> Rx_run H hh fs w = Ret (out, hh', w') \<Longrightarrow> inv (ah hh')"
  by (induction fs arbitrary: hh w out) (auto elim!: go_bind_RetE dest: Rx_keeps)

text \<open>Every request served gets exactly one packaged response.\<close>

lemma serve_answers:
  "serve H r h gs w = Ret (out, h', w') \<Longrightarrow>
   \<exists>rs. length rs = length gs \<and> out = concat (map (\<lambda>(d, code). frames_of r (PackageResponse d code)) rs)"
proof (induction gs arbitrary: h w out)
  case Nil
  then show ?case by simp
next
  case (Cons g gs)
  then obtain resp err h1 w1 outs where 1: "H h g w = Ret ((resp, err), h1, w1)"
    and 2: "serve H r h1 gs w1 = Ret (outs, h', w')"
    and out: "out = (case resp of None \<Rightarrow> [] | Some m \<Rightarrow> frames_of r m) @ outs"
    by (auto elim!: go_bind_RetE)
  from answers [OF 1] obtain d code where "resp = Some (PackageResponse d code)" by blast
  moreover obtain rs where "length rs = length gs"
    "outs = concat (map (\<lambda>(d, code). frames_of r (PackageResponse d code)) rs)"
    using Cons.IH [OF 2] by blast
  ultimately show ?case
    by (intro exI [of _ "(d, code) # rs"]) (simp add: out)
qed

end

section \<open>Rx and Tx as two processes\<close>

text \<open>
  \<open>Rx\<close> runs once per report of the host and blocks on the unbuffered channel until \<open>Tx\<close> has taken
  every frame; \<open>Tx\<close> takes one frame per poll of the host.  \<open>dv_pending\<close> are the frames \<open>Rx\<close> still has
  to hand over, \<open>dv_wire\<close> those the host has read.  The channel is unbuffered, so at every moment only one of
  the two can go on.
\<close>

record ('h, 'w) device =
  dv_hh :: "'h hidHandler"
  dv_world :: 'w
  dv_inbox :: "bytes list"
  dv_pending :: "bytes list"
  dv_wire :: "bytes list"

inductive dev_step ::
  "('h \<Rightarrow> gslice \<Rightarrow> 'w \<Rightarrow> ((bytes option \<times> go_error option) \<times> 'h \<times> 'w) go) \<Rightarrow>
   ('h, 'w) device \<Rightarrow> ('h, 'w) device \<Rightarrow> bool"
  for H where
    dev_rx: "dv_pending d = [] \<Longrightarrow> dv_inbox d = f # fs \<Longrightarrow>
      Rx H (dv_hh d) f (dv_world d) = Ret (out, e, hh', w') \<Longrightarrow>
      dev_step H d (d\<lparr>dv_hh := hh', dv_world := w', dv_inbox := fs, dv_pending := out\<rparr>)"
  | dev_tx: "dv_pending d = c # cs \<Longrightarrow>
      dev_step H d (d\<lparr>dv_pending := cs, dv_wire := dv_wire d @ [c]\<rparr>)"

inductive_cases dev_stepE: "dev_step H d d'"

definition dev_start :: "'h hidHandler \<Rightarrow> 'w \<Rightarrow> bytes list \<Rightarrow> ('h, 'w) device" where
  "dev_start hh w fs = \<lparr>dv_hh = hh, dv_world = w, dv_inbox = fs, dv_pending = [], dv_wire = []\<rparr>"

text \<open>The invariant of every reachable state: what was read and is pending is the sequential output.\<close>

definition dev_inv where
  "dev_inv H hh w fs d \<longleftrightarrow>
     (\<exists>got. fs = got @ dv_inbox d \<and> Rx_run H hh got w = Ret (dv_wire d @ dv_pending d, dv_hh d, dv_world d))"

lemma dev_inv_start: "dev_inv H hh w fs (dev_start hh w fs)"
  by (simp add: dev_inv_def dev_start_def)

lemma dev_inv_step: "dev_inv H hh w fs d \<Longrightarrow> dev_step H d d' \<Longrightarrow> dev_inv H hh w fs d'"
proof (erule dev_stepE)
  fix f fs' out e hh' w'
  assume inv: "dev_inv H hh w fs d" and *: "dv_pending d = []" "dv_inbox d = f # fs'"
    "Rx H (dv_hh d) f (dv_world d) = Ret (out, e, hh', w')"
    "d' = d\<lparr>dv_hh := hh', dv_world := w', dv_inbox := fs', dv_pending := out\<rparr>"
  from inv obtain got where "fs = got @ dv_inbox d"
    "Rx_run H hh got w = Ret (dv_wire d @ dv_pending d, dv_hh d, dv_world d)"
    by (auto simp: dev_inv_def)
  with * show "dev_inv H hh w fs d'"
    by (auto simp: dev_inv_def Rx_run_append intro!: exI [of _ "got @ [f]"])
next
  fix c cs
  assume "dev_inv H hh w fs d" "dv_pending d = c # cs"
    "d' = d\<lparr>dv_pending := cs, dv_wire := dv_wire d @ [c]\<rparr>"
  then show "dev_inv H hh w fs d'"
    by (auto simp: dev_inv_def)
qed

lemma dev_inv_reachable: "(dev_step H)\<^sup>*\<^sup>* (dev_start hh w fs) d \<Longrightarrow> dev_inv H hh w fs d"
  by (induction rule: rtranclp_induct) (auto intro: dev_inv_start dev_inv_step)

lemma dev_stuck_iff:
  "(\<nexists>d'. dev_step H d d') \<longleftrightarrow>
     dv_pending d = [] \<and> (dv_inbox d = [] \<or>
       (\<exists>p. Rx H (dv_hh d) (hd (dv_inbox d)) (dv_world d) = Panic p))"
proof (cases "dv_pending d")
  case (Cons c cs)
  then show ?thesis using dev_tx by fastforce
next
  case Nil
  show ?thesis
  proof (cases "dv_inbox d")
    case Nil
    with \<open>dv_pending d = []\<close> show ?thesis by (auto elim: dev_stepE)
  next
    case (Cons f fs)
    with \<open>dv_pending d = []\<close> show ?thesis
      by (cases "Rx H (dv_hh d) f (dv_world d)") (auto elim!: dev_stepE intro: dev_rx)
  qed
qed

lemma dev_step_wf: "wfp (\<lambda>d' d. dev_step H d d')"
proof -
  let ?R = "inv_image (less_than <*lex*> less_than) (\<lambda>d. (length (dv_inbox d), length (dv_pending d)))"
  have "{(d', d). dev_step H d d'} \<subseteq> ?R" by (auto elim!: dev_stepE)
  then show ?thesis unfolding wfp_def by (rule wf_subset [rotated]) auto
qed

lemma dev_rests: "\<exists>d'. (dev_step H)\<^sup>*\<^sup>* d d' \<and> (\<nexists>d''. dev_step H d' d'')"
  using dev_step_wf [of H]
proof (induction d rule: wfp_induct_rule)
  case (less d)
  then show ?case by (metis converse_rtranclp_into_rtranclp rtranclp.rtrancl_refl)
qed

text \<open>When the whole input is handled without a panic, the processes only rest with everything delivered.\<close>

lemma dev_inv_rest:
  assumes "dev_inv H hh w fs d" and "Rx_run H hh fs w = Ret (out, hh', w')"
  shows "\<exists>rest. out = dv_wire d @ rest"
    and "(\<nexists>d'. dev_step H d d') \<Longrightarrow>
      d = \<lparr>dv_hh = hh', dv_world = w', dv_inbox = [], dv_pending = [], dv_wire = out\<rparr>"
proof -
  from assms(1) obtain got where "fs = got @ dv_inbox d"
    "Rx_run H hh got w = Ret (dv_wire d @ dv_pending d, dv_hh d, dv_world d)" by (auto simp: dev_inv_def)
  with assms(2) obtain o2 where run: "Rx_run H (dv_hh d) (dv_inbox d) (dv_world d) = Ret (o2, hh', w')"
    "out = dv_wire d @ dv_pending d @ o2"
    by (auto simp: Rx_run_append elim!: go_bind_RetE)
  then show "\<exists>rest. out = dv_wire d @ rest" by blast
  assume "\<nexists>d'. dev_step H d d'"
  then have stuck: "dv_pending d = []" "dv_inbox d = [] \<or> (\<exists>p. Rx H (dv_hh d) (hd (dv_inbox d)) (dv_world d) = Panic p)"
    unfolding dev_stuck_iff by blast+
  with run(1) have "dv_inbox d = []" by (cases "dv_inbox d") auto
  with run stuck(1) show "d = \<lparr>dv_hh = hh', dv_world = w', dv_inbox = [], dv_pending = [], dv_wire = out\<rparr>"
    by (cases d) simp
qed

section \<open>The booted device\<close>

text \<open>
  \<open>main\<close> of \<open>src/firmware/main.go\<close> up to the start of the USB stack: one Cosmos application on the
  chosen token is registered (the result of \<open>Register\<close> is ignored) and \<open>Rx\<close> starts without a session.
\<close>

definition firmware_main :: "cosmos_lib \<Rightarrow> ('t, 'w) Token \<Rightarrow> 't \<Rightarrow> 't Cosmos Handler hidHandler" where
  "firmware_main L T t =
     newHidHandler (snd (Register (cosmos_App L T) NewHandler
       [\<lparr>Cosmos_Token = t, currentSignatureSession = None\<rparr>]))"

lemma firmware_main_inv:
  "hid_inv (firmware_main L T t) \<and> handler_inv (cosmos_App L T) (ah (firmware_main L T t))"
  by (simp add: firmware_main_def newHidHandler_def hid_inv_def handler_inv_Register handler_inv_New
      del: Register.simps)

lemma firmware_main_session [simp]: "session (firmware_main L T t) = None"
  by (simp add: firmware_main_def newHidHandler_def)

lemma firmware_main_app:
  "appMap (ah (firmware_main L T t)) = [appID \<mapsto> \<lparr>Cosmos_Token = t, currentSignatureSession = None\<rparr>]"
  by (simp add: firmware_main_def newHidHandler_def Let_def mappingExists_def NewHandler_def
      cosmos_App_def Cosmos_ID_def)

text \<open>The command header as the APDU format has it, for the concrete runs below.\<close>

definition demo_unmarshal :: "bytes \<Rightarrow> go_error + CAPDU" where
  "demo_unmarshal bs =
     (if length bs < 4 then Inl (Errorf ''short'' []) else Inr \<lparr>CLA = bs ! 0, INS = bs ! 1\<rparr>)"

abbreviation demo_wallet where
  "demo_wallet \<equiv> Handle demo_unmarshal (cosmos_App demo_cosmos_lib (dumbToken_impl trace_env))"

abbreviation demo_boot where
  "demo_boot \<equiv> firmware_main demo_cosmos_lib (dumbToken_impl trace_env) NewDumbToken"

lemma demo_boot_first:
  "Rx_run demo_wallet demo_boot [demo_first] () = Ret ([], demo_boot\<lparr>session := Some demo_session\<rparr>, ())"
proof -
  have "ShouldReadMore demo_session" by code_simp
  then show ?thesis by (simp add: Rx_def Rx_handle_def demo_open)
qed

section \<open>Properties of the HID loop\<close>

text \<open>
  C5. The transport is transparent: any sequence of requests of up to 65535 bytes, sent frame by
  frame on one channel, has exactly the effect and the answers of handing the whole requests to the
  application handler one after the other; each request arrives with the bytes that were sent.
\<close>

theorem transport_transparent:
  assumes "channelID r \<noteq> 0" and "list_all (\<lambda>m. length m \<le> 65535) ms" and "session hh = None"
  shows "Rx_run (Handle unm A) hh (concat (map (frames_of r) ms)) w =
           go_bind (serve (Handle unm A) r (ah hh) (map (received r) ms) w)
             (\<lambda>(out, h', w'). Ret (out, hh\<lparr>ah := h'\<rparr>, w')) \<and>
         map (\<lambda>m. elems (received r m)) ms = ms"
proof
  show "map (\<lambda>m. elems (received r m)) ms = ms"
    using assms(2) by (induction ms) (auto intro: frames_of_reassembled [OF assms(1)])
qed (rule Rx_run_requests [OF assms])

theorem transport_transparent_witness:
  "Rx_run demo_wallet demo_boot
       (concat (map (frames_of (Session_fresh\<lparr>channelID := 257\<rparr>)) [[85, 0, 0, 0, 0], replicate 300 85])) () =
     go_bind (serve demo_wallet (Session_fresh\<lparr>channelID := 257\<rparr>) (ah demo_boot)
         (map (received (Session_fresh\<lparr>channelID := 257\<rparr>)) [[85, 0, 0, 0, 0], replicate 300 85]) ())
       (\<lambda>(out, h', w'). Ret (out, demo_boot\<lparr>ah := h'\<rparr>, w')) \<and>
   map (\<lambda>m. elems (received (Session_fresh\<lparr>channelID := 257\<rparr>) m)) [[85, 0, 0, 0, 0], replicate 300 85] =
     [[85, 0, 0, 0, 0], replicate 300 85]"
  by (rule transport_transparent) simp_all

text \<open>
  C18. From boot on, whatever reports the host sends, as long as the device does not panic: a session
  is kept between two reports only while bytes are missing and never holds more than was
  announced, and the application registry stays consistent.
\<close>

theorem Rx_invariant:
  assumes "Rx_run (Handle unm (cosmos_App L T)) (firmware_main L T t) fs w = Ret (out, hh, w')"
  shows "(\<forall>s. session hh = Some s \<longrightarrow>
            channelID s \<noteq> 0 \<and> ShouldReadMore s \<and> 57 \<le> len (data s) \<and> len (data s) < unat (amountToRead s)) \<and>
         handler_inv (cosmos_App L T) (ah hh)"
proof -
  from firmware_main_inv [of L T t] have "hid_inv hh" "handler_inv (cosmos_App L T) (ah hh)"
    using Rx_run_inv [OF _ assms] wallet.Rx_run_keeps [OF _ assms] by simp_all
  then show ?thesis
    by (auto simp: hid_inv_def session_inv_def)
qed

theorem Rx_invariant_witness:
  "channelID demo_session \<noteq> 0 \<and> ShouldReadMore demo_session \<and> 57 \<le> len (data demo_session) \<and>
   len (data demo_session) < unat (amountToRead demo_session) \<and>
   handler_inv (cosmos_App demo_cosmos_lib (dumbToken_impl trace_env)) (ah demo_boot)"
  using Rx_invariant [OF demo_boot_first] by simp

text \<open>
  A report that does not continue the open session is answered with the single frame
  \<open>APDUCommandNotAllowed\<close> on the session's channel, the error is returned, and neither the session nor the
  applications change.
\<close>

lemma Rx_rejected_frame:
  assumes "hid_inv hh" and "session hh = Some s"
    and "length f \<noteq> 64 \<or> hn_TagInner (HIDFrameNext_decode f) \<noteq> hidFrameTag \<or>
         hn_ChannelIDInner (HIDFrameNext_decode f) \<noteq> channelID s \<or>
         hn_PacketIndexInner (HIDFrameNext_decode f) \<noteq> lastReadFrameIndex s + 1"
  shows "\<exists>e. Rx H hh f w =
    Ret ([HIDFrame_encode (init_frame s 2 [0x69, 0x86])], Some e, hh, w)"
proof -
  from assms(1,2) have s: "channelID s \<noteq> 0" "ShouldReadMore s"
    by (auto simp: hid_inv_def session_inv_def)
  obtain e s' where rd: "Session_ReadData s f = Ret (e, s')"
    using Session_ReadData_no_panic by blast
  have "e \<noteq> None"
  proof
    assume "e = None"
    from ReadData_next_accept(1,2,4,5) [OF rd [unfolded this] s(1)] assms(3) show False
      by (auto simp: HIDFrameNext_validate_def split: if_split_asm)
  qed
  then obtain err where err: "e = Some err" by blast
  with rd have "s' = s" using Session_ReadData_error_unchanged by blast
  moreover have "PackageResponse [] APDUCommandNotAllowed = [0x69, 0x86]"
    by code_simp
  ultimately show ?thesis
    using assms(2) rd err s(2)
    by (auto simp: Rx_def FormatResponse_short numeral_2_eq_2)
qed

lemma Rx_rejected_frame_witness:
  "\<exists>e. Rx demo_wallet (demo_boot\<lparr>session := Some demo_session\<rparr>) [1, 2, 3] () =
    Ret ([HIDFrame_encode (init_frame demo_session 2 [0x69, 0x86])], Some e,
         demo_boot\<lparr>session := Some demo_session\<rparr>, ())"
proof (rule Rx_rejected_frame)
  show "hid_inv (demo_boot\<lparr>session := Some demo_session\<rparr>)"
    using NewSession_inv [OF demo_open] by (simp add: hid_inv_def) code_simp
qed simp_all

text \<open>
  C29. Without an open session a report that is not a valid first frame (64 bytes, tag 5, channel
  not 0) panics the firmware; a valid one does not by itself: it is either the start of a longer
  request, kept without an answer, or a whole request, handed to the applications.
\<close>

theorem Rx_first_frame:
  assumes "session hh = None"
  shows "if length f = 64 \<and> hf_TagInner (HIDFrame_decode f) = hidFrameTag \<and>
            hf_ChannelIDInner (HIDFrame_decode f) \<noteq> 0
         then \<exists>s. NewSession f = Ret (Inr s) \<and>
                Rx H hh f w =
                  (if 57 < unat (hf_DataLengthInner (HIDFrame_decode f))
                   then Ret ([], None, hh\<lparr>session := Some s\<rparr>, w)
                   else go_bind (H (ah hh) (Session_Data s) w) (\<lambda>((resp, err), h', w').
                          Ret ((case resp of None \<Rightarrow> [] | Some m \<Rightarrow> frames_of s m), None,
                               hh\<lparr>ah := h', session := None\<rparr>, w')))
         else Rx H hh f w = Panic (ExplicitPanic ''notErr'')"
proof -
  let ?h = "HIDFrame_decode f"
  obtain r where r: "NewSession f = Ret r"
    using NewSession_no_panic by blast
  show ?thesis
  proof (cases r)
    case (Inl e)
    then have "\<not> (length f = 64 \<and> HIDFrame_validate ?h = None)"
      using r NewSession_valid [of f] by auto
    with Inl r assms show ?thesis
      by (auto simp: Rx_def notErr_def HIDFrame_validate_def split: if_split_asm)
  next
    case (Inr s)
    note acc = NewSession_accept [OF r [unfolded Inr]]
    from acc(2) have "hf_TagInner ?h = hidFrameTag \<and> hf_ChannelIDInner ?h \<noteq> 0"
      by (auto simp: HIDFrame_validate_def split: if_split_asm)
    with Inr r acc(1,7) assms show ?thesis
      by (auto simp: Rx_def Rx_handle_complete [of s s] Rx_handle_open)
  qed
qed

theorem Rx_first_frame_witness:
  "if length (replicate 64 (0 :: byte)) = 64 \<and> hf_TagInner (HIDFrame_decode (replicate 64 0)) = hidFrameTag \<and>
      hf_ChannelIDInner (HIDFrame_decode (replicate 64 0)) \<noteq> 0
   then \<exists>s. NewSession (replicate 64 0) = Ret (Inr s) \<and>
          Rx demo_wallet demo_boot (replicate 64 0) () =
            (if 57 < unat (hf_DataLengthInner (HIDFrame_decode (replicate 64 0)))
             then Ret ([], None, demo_boot\<lparr>session := Some s\<rparr>, ())
             else go_bind (demo_wallet (ah demo_boot) (Session_Data s) ()) (\<lambda>((resp, err), h', w').
                    Ret ((case resp of None \<Rightarrow> [] | Some m \<Rightarrow> frames_of s m), None,
                         demo_boot\<lparr>ah := h', session := None\<rparr>, w')))
   else Rx demo_wallet demo_boot (replicate 64 0) () = Panic (ExplicitPanic ''notErr'')"
  by (rule Rx_first_frame) simp

text \<open>
  C12. Every answer is delivered: while the reports of any sequence of requests are received, the frames the host
  has read are at every moment a prefix of the answers the handler gives to the requests, cut into frames, in
  order; \<open>Rx\<close> and \<open>Tx\<close> take finitely many steps; they do not block each other before the end; and they end with
  exactly these answers read, no session open and the applications and the world as the handler left them.
\<close>

theorem answers_delivered:
  assumes "channelID r \<noteq> 0" and "list_all (\<lambda>m. length m \<le> 65535) ms" and "session hh = None"
    and "serve H r (ah hh) (map (received r) ms) w = Ret (out, h', w')"
    and "(dev_step H)\<^sup>*\<^sup>* (dev_start hh w (concat (map (frames_of r) ms))) d"
  shows "(\<exists>rest. out = dv_wire d @ rest) \<and> wfp (\<lambda>d' d. dev_step H d d') \<and>
    ((\<exists>d'. dev_step H d d') \<or>
       d = \<lparr>dv_hh = hh\<lparr>ah := h'\<rparr>, dv_world = w', dv_inbox = [], dv_pending = [], dv_wire = out\<rparr>) \<and>
    (dev_step H)\<^sup>*\<^sup>* d \<lparr>dv_hh = hh\<lparr>ah := h'\<rparr>, dv_world = w', dv_inbox = [], dv_pending = [], dv_wire = out\<rparr> \<and>
    session (hh\<lparr>ah := h'\<rparr>) = None"
proof -
  have run: "Rx_run H hh (concat (map (frames_of r) ms)) w = Ret (out, hh\<lparr>ah := h'\<rparr>, w')"
    using Rx_run_requests [OF assms(1-3), of H w] assms(4) by simp
  note rest = dev_inv_rest [OF dev_inv_reachable run]
  from dev_rests [of H d] obtain e where e: "(dev_step H)\<^sup>*\<^sup>* d e" "\<nexists>e'. dev_step H e e'" by blast
  with assms(5) have "(dev_step H)\<^sup>*\<^sup>* (dev_start hh w (concat (map (frames_of r) ms))) e" by auto
  from rest(2) [OF this e(2)] e(1) rest [OF assms(5)] dev_step_wf [of H] assms(3) show ?thesis by auto
qed

text \<open>A request of a class nobody has registered, answered by the booted wallet with its status code.\<close>

lemma demo_boot_unknown:
  "serve demo_wallet (Session_fresh\<lparr>channelID := 257\<rparr>) (ah demo_boot)
     (map (received (Session_fresh\<lparr>channelID := 257\<rparr>)) [[16, 9, 0, 0, 0]]) () =
   Ret (frames_of (Session_fresh\<lparr>channelID := 257\<rparr>) [0x6e, 0], ah demo_boot, ())"
proof -
  have "elems (received (Session_fresh\<lparr>channelID := 257\<rparr>) [16, 9, 0, 0, 0]) = [16, 9, 0, 0, 0]"
    by (rule frames_of_reassembled [where m = "[16, 9, 0, 0, 0]" and r = "Session_fresh\<lparr>channelID := 257\<rparr>"]) simp_all
  moreover have "PackageResponse [] APDUCLANotSupported = [0x6e, 0]" by code_simp
  ultimately show ?thesis
    by (simp add: Handle_def UnmarshalCAPDU_def demo_unmarshal_def firmware_main_app appID_def)
qed

theorem answers_delivered_witness:
  "(dev_step demo_wallet)\<^sup>*\<^sup>*
     (dev_start demo_boot () (concat (map (frames_of (Session_fresh\<lparr>channelID := 257\<rparr>)) [[16, 9, 0, 0, 0]])))
     \<lparr>dv_hh = demo_boot\<lparr>ah := ah demo_boot\<rparr>, dv_world = (), dv_inbox = [], dv_pending = [],
      dv_wire = frames_of (Session_fresh\<lparr>channelID := 257\<rparr>) [0x6e, 0]\<rparr>"
  using answers_delivered [OF _ _ _ demo_boot_unknown rtranclp.rtrancl_refl] by simp

end
