(* ===== verification/Wallera_Linux.thy ===== *)
theory Wallera_Linux
  imports Firmware
begin

text \<open>
  The Linux build (\<open>src/cmd/wallera-linux/main.go\<close>): the same loop as the firmware over a gadget
  device file, with its own \<open>hidHandler\<close>.  The channel carries the whole list of frames of an answer
  at once.  Signals and delays are left out; \<open>Linux_Setup\<close> has the start-up.
\<close>

section \<open>Rx\<close>

record 'h linux_hidHandler =
  lx_ah :: 'h
  lx_session :: "Session option"

text \<open>The result lists the values sent on the outbound channel; the returned error is always nil.\<close>

definition linux_Rx_handle ::
  "('h \<Rightarrow> gslice \<Rightarrow> 'w \<Rightarrow> ((bytes option \<times> go_error option) \<times> 'h \<times> 'w) go) \<Rightarrow>
   'h linux_hidHandler \<Rightarrow> Session \<Rightarrow> 'w \<Rightarrow> (bytes list list \<times> 'h linux_hidHandler \<times> 'w) go" where
  "linux_Rx_handle H h s w =
     (if ShouldReadMore s then Ret ([], h\<lparr>lx_session := Some s\<rparr>, w)
      else go_bind (H (lx_ah h) (Session_Data s) w) (\<lambda>((resp, err), ah', w').
             case resp of
               None \<Rightarrow> Ret ([], h\<lparr>lx_ah := ah', lx_session := None\<rparr>, w')
             | Some r \<Rightarrow>
                 go_bind (Session_FormatResponse s r) (\<lambda>chunks.
                   Ret ([chunks], h\<lparr>lx_ah := ah', lx_session := None\<rparr>, w'))))"

definition linux_Rx ::
  "('h \<Rightarrow> gslice \<Rightarrow> 'w \<Rightarrow> ((bytes option \<times> go_error option) \<times> 'h \<times> 'w) go) \<Rightarrow>
   'h linux_hidHandler \<Rightarrow> bytes \<Rightarrow> 'w \<Rightarrow> (bytes list list \<times> 'h linux_hidHandler \<times> 'w) go" where
  "linux_Rx H h input w =
     (case lx_session h of
        None \<Rightarrow>
          go_bind (NewSession input) (\<lambda>r.
            case r of
              Inl err \<Rightarrow> go_bind (notErr (Some err)) (\<lambda>_. Ret ([], h, w))
            | Inr s \<Rightarrow> linux_Rx_handle H h s w)
      | Some s \<Rightarrow>
          go_bind (Session_ReadData s input) (\<lambda>(err, s').
          go_bind (Session_FormatResponse s' (PackageResponse [] APDUCommandNotAllowed)) (\<lambda>chunks.
            Ret ([chunks], h\<lparr>lx_session := Some s'\<rparr>, w))))"

text \<open>The receive loop of \<open>main\<close>, and the transmit loop, which writes the chunks of each value in order.\<close>

fun linux_run ::
  "('h \<Rightarrow> gslice \<Rightarrow> 'w \<Rightarrow> ((bytes option \<times> go_error option) \<times> 'h \<times> 'w) go) \<Rightarrow>
   'h linux_hidHandler \<Rightarrow> bytes list \<Rightarrow> 'w \<Rightarrow> (bytes list list \<times> 'h linux_hidHandler \<times> 'w) go" where
  "linux_run H h [] w = Ret ([], h, w)"
| "linux_run H h (buf # bufs) w =
     go_bind (linux_Rx H h buf w) (\<lambda>(out, h1, w1).
     go_bind (linux_run H h1 bufs w1) (\<lambda>(outs, h2, w2). Ret (out @ outs, h2, w2)))"

definition linux_Tx :: "bytes list list \<Rightarrow> bytes list" where
  "linux_Tx values = concat values"

definition linux_main :: "cosmos_lib \<Rightarrow> ('t dumbToken, 'w) Token \<Rightarrow> 't dumbToken Cosmos Handler linux_hidHandler" where
  "linux_main L T =
     \<lparr>lx_ah = snd (Register (cosmos_App L T) NewHandler
         [\<lparr>Cosmos_Token = NewDumbToken, currentSignatureSession = None\<rparr>]),
      lx_session = None\<rparr>"

section \<open>Short requests\<close>

lemma frames_of_short: "length m \<le> 57 \<Longrightarrow> frames_of r m = [HIDFrame_encode (init_frame r (length m) m)]"
  by (simp add: frames_of_def FormatResponse_short)

lemma linux_Rx_request:
  assumes "channelID r \<noteq> 0" and "length m \<le> 57" and "lx_session h = None"
  shows "linux_run H h (frames_of r m) w =
    go_bind (H (lx_ah h) (received r m) w) (\<lambda>((resp, err), ah', w').
      Ret ((case resp of None \<Rightarrow> [] | Some b \<Rightarrow> [frames_of r b]), h\<lparr>lx_ah := ah', lx_session := None\<rparr>, w'))"
proof -
  from assms(2) have "length m \<le> 65535" by simp
  then obtain f fs s0 s where fs: "frames_of r m = f # fs" and s0: "NewSession f = Ret (Inr s0)"
    and feed: "Session_feed s0 fs = Ret (None, s)" and dat: "Session_Data s = received r m"
    and fin: "\<not> ShouldReadMore s" and ch: "channelID s = channelID r"
    by (rule frames_of_reassembled [OF assms(1)])
  from fs frames_of_short [OF assms(2)] have "fs = []" by simp
  with feed have "s = s0" by simp
  with \<open>fs = []\<close> fs s0 dat fin frames_of_channel [OF ch] assms(3) show ?thesis
    by (auto simp: linux_Rx_def linux_Rx_handle_def frames_of_eq case_prod_unfold go_bind_assoc
        split: option.split intro!: go_bind_cong)
qed

lemma linux_run_append:
  "linux_run H h (xs @ ys) w =
     go_bind (linux_run H h xs w) (\<lambda>(o1, h1, w1).
     go_bind (linux_run H h1 ys w1) (\<lambda>(o2, h2, w2). Ret (o1 @ o2, h2, w2)))"
proof (induction xs arbitrary: h w)
  case Nil
  then show ?case by (simp add: go_bind_Ret_map go.map_ident)
next
  case (Cons x xs)
  then show ?case by (simp add: go_bind_assoc case_prod_unfold)
qed

lemma map_go_observe:
  "map_go (\<lambda>p. (g (fst p), snd p)) M = N \<Longrightarrow>
   map_go (\<lambda>p. f (g (fst p)) (snd p)) M = map_go (\<lambda>q. f (fst q) (snd q)) N"
  by (auto simp: go.map_comp o_def)

lemma linux_Tx_answer:
  "linux_Tx (case resp of None \<Rightarrow> [] | Some b \<Rightarrow> [frames_of r b]) =
   (case resp of None \<Rightarrow> [] | Some b \<Rightarrow> frames_of r b)"
  by (simp add: linux_Tx_def split: option.split)

lemma linux_run_requests:
  assumes "channelID r \<noteq> 0" and "list_all (\<lambda>m. length m \<le> 57) ms" and "lx_session h = None"
  shows "map_go (\<lambda>p. (linux_Tx (fst p), snd p)) (linux_run H h (concat (map (frames_of r) ms)) w) =
         map_go (\<lambda>p. (fst p, h\<lparr>lx_ah := fst (snd p)\<rparr>, snd (snd p)))
           (serve H r (lx_ah h) (map (received r) ms) w)"
  using assms(2,3)
proof (induction ms arbitrary: h w)
  case Nil
  then show ?case by (cases h) (simp add: linux_Tx_def)
next
  case (Cons m ms)
  have upd: "h\<lparr>lx_ah := a, lx_session := None, lx_ah := a'\<rparr> = h\<lparr>lx_ah := a'\<rparr>" for a a'
    using Cons.prems(2) by (cases h) simp
  from Cons.prems have "length m \<le> 57" "list_all (\<lambda>m. length m \<le> 57) ms" by simp_all
  note IH = map_go_observe [OF Cons.IH [OF this(2)],
      of "h\<lparr>lx_ah := a, lx_session := None\<rparr>" "\<lambda>x y. (A @ x, y)" for a A]
  have "linux_Tx (A @ B) = linux_Tx A @ linux_Tx B" for A B
    by (simp add: linux_Tx_def)
  with IH \<open>length m \<le> 57\<close> Cons.prems(2) show ?case
    by (simp add: linux_run_append linux_Rx_request [OF assms(1)] go_bind_assoc map_go_bind
        case_prod_unfold go_bind_Ret_map go_bind_map go.map_comp o_def linux_Tx_answer upd)
qed

section \<open>Long requests\<close>

lemma ReadData_channel:
  assumes "channelID s \<noteq> 0" and "Session_ReadData s f = Ret (e, s')"
  shows "channelID s' = channelID s"
proof (cases e)
  case None
  with assms ReadData_next_accept(6) [of s f s'] show ?thesis
    by (auto split: if_split_asm)
next
  case (Some err)
  with assms show ?thesis using Session_ReadData_error_unchanged by blast
qed

lemma linux_Rx_open:
  assumes "lx_session h = Some s" and "channelID s \<noteq> 0"
  shows "\<exists>s'. channelID s' = channelID s \<and>
    linux_Rx H h f w =
      Ret ([[HIDFrame_encode (init_frame s 2 [0x69, 0x86])]], h\<lparr>lx_session := Some s'\<rparr>, w)"
proof -
  obtain e s' where rd: "Session_ReadData s f = Ret (e, s')"
    using Session_ReadData_no_panic by blast
  from ReadData_channel [OF assms(2) rd] have ch: "channelID s' = channelID s" .
  have "PackageResponse [] APDUCommandNotAllowed = [0x69, 0x86]"
    by code_simp
  with ch have "Session_FormatResponse s' (PackageResponse [] APDUCommandNotAllowed) =
      Ret [HIDFrame_encode (init_frame s 2 [0x69, 0x86])]"
    by (simp add: FormatResponse_short init_frame_def numeral_2_eq_2)
  with rd ch assms(1) show ?thesis
    by (auto simp: linux_Rx_def)
qed

lemma linux_run_open:
  assumes "lx_session h = Some s" and "channelID s \<noteq> 0"
  shows "\<exists>s'. linux_run H h fs w =
    Ret (replicate (length fs) [HIDFrame_encode (init_frame s 2 [0x69, 0x86])], h\<lparr>lx_session := Some s'\<rparr>, w)"
  using assms
proof (induction fs arbitrary: h s)
  case Nil
  then show ?case by (intro exI [of _ s]) simp
next
  case (Cons f fs)
  obtain t where t: "channelID t = channelID s"
    "linux_Rx H h f w =
      Ret ([[HIDFrame_encode (init_frame s 2 [0x69, 0x86])]], h\<lparr>lx_session := Some t\<rparr>, w)"
    using linux_Rx_open [OF Cons.prems, of H f w] by (elim exE conjE)
  have "init_frame t 2 [0x69, 0x86] = init_frame s 2 [0x69, 0x86]"
    by (simp add: init_frame_def t(1))
  moreover obtain s' where "linux_run H (h\<lparr>lx_session := Some t\<rparr>) fs w =
      Ret (replicate (length fs) [HIDFrame_encode (init_frame t 2 [0x69, 0x86])], h\<lparr>lx_session := Some s'\<rparr>, w)"
  proof -
    from t(1) Cons.prems(2) have "channelID t \<noteq> 0" by simp
    from Cons.IH [OF _ this, of "h\<lparr>lx_session := Some t\<rparr>"] that show thesis by auto
  qed
  ultimately show ?case
    using t(2) by auto
qed

section \<open>Properties of the Linux build\<close>

text \<open>
  C34. Requests of at most 57 bytes, one frame each, are served like on the device: what is written to
  the host, the resulting applications and the world are those
  of the firmware's loop on the same reports.
\<close>

theorem linux_short_requests:
  assumes "channelID r \<noteq> 0" and "list_all (\<lambda>m. length m \<le> 57) ms" and "lx_session h = None"
  shows "map_go (\<lambda>(out, h', w'). (linux_Tx out, lx_ah h', lx_session h', w'))
           (linux_run H h (concat (map (frames_of r) ms)) w) =
         map_go (\<lambda>(out, hh', w'). (out, ah hh', session hh', w'))
           (Rx_run H (newHidHandler (lx_ah h)) (concat (map (frames_of r) ms)) w)"
proof -
  from assms(2) have "list_all (\<lambda>m. length m \<le> 65535) ms"
    by (auto simp: list_all_iff)
  note fw = Rx_run_requests [OF assms(1) this, of "newHidHandler (lx_ah h)" H w]
  note lx = map_go_observe [OF linux_run_requests [OF assms, of H w],
      of "\<lambda>x y. (x, lx_ah (fst y), lx_session (fst y), snd y)"]
  from fw lx assms(3) show ?thesis
    by (simp add: newHidHandler_def case_prod_unfold go_bind_Ret_map go.map_comp o_def)
qed

theorem linux_short_requests_witness:
  "map_go (\<lambda>(out, h', w'). (linux_Tx out, lx_ah h', lx_session h', w'))
     (linux_run demo_wallet (linux_main demo_cosmos_lib (dumbToken_impl trace_env))
        (concat (map (frames_of (Session_fresh\<lparr>channelID := 1\<rparr>)) [[85, 0, 0, 0, 0], [85, 9, 0, 0, 0]])) ()) =
   map_go (\<lambda>(out, hh', w'). (out, ah hh', session hh', w'))
     (Rx_run demo_wallet (newHidHandler (lx_ah (linux_main demo_cosmos_lib (dumbToken_impl trace_env))))
        (concat (map (frames_of (Session_fresh\<lparr>channelID := 1\<rparr>)) [[85, 0, 0, 0, 0], [85, 9, 0, 0, 0]])) ())"
  by (rule linux_short_requests) (simp_all add: linux_main_def)

text \<open>
  C35. A request of more than 57 bytes is never served: its first frame opens a session, and from then
  on every report, the request's own follow-up frames included, is answered \<open>APDUCommandNotAllowed\<close>;
  the applications are never asked and the session never ends.
\<close>

theorem linux_long_request_stuck:
  assumes "lx_session h = None" and "NewSession f = Ret (Inr s)"
    and "57 < unat (hf_DataLengthInner (HIDFrame_decode f))"
  shows "\<exists>s'. linux_run H h (f # fs) w =
    Ret (replicate (length fs) [HIDFrame_encode (init_frame s 2 [0x69, 0x86])], h\<lparr>lx_session := Some s'\<rparr>, w)"
proof -
  have "linux_Rx H h f w = Ret ([], h\<lparr>lx_session := Some s\<rparr>, w)"
    using assms NewSession_accept(7) [OF assms(2)] by (simp add: linux_Rx_def linux_Rx_handle_def)
  with linux_run_open [of "h\<lparr>lx_session := Some s\<rparr>" s H fs w] NewSession_channel [OF assms(2)]
  show ?thesis by auto
qed

theorem linux_long_request_stuck_witness:
  "\<exists>s'. linux_run demo_wallet (linux_main demo_cosmos_lib (dumbToken_impl trace_env))
      (demo_first # [demo_next, demo_next]) () =
    Ret (replicate (length [demo_next, demo_next]) [HIDFrame_encode (init_frame demo_session 2 [0x69, 0x86])],
      linux_main demo_cosmos_lib (dumbToken_impl trace_env)\<lparr>lx_session := Some s'\<rparr>, ())"
  by (rule linux_long_request_stuck [OF _ demo_open]) (simp add: linux_main_def, code_simp)

end
