(* ===== verification/Linux_Device.thy ===== *)
theory Linux_Device
  imports Wallera_Linux
begin

text \<open>
  The two goroutines of the Linux build (\<open>src/cmd/wallera-linux/main.go\<close>).  The receiver reads a report from the
  device file, handles it and blocks in \<open>writeOutbound\<close> until the transmitter takes the value; the transmitter
  writes the chunks of a value to the device file one by one while the receiver goes on, and only then asks for
  the next value.  A panic in either of them, also that of \<open>notErr\<close> after a failed read or write, is not recovered
  and ends the whole process, with whatever the other one was doing.
\<close>

section \<open>The system\<close>

text \<open>
  \<open>ld_inbox\<close> are the results of the reads to come, \<open>ld_sending\<close> the value the receiver is blocked with,
  \<open>ld_writing\<close> the chunks the transmitter has still to write, \<open>ld_wire\<close> those written, \<open>ld_dead\<close> the panic that
  ended the process.
\<close>

record ('h, 'w) linux_device =
  ld_handler :: "'h linux_hidHandler"
  ld_world :: 'w
  ld_inbox :: "(go_error + bytes) list"
  ld_sending :: "bytes list list"
  ld_writing :: "bytes list"
  ld_wire :: "bytes list"
  ld_dead :: "panic option"

text \<open>The argument \<open>wr\<close> is the result of writing a chunk after the chunks already written.\<close>

inductive linux_step ::
  "('h \<Rightarrow> gslice \<Rightarrow> 'w \<Rightarrow> ((bytes option \<times> go_error option) \<times> 'h \<times> 'w) go) \<Rightarrow>
   (bytes list \<Rightarrow> bytes \<Rightarrow> go_error option) \<Rightarrow> ('h, 'w) linux_device \<Rightarrow> ('h, 'w) linux_device \<Rightarrow> bool"
  for H wr where
    lx_rx: "ld_dead d = None \<Longrightarrow> ld_sending d = [] \<Longrightarrow> ld_inbox d = Inr f # fs \<Longrightarrow>
      linux_Rx H (ld_handler d) f (ld_world d) = Ret (out, h', w') \<Longrightarrow>
      linux_step H wr d (d\<lparr>ld_handler := h', ld_world := w', ld_inbox := fs, ld_sending := out\<rparr>)"
  | lx_rx_panics: "ld_dead d = None \<Longrightarrow> ld_sending d = [] \<Longrightarrow> ld_inbox d = Inr f # fs \<Longrightarrow>
      linux_Rx H (ld_handler d) f (ld_world d) = Panic p \<Longrightarrow> linux_step H wr d (d\<lparr>ld_dead := Some p\<rparr>)"
  | lx_read_fails: "ld_dead d = None \<Longrightarrow> ld_sending d = [] \<Longrightarrow> ld_inbox d = Inl e # fs \<Longrightarrow>
      notErr (Some e) = Panic p \<Longrightarrow> linux_step H wr d (d\<lparr>ld_dead := Some p\<rparr>)"
  | lx_channel: "ld_dead d = None \<Longrightarrow> ld_sending d = v # vs \<Longrightarrow> ld_writing d = [] \<Longrightarrow>
      linux_step H wr d (d\<lparr>ld_sending := vs, ld_writing := v\<rparr>)"
  | lx_write: "ld_dead d = None \<Longrightarrow> ld_writing d = c # cs \<Longrightarrow> wr (ld_wire d) c = None \<Longrightarrow>
      linux_step H wr d (d\<lparr>ld_writing := cs, ld_wire := ld_wire d @ [c]\<rparr>)"
  | lx_write_fails: "ld_dead d = None \<Longrightarrow> ld_writing d = c # cs \<Longrightarrow> wr (ld_wire d) c = Some e \<Longrightarrow>
      notErr (Some e) = Panic p \<Longrightarrow> linux_step H wr d (d\<lparr>ld_dead := Some p\<rparr>)"

inductive_cases linux_stepE: "linux_step H wr d d'"

definition linux_started :: "'h linux_hidHandler \<Rightarrow> 'w \<Rightarrow> (go_error + bytes) list \<Rightarrow> ('h, 'w) linux_device" where
  "linux_started h w rs =
     \<lparr>ld_handler = h, ld_world = w, ld_inbox = rs, ld_sending = [], ld_writing = [], ld_wire = [], ld_dead = None\<rparr>"

section \<open>Order\<close>

text \<open>What has been written and what is on its way is the output of the reports handled so far, in order.\<close>

definition linux_inv where
  "linux_inv H h w rs d \<longleftrightarrow>
     (\<exists>got outs. rs = map Inr got @ ld_inbox d \<and> linux_run H h got w = Ret (outs, ld_handler d, ld_world d) \<and>
        linux_Tx outs = ld_wire d @ ld_writing d @ concat (ld_sending d))"

text \<open>Why a process has ended.\<close>

definition linux_cause where
  "linux_cause H wr d p \<longleftrightarrow>
     (case ld_writing d of [] \<Rightarrow> False | c # _ \<Rightarrow> wr (ld_wire d) c \<noteq> None) \<or>
     (ld_sending d = [] \<and>
      (case ld_inbox d of
         [] \<Rightarrow> False
       | Inl e # _ \<Rightarrow> True
       | Inr f # _ \<Rightarrow> linux_Rx H (ld_handler d) f (ld_world d) = Panic p))"

lemma linux_inv_start: "linux_inv H h w rs (linux_started h w rs)"
  by (simp add: linux_inv_def linux_started_def linux_Tx_def)

lemma linux_inv_step: "linux_inv H h w rs d \<Longrightarrow> linux_step H wr d d' \<Longrightarrow> linux_inv H h w rs d'"
proof (erule linux_stepE)
  fix f fs out h' w'
  assume inv: "linux_inv H h w rs d" and *: "ld_sending d = []" "ld_inbox d = Inr f # fs"
    "linux_Rx H (ld_handler d) f (ld_world d) = Ret (out, h', w')"
    "d' = d\<lparr>ld_handler := h', ld_world := w', ld_inbox := fs, ld_sending := out\<rparr>"
  from inv obtain got outs where "rs = map Inr got @ ld_inbox d" "linux_run H h got w = Ret (outs, ld_handler d, ld_world d)"
    "linux_Tx outs = ld_wire d @ ld_writing d @ concat (ld_sending d)" by (auto simp: linux_inv_def)
  with * show "linux_inv H h w rs d'"
    by (auto simp: linux_inv_def linux_run_append linux_Tx_def intro!: exI [of _ "got @ [f]"])
qed (auto simp: linux_inv_def)

lemma linux_inv_reachable: "(linux_step H wr)\<^sup>*\<^sup>* (linux_started h w rs) d \<Longrightarrow> linux_inv H h w rs d"
  by (induction rule: rtranclp_induct) (auto intro: linux_inv_start linux_inv_step)

lemma linux_cause_reachable:
  "(linux_step H wr)\<^sup>*\<^sup>* (linux_started h w rs) d \<Longrightarrow> ld_dead d = Some p \<Longrightarrow> linux_cause H wr d p"
proof (induction rule: rtranclp_induct)
  case (step d d')
  from step.hyps(2) step.prems show ?case by cases (auto simp: linux_cause_def split: list.split sum.split)
qed (simp add: linux_started_def)

section \<open>Termination\<close>

definition ld_measure :: "('h, 'w) linux_device \<Rightarrow> nat \<times> nat \<times> nat \<times> nat" where
  "ld_measure d =
     (if ld_dead d = None then 1 else 0, length (ld_inbox d), length (ld_sending d), length (ld_writing d))"

lemma linux_step_wf: "wfp (\<lambda>d' d. linux_step H wr d d')"
proof -
  have "{(d', d). linux_step H wr d d'} \<subseteq> inv_image (less_than <*lex*> less_than <*lex*> less_than <*lex*> less_than) ld_measure"
    by (auto simp: ld_measure_def elim!: linux_stepE)
  then show ?thesis unfolding wfp_def by (rule wf_subset [rotated]) auto
qed

lemma linux_stuck_iff:
  "(\<nexists>d'. linux_step H wr d d') \<longleftrightarrow>
     ld_dead d \<noteq> None \<or> ld_sending d = [] \<and> ld_writing d = [] \<and> ld_inbox d = []"
proof
  assume stuck: "\<nexists>d'. linux_step H wr d d'"
  show "ld_dead d \<noteq> None \<or> ld_sending d = [] \<and> ld_writing d = [] \<and> ld_inbox d = []"
  proof (cases "ld_dead d")
    case None
    have "ld_writing d = []"
    proof (cases "ld_writing d")
      case (Cons c cs)
      then show ?thesis
        using stuck lx_write [OF None Cons, of wr H] lx_write_fails [OF None Cons, of wr _ _ H] by (cases "wr (ld_wire d) c") (auto simp: notErr_def)
    qed simp
    moreover from this stuck have "ld_sending d = []" using lx_channel [OF None] by (cases "ld_sending d") blast+
    moreover have "ld_inbox d = []"
    proof (cases "ld_inbox d")
      case (Cons r rs)
      note rd = lx_read_fails [OF None \<open>ld_sending d = []\<close>, of _ rs _ H wr]
        lx_rx [OF None \<open>ld_sending d = []\<close>, of _ rs H _ _ _ wr]
        lx_rx_panics [OF None \<open>ld_sending d = []\<close>, of _ rs H _ wr]
      show ?thesis
      proof (cases r)
        case (Inl e)
        with Cons rd(1) stuck show ?thesis by (auto simp: notErr_def)
      next
        case (Inr f)
        with Cons have box: "ld_inbox d = Inr f # rs" by simp
        show ?thesis
        proof (cases "linux_Rx H (ld_handler d) f (ld_world d)")
          case (Ret x)
          with rd(2) [OF box] stuck show ?thesis by (cases x) auto
        next
          case (Panic p)
          with rd(3) [OF box] stuck show ?thesis by blast
        qed
      qed
    qed simp
    ultimately show ?thesis by blast
  qed simp
qed (auto elim!: linux_stepE)

lemma linux_rests: "\<exists>d'. (linux_step H wr)\<^sup>*\<^sup>* d d' \<and> (\<nexists>d''. linux_step H wr d' d'')"
  using linux_step_wf [of H wr]
proof (induction d rule: wfp_induct_rule)
  case (less d)
  then show ?case by (metis converse_rtranclp_into_rtranclp rtranclp.rtrancl_refl)
qed

section \<open>Properties of the two goroutines\<close>


text \<open>When reads and writes work and no report makes \<open>Rx\<close> panic, the process stays alive.\<close>

lemma linux_stays_alive:
  assumes "(linux_step H wr)\<^sup>*\<^sup>* (linux_started h w (map Inr bufs)) d"
    and "linux_run H h bufs w = Ret (outs, h', w')" and "\<And>q c. wr q c = None"
  shows "ld_dead d = None" and "\<exists>rest. linux_Tx outs = ld_wire d @ rest"
    and "(\<nexists>d'. linux_step H wr d d') \<Longrightarrow> d = (linux_started h' w' [])\<lparr>ld_wire := linux_Tx outs\<rparr>"
proof -
  from linux_inv_reachable [OF assms(1)] obtain got o1 where got: "map Inr bufs = map Inr got @ ld_inbox d"
    "linux_run H h got w = Ret (o1, ld_handler d, ld_world d)" "linux_Tx o1 = ld_wire d @ ld_writing d @ concat (ld_sending d)"
    unfolding linux_inv_def by blast
  from got(1) obtain more where more: "bufs = got @ more" "ld_inbox d = map Inr more"
    by (auto simp: map_eq_append_conv inj_map_eq_map)
  with assms(2) got(2) obtain o2 where run: "linux_run H (ld_handler d) more (ld_world d) = Ret (o2, h', w')" "outs = o1 @ o2"
    by (auto simp: linux_run_append elim!: go_bind_RetE)
  then show "\<exists>rest. linux_Tx outs = ld_wire d @ rest" using got(3) by (simp add: linux_Tx_def)
  show alive: "ld_dead d = None"
  proof (rule ccontr)
    assume "ld_dead d \<noteq> None"
    then obtain p where "linux_cause H wr d p" using linux_cause_reachable [OF assms(1)] by blast
    with assms(3) run(1) more(2) show False
      by (auto simp: linux_cause_def split: list.splits sum.splits elim!: go_bind_RetE)
  qed
  assume "\<nexists>d'. linux_step H wr d d'"
  with alive have rest: "ld_sending d = []" "ld_writing d = []" "ld_inbox d = []" unfolding linux_stuck_iff by blast+
  with more run got(3) alive show "d = (linux_started h' w' [])\<lparr>ld_wire := linux_Tx outs\<rparr>"
    by (cases d) (simp add: linux_started_def)
qed

text \<open>
  C15. Short requests are answered under every schedule: when the device file works, the handler does not panic and the
  reports are those of any sequence of requests of at most 57 bytes, the chunks written are at every moment a prefix of the
  handler's answers cut into frames; every schedule is finite, none ends before all answers are written, and all end in
  the same state, with the process alive, no session open and the applications as the handler left them.
\<close>

theorem linux_requests_delivered:
  assumes "channelID r \<noteq> 0" and "list_all (\<lambda>m. length m \<le> 57) ms" and "lx_session h = None"
    and "serve H r (lx_ah h) (map (received r) ms) w = Ret (out, ah', w')" and "\<And>q c. wr q c = None"
    and "(linux_step H wr)\<^sup>*\<^sup>* (linux_started h w (map Inr (concat (map (frames_of r) ms)))) d"
  shows "ld_dead d = None \<and> (\<exists>rest. out = ld_wire d @ rest) \<and> wfp (\<lambda>d' d. linux_step H wr d d') \<and>
    ((\<exists>d'. linux_step H wr d d') \<or> d = (linux_started (h\<lparr>lx_ah := ah'\<rparr>) w' [])\<lparr>ld_wire := out\<rparr>) \<and>
    (linux_step H wr)\<^sup>*\<^sup>* d ((linux_started (h\<lparr>lx_ah := ah'\<rparr>) w' [])\<lparr>ld_wire := out\<rparr>)"
proof -
  let ?bufs = "concat (map (frames_of r) ms)"
  from linux_run_requests [OF assms(1-3), of H w] assms(4) obtain outs where
    run: "linux_run H h ?bufs w = Ret (outs, h\<lparr>lx_ah := ah'\<rparr>, w')" and out: "linux_Tx outs = out"
    by (cases "linux_run H h ?bufs w") auto
  note alive = linux_stays_alive [OF _ run assms(5), unfolded out]
  from linux_rests [of H wr d] obtain e where e: "(linux_step H wr)\<^sup>*\<^sup>* d e" "\<nexists>e'. linux_step H wr e e'" by blast
  with assms(6) have "(linux_step H wr)\<^sup>*\<^sup>* (linux_started h w (map Inr ?bufs)) e" by auto
  from alive(3) [OF this e(2)] e(1) alive [OF assms(6)] linux_step_wf [of H wr] show ?thesis by auto
qed

text \<open>A request of a class nobody has registered.\<close>

lemma demo_serve_unknown:
  "serve demo_wallet (Session_fresh\<lparr>channelID := 257\<rparr>) (lx_ah (linux_main demo_cosmos_lib (dumbToken_impl trace_env)))
     (map (received (Session_fresh\<lparr>channelID := 257\<rparr>)) [[16, 9, 0, 0, 0]]) () =
   Ret (frames_of (Session_fresh\<lparr>channelID := 257\<rparr>) [0x6e, 0], lx_ah (linux_main demo_cosmos_lib (dumbToken_impl trace_env)), ())"
  using demo_boot_unknown by (simp add: linux_main_def firmware_main_def newHidHandler_def)

theorem linux_requests_delivered_witness:
  "(linux_step demo_wallet (\<lambda>q c. None))\<^sup>*\<^sup>*
     (linux_started (linux_main demo_cosmos_lib (dumbToken_impl trace_env)) ()
       (map Inr (concat (map (frames_of (Session_fresh\<lparr>channelID := 257\<rparr>)) [[16, 9, 0, 0, 0]]))))
     ((linux_started (linux_main demo_cosmos_lib (dumbToken_impl trace_env)) () [])
       \<lparr>ld_wire := frames_of (Session_fresh\<lparr>channelID := 257\<rparr>) [0x6e, 0]\<rparr>)"
proof -
  let ?h = "linux_main demo_cosmos_lib (dumbToken_impl trace_env)"
  have "?h\<lparr>lx_ah := lx_ah ?h\<rparr> = ?h" "lx_session ?h = None" by (simp_all add: linux_main_def)
  with linux_requests_delivered [OF _ _ _ demo_serve_unknown _ rtranclp.rtrancl_refl, of "\<lambda>q c. None"] show ?thesis
    by simp
qed


section \<open>An answer that is lost\<close>

lemma linux_writes:
  assumes "ld_dead d = None" and "\<And>q c. wr q c = None"
  shows "(linux_step H wr)\<^sup>*\<^sup>* d (d\<lparr>ld_writing := [], ld_wire := ld_wire d @ ld_writing d\<rparr>)"
  using assms(1)
proof (induction "ld_writing d" arbitrary: d)
  case Nil
  then have "d\<lparr>ld_writing := [], ld_wire := ld_wire d @ ld_writing d\<rparr> = d" by (cases d) simp
  then show ?case by simp
next
  case (Cons c cs)
  let ?d = "d\<lparr>ld_writing := cs, ld_wire := ld_wire d @ [c]\<rparr>"
  from Cons.hyps(2) Cons.prems assms(2) have "linux_step H wr d ?d" by (intro lx_write) simp_all
  moreover have "(linux_step H wr)\<^sup>*\<^sup>* ?d (d\<lparr>ld_writing := [], ld_wire := ld_wire d @ ld_writing d\<rparr>)"
    using Cons.hyps(1) [of ?d] Cons.prems by (simp flip: Cons.hyps(2))
  ultimately show ?case by (rule converse_rtranclp_into_rtranclp)
qed

lemma linux_Rx_malformed: "lx_session h = None \<Longrightarrow> NewSession f = Ret (Inl e) \<Longrightarrow> linux_Rx H h f w = Panic (ExplicitPanic ''notErr'')"
  by (simp add: linux_Rx_def notErr_def)

text \<open>A process that reads a report \<open>Rx\<close> panics on, after reports it handles, can only end by that panic.\<close>

lemma linux_must_die:
  assumes "(linux_step H wr)\<^sup>*\<^sup>* (linux_started h w [Inr f, Inr bad]) d" and "\<nexists>d'. linux_step H wr d d'"
    and "linux_Rx H h f w = Ret (out, h', w')" and "linux_Rx H h' bad w' = Panic p" and "\<And>q c. wr q c = None"
  shows "ld_dead d = Some p"
proof -
  from linux_inv_reachable [OF assms(1)] obtain got o1 where got: "[Inr f, Inr bad] = map Inr got @ ld_inbox d"
    "linux_run H h got w = Ret (o1, ld_handler d, ld_world d)" unfolding linux_inv_def by blast
  from got(1) consider "got = []" "ld_inbox d = [Inr f, Inr bad]" | "got = [f]" "ld_inbox d = [Inr bad]" | "got = [f, bad]"
    by (auto simp: Cons_eq_append_conv append_eq_Cons_conv map_eq_Cons_conv)
  then show ?thesis
  proof cases
    case 1
    with got(2) have "\<not> linux_cause H wr d p" for p
      using assms(3,5) by (auto simp: linux_cause_def split: list.split)
    with 1 linux_cause_reachable [OF assms(1)] assms(2) show ?thesis unfolding linux_stuck_iff by auto
  next
    case 2
    with got(2) assms(3) have "ld_handler d = h'" "ld_world d = w'" by simp_all
    with 2 assms(4,5) have "linux_cause H wr d q \<Longrightarrow> q = p" for q by (auto simp: linux_cause_def split: list.splits)
    with 2 linux_cause_reachable [OF assms(1)] assms(2) show ?thesis unfolding linux_stuck_iff by auto
  next
    case 3
    with got(2) assms(3,4) show ?thesis by simp
  qed
qed

text \<open>
  C17. A malformed report can cost the answer before it: when a request of at most 57 bytes is followed by a report that
  is no first frame, the process always dies of the panic of \<open>notErr\<close>, which nothing recovers; whether the answer to
  the request has been written by then depends on the schedule: one schedule has written none of its chunks and
  another one all of them.
\<close>

theorem linux_panic_may_lose_answer:
  assumes "channelID r \<noteq> 0" and "length m \<le> 57" and "lx_session h = None"
    and "H (lx_ah h) (received r m) w = Ret ((Some b, err), ah', w')"
    and "NewSession bad = Ret (Inl e)" and "\<And>q c. wr q c = None"
  shows "\<exists>d1 d2. (linux_step H wr)\<^sup>*\<^sup>* (linux_started h w (map Inr (frames_of r m) @ [Inr bad])) d1 \<and>
    (linux_step H wr)\<^sup>*\<^sup>* (linux_started h w (map Inr (frames_of r m) @ [Inr bad])) d2 \<and>
    ld_dead d1 = Some (ExplicitPanic ''notErr'') \<and> ld_wire d1 = [] \<and>
    ld_dead d2 = Some (ExplicitPanic ''notErr'') \<and> ld_wire d2 = frames_of r b \<and>
    (\<forall>d. (linux_step H wr)\<^sup>*\<^sup>* (linux_started h w (map Inr (frames_of r m) @ [Inr bad])) d \<and> (\<nexists>d'. linux_step H wr d d') \<longrightarrow>
       ld_dead d = Some (ExplicitPanic ''notErr''))"
proof -
  obtain f where f: "frames_of r m = [f]" using frames_of_short [OF assms(2), of r] by blast
  let ?h = "h\<lparr>lx_ah := ah', lx_session := None\<rparr>"
  let ?d0 = "linux_started h w [Inr f, Inr bad]" and ?da = "(linux_started ?h w' [Inr bad])\<lparr>ld_sending := [frames_of r b]\<rparr>"
  let ?db = "(linux_started ?h w' [Inr bad])\<lparr>ld_writing := frames_of r b\<rparr>"
  let ?dc = "?db\<lparr>ld_writing := [], ld_wire := frames_of r b\<rparr>"
  have rx: "linux_Rx H h f w = Ret ([frames_of r b], ?h, w')"
    using linux_Rx_request [OF assms(1-3), of H w] assms(4) f by (auto elim!: go_bind_RetE)
  have "linux_step H wr ?d0 ?da" using lx_rx [of ?d0 f _ H _ _ _ wr] rx by (simp add: linux_started_def)
  moreover have "linux_step H wr ?da ?db" using lx_channel [of ?da "frames_of r b" "[]" H wr] by (simp add: linux_started_def)
  ultimately have db: "(linux_step H wr)\<^sup>*\<^sup>* ?d0 ?db" by auto
  also have "(linux_step H wr)\<^sup>*\<^sup>* ?db ?dc" using linux_writes [of ?db wr H] assms(6) by (simp add: linux_started_def)
  finally have dc: "(linux_step H wr)\<^sup>*\<^sup>* ?d0 ?dc" .
  let ?died = "\<lambda>d. d\<lparr>ld_dead := Some (ExplicitPanic ''notErr'')\<rparr>"
  have "linux_step H wr ?db (?died ?db)" "linux_step H wr ?dc (?died ?dc)"
    using linux_Rx_malformed [OF _ assms(5), of ?h H w'] by (intro lx_rx_panics; simp add: linux_started_def)+
  then have "(linux_step H wr)\<^sup>*\<^sup>* ?d0 (?died ?db)" "(linux_step H wr)\<^sup>*\<^sup>* ?d0 (?died ?dc)"
    using db dc by (blast intro: rtranclp.rtrancl_into_rtrancl)+
  moreover have "ld_dead d = Some (ExplicitPanic ''notErr'')"
    if "(linux_step H wr)\<^sup>*\<^sup>* ?d0 d" "\<nexists>d'. linux_step H wr d d'" for d
    using linux_must_die [OF that rx linux_Rx_malformed [OF _ assms(5)] assms(6)] by simp
  ultimately show ?thesis
    unfolding f by (intro exI [of _ "?died ?db"] exI [of _ "?died ?dc"]) (simp add: linux_started_def)
qed

theorem linux_panic_may_lose_answer_witness:
  "\<exists>d1 d2. ld_dead d1 = Some (ExplicitPanic ''notErr'') \<and> ld_wire d1 = [] \<and>
     ld_wire d2 = frames_of (Session_fresh\<lparr>channelID := 257\<rparr>) [0x6e, 0] \<and>
     (linux_step (\<lambda>h g w. Ret ((Some [0x6e, 0], None), h, w)) (\<lambda>q c. None))\<^sup>*\<^sup>*
       (linux_started \<lparr>lx_ah = (), lx_session = None\<rparr> ()
         (map Inr (frames_of (Session_fresh\<lparr>channelID := 257\<rparr>) [16, 9, 0, 0, 0]) @ [Inr []])) d1 \<and>
     (linux_step (\<lambda>h g w. Ret ((Some [0x6e, 0], None), h, w)) (\<lambda>q c. None))\<^sup>*\<^sup>*
       (linux_started \<lparr>lx_ah = (), lx_session = None\<rparr> ()
         (map Inr (frames_of (Session_fresh\<lparr>channelID := 257\<rparr>) [16, 9, 0, 0, 0]) @ [Inr []])) d2"
proof -
  let ?H = "\<lambda>h g w. Ret ((Some [0x6e :: byte, 0], None :: go_error option), h, w)"
  obtain e where "NewSession [] = Ret (Inl e)"
    using NewSession_no_panic [of "[]"] NewSession_accept(1) [of "[]"] by (metis list.size(3) sum.exhaust zero_neq_numeral)
  from linux_panic_may_lose_answer [where r = "Session_fresh\<lparr>channelID := 257\<rparr>" and m = "[16, 9, 0, 0, 0]" and
      h = "\<lparr>lx_ah = (), lx_session = None\<rparr>" and H = ?H and w = "()" and wr = "\<lambda>q c. None", OF _ _ _ refl this]
  show ?thesis by (auto simp del: map_append)
qed

end
