(* ===== verification/Linux_Setup.thy ===== *)
theory Linux_Setup
  imports Wallera_Linux
begin

text \<open>
  The start of the Linux build (\<open>src/cmd/wallera-linux/main.go\<close>) and its gadget set-up (\<open>gadget_hid.go\<close>): what
  \<open>main\<close> does with its flags before it polls.  The C library libusbgx and the file system are the argument
  \<open>linux_os\<close>; the flags are given parsed, see \<open>Linux_Flags\<close>.
\<close>

record args =
  hidg :: string
  configfsPath :: string
  mustClean :: bool
  mustSetupHidg :: bool

definition default_args :: args where
  "default_args = \<lparr>hidg = ''/dev/hidg0'', configfsPath = ''/sys/kernel/config'', mustClean = False, mustSetupHidg = False\<rparr>"

record hidg_strings =
  hs_serial :: string
  hs_manufacturer :: string
  hs_product :: string

record 'w linux_os =
  os_Stat :: "string \<Rightarrow> 'w \<Rightarrow> go_error option"
  os_ErrNotExist :: go_error
  os_OpenFile :: "string \<Rightarrow> 'w \<Rightarrow> go_error option \<times> 'w"
  configure_hidg :: "hidg_strings \<Rightarrow> string \<Rightarrow> bytes \<Rightarrow> nat \<Rightarrow> 'w \<Rightarrow> int \<times> 'w"
  cleanup_usbg :: "string \<Rightarrow> 'w \<Rightarrow> 'w"
  USBG_SUCCESS :: int
  usbg_error_name :: "int \<Rightarrow> string"
  usbg_strerror :: "int \<Rightarrow> string"

definition hidgExists :: "'w linux_os \<Rightarrow> string \<Rightarrow> 'w \<Rightarrow> bool" where
  "hidgExists os path w =
     (case os_Stat os path w of None \<Rightarrow> True | Some err \<Rightarrow> \<not> errors_Is err (os_ErrNotExist os))"

definition configureHidg :: "'w linux_os \<Rightarrow> string \<Rightarrow> 'w \<Rightarrow> go_error option \<times> 'w" where
  "configureHidg os path w =
     (let (res, w') = configure_hidg os \<lparr>hs_serial = ''0001'', hs_manufacturer = ''Ledger'', hs_product = ''Nano X''\<rparr>
            path LedgerNanoXReport (length LedgerNanoXReport) w
      in if res \<noteq> USBG_SUCCESS os
         then (Some (Errorf (''libusbgx failure, '' @ usbg_error_name os res @ '': '' @ usbg_strerror os res) []), w')
         else (None, w'))"

definition cleanupHidg :: "'w linux_os \<Rightarrow> string \<Rightarrow> 'w \<Rightarrow> go_error option \<times> 'w" where
  "cleanupHidg os path w = (None, cleanup_usbg os path w)"

datatype linux_outcome = Exited | Polling

text \<open>\<open>main\<close> up to the two polling loops, which \<open>linux_run\<close> and \<open>linux_Tx\<close> model.\<close>

definition linux_start :: "'w linux_os \<Rightarrow> args \<Rightarrow> 'w \<Rightarrow> (linux_outcome \<times> 'w) go" where
  "linux_start os a w =
     (if mustClean a
      then case cleanupHidg os (configfsPath a) w of
             (Some err, w1) \<Rightarrow> Panic (ExplicitPanic (error_text err))
           | (None, w1) \<Rightarrow> Ret (Exited, w1)
      else
        let shouldSetupHidg = (\<not> hidgExists os (hidg a) w \<or> mustClean a)
        in go_bind
             (if shouldSetupHidg
              then case configureHidg os (configfsPath a) w of
                     (Some err, w1) \<Rightarrow> Panic (ExplicitPanic (error_text err))
                   | (None, w1) \<Rightarrow> Ret w1
              else Ret w)
             (\<lambda>w1.
                if mustSetupHidg a then Ret (Exited, w1)
                else let (err, w2) = os_OpenFile os (hidg a) w1
                     in go_bind (notErr err) (\<lambda>_. Ret (Polling, w2))))"

text \<open>
  When the program polls: neither flag is given, the gadget exists or could be set up, and its device file opens.
\<close>

lemma linux_start_polls_iff:
  "linux_start os a w = Ret (Polling, w') \<longleftrightarrow>
     \<not> mustClean a \<and> \<not> mustSetupHidg a \<and>
     (\<exists>w1. (if hidgExists os (hidg a) w then w1 = w else configureHidg os (configfsPath a) w = (None, w1)) \<and>
        os_OpenFile os (hidg a) w1 = (None, w'))"
  by (auto simp: linux_start_def notErr_def Let_def cleanupHidg_def split: prod.splits option.splits)

text \<open>
  The flag \<open>-setup\<close> does nothing when the device file exists, also for a gadget that is not this program's.
\<close>

lemma linux_setup_skipped:
  "mustSetupHidg a \<Longrightarrow> \<not> mustClean a \<Longrightarrow> hidgExists os (hidg a) w \<Longrightarrow> linux_start os a w = Ret (Exited, w)"
  by (simp add: linux_start_def)

end
