(* ===== verification/Linux_Flags.thy ===== *)
theory Linux_Flags
  imports Linux_Setup
begin

text \<open>
  The command line of the Linux build (\<open>cliArgs\<close> of \<open>src/cmd/wallera-linux/main.go\<close>).  The package \<open>flag\<close> of the
  standard library is modelled as the program uses it: \<open>StringVar\<close> and \<open>BoolVar\<close> declare a flag, \<open>Parse\<close> reads
  \<open>os.Args[1:]\<close> with \<open>ExitOnError\<close>.  A string is a list of characters, of which the parser only looks at
  \<open>-\<close> and \<open>=\<close>.
\<close>

section \<open>The package flag\<close>

text \<open>A declared flag says how its value changes the program's variables.\<close>

datatype 'a flag_var = StringVar "string \<Rightarrow> 'a \<Rightarrow> 'a" | BoolVar "bool \<Rightarrow> 'a \<Rightarrow> 'a"

type_synonym 'a flag_set = "(string \<times> 'a flag_var) list"

datatype flag_error =
    ErrHelp
  | BadFlagSyntax string
  | NotDefined string
  | InvalidBoolean string string
  | NeedsArgument string

definition exit_status :: "flag_error \<Rightarrow> nat" where
  "exit_status e = (if e = ErrHelp then 0 else 2)"

definition ParseBool :: "string \<Rightarrow> bool option" where
  "ParseBool s =
     (if s \<in> set [''1'', ''t'', ''T'', ''TRUE'', ''true'', ''True''] then Some True
      else if s \<in> set [''0'', ''f'', ''F'', ''FALSE'', ''false'', ''False''] then Some False
      else None)"

text \<open>The value of an argument starts after its first equals sign, which is never its first character.\<close>

definition split_value :: "string \<Rightarrow> string \<times> string option" where
  "split_value s =
     (let k = length (takeWhile (\<lambda>c. c \<noteq> CHR ''='') (tl s)) + 1
      in if k < length s then (take k s, Some (drop (k + 1) s)) else (s, None))"

text \<open>One round of \<open>parseOne\<close>: the flags are over, an error, or one more flag is set.\<close>

datatype 'a parse_step = FlagsOver "string list" | ParseFails flag_error | FlagSet "string list" 'a

definition set_flag :: "'a flag_set \<Rightarrow> string \<Rightarrow> string option \<Rightarrow> string list \<Rightarrow> 'a \<Rightarrow> 'a parse_step" where
  "set_flag fs name hasValue rest a =
     (case map_of fs name of
        None \<Rightarrow> ParseFails (if name = ''help'' \<or> name = ''h'' then ErrHelp else NotDefined name)
      | Some (BoolVar f) \<Rightarrow>
          (case hasValue of
             None \<Rightarrow> FlagSet rest (f True a)
           | Some v \<Rightarrow> (case ParseBool v of None \<Rightarrow> ParseFails (InvalidBoolean v name) | Some b \<Rightarrow> FlagSet rest (f b a)))
      | Some (StringVar f) \<Rightarrow>
          (case hasValue of
             Some v \<Rightarrow> FlagSet rest (f v a)
           | None \<Rightarrow> (case rest of [] \<Rightarrow> ParseFails (NeedsArgument name) | v # rest' \<Rightarrow> FlagSet rest' (f v a))))"

fun parseOne :: "'a flag_set \<Rightarrow> string list \<Rightarrow> 'a \<Rightarrow> 'a parse_step" where
  "parseOne fs [] a = FlagsOver []"
| "parseOne fs (s # rest) a =
     (if length s < 2 \<or> s ! 0 \<noteq> CHR ''-'' then FlagsOver (s # rest)
      else if s = ''--'' then FlagsOver rest
      else let name = drop (if s ! 1 = CHR ''-'' then 2 else 1) s
           in if name = [] \<or> hd name = CHR ''-'' \<or> hd name = CHR ''='' then ParseFails (BadFlagSyntax s)
              else let (n, v) = split_value name in set_flag fs n v rest a)"

lemma set_flag_shorter: "set_flag fs n v rest a = FlagSet args' a' \<Longrightarrow> length args' \<le> length rest"
  by (auto simp: set_flag_def split: option.splits flag_var.splits list.splits)

lemma parseOne_shorter: "parseOne fs args a = FlagSet args' a' \<Longrightarrow> length args' < length args"
  by (cases args) (auto simp: Let_def less_Suc_eq_le dest!: set_flag_shorter split: if_splits prod.splits)

text \<open>\<open>Parse\<close> gives the variables and the arguments that are left, which are \<open>flag.Args()\<close>.\<close>

function flag_Parse :: "'a flag_set \<Rightarrow> string list \<Rightarrow> 'a \<Rightarrow> flag_error + ('a \<times> string list)" where
  "flag_Parse fs args a =
     (case parseOne fs args a of
        FlagsOver left \<Rightarrow> Inr (a, left)
      | ParseFails e \<Rightarrow> Inl e
      | FlagSet args' a' \<Rightarrow> flag_Parse fs args' a')"
  by pat_completeness auto

termination flag_Parse
  by (relation "measure (\<lambda>(fs, args, a). length args)") (auto dest: parseOne_shorter)

declare flag_Parse.simps [simp del]

section \<open>The flags of the program\<close>

definition cli_flags :: "args flag_set" where
  "cli_flags =
     [(''hidg'', StringVar (\<lambda>v a. a\<lparr>hidg := v\<rparr>)),
      (''configfs-path'', StringVar (\<lambda>v a. a\<lparr>configfsPath := v\<rparr>)),
      (''clean'', BoolVar (\<lambda>b a. a\<lparr>mustClean := b\<rparr>)),
      (''setup'', BoolVar (\<lambda>b a. a\<lparr>mustSetupHidg := b\<rparr>))]"

definition cliArgs :: "string list \<Rightarrow> flag_error + args" where
  "cliArgs argv = (case flag_Parse cli_flags argv default_args of Inl e \<Rightarrow> Inl e | Inr (a, left) \<Rightarrow> Inr a)"

text \<open>\<open>main\<close> from its arguments to its polling loops.  A bad command line exits before anything is touched.\<close>

datatype linux_end = UsageExit nat | Started linux_outcome

definition linux_program :: "'w linux_os \<Rightarrow> string list \<Rightarrow> 'w \<Rightarrow> (linux_end \<times> 'w) go" where
  "linux_program os argv w =
     (case cliArgs argv of
        Inl e \<Rightarrow> Ret (UsageExit (exit_status e), w)
      | Inr a \<Rightarrow> go_bind (linux_start os a w) (\<lambda>(out, w'). Ret (Started out, w')))"

section \<open>Reading back a command line\<close>

lemma split_value_eq:
  assumes "CHR ''='' \<notin> set n" "n \<noteq> []"
  shows "split_value (n @ CHR ''='' # v) = (n, Some v)" "split_value n = (n, None)"
proof -
  obtain c n' where n: "n = c # n'" using assms(2) by (cases n) auto
  have all: "takeWhile (\<lambda>c. c \<noteq> CHR ''='') n' = n'"
    using assms(1) n by (auto simp: takeWhile_eq_all_conv)
  have "takeWhile (\<lambda>c. c \<noteq> CHR ''='') (n' @ CHR ''='' # v) = n'"
    using assms(1) n by (subst takeWhile_append2) auto
  then show "split_value (n @ CHR ''='' # v) = (n, Some v)" "split_value n = (n, None)"
    by (simp_all add: split_value_def n all)
qed

definition flag_name :: "string \<Rightarrow> bool" where
  "flag_name n \<longleftrightarrow> n \<noteq> [] \<and> hd n \<noteq> CHR ''-'' \<and> CHR ''='' \<notin> set n"

lemma parseOne_flag:
  assumes "flag_name n"
  shows "parseOne fs ((CHR ''-'' # n @ CHR ''='' # v) # rest) a = set_flag fs n (Some v) rest a"
    and "parseOne fs ((CHR ''-'' # n) # rest) a = set_flag fs n None rest a"
proof -
  from assms obtain c n' where n: "n = c # n'" "c \<noteq> CHR ''-''" "c \<noteq> CHR ''=''"
    unfolding flag_name_def by (cases n) auto
  note split = split_value_eq [of n, unfolded n(1) append_Cons]
  from assms have ok: "CHR ''='' \<notin> set (c # n')" by (simp add: flag_name_def n(1))
  show "parseOne fs ((CHR ''-'' # n @ CHR ''='' # v) # rest) a = set_flag fs n (Some v) rest a"
    "parseOne fs ((CHR ''-'' # n) # rest) a = set_flag fs n None rest a"
    using n(2,3) by (simp_all add: n(1) split [OF ok])
qed

lemma flag_Parse_step: "parseOne fs args a = FlagSet args' a' \<Longrightarrow> flag_Parse fs args a = flag_Parse fs args' a'"
  by (subst flag_Parse.simps) simp

lemma flag_Parse_over: "parseOne fs args a = FlagsOver left \<Longrightarrow> flag_Parse fs args a = Inr (a, left)"
  by (subst flag_Parse.simps) simp

text \<open>The two ways to write each of the flags.\<close>

definition bool_text :: "bool \<Rightarrow> string" where
  "bool_text b = (if b then ''true'' else ''false'')"

definition arg_line :: "args \<Rightarrow> string list" where
  "arg_line a =
     [''-hidg='' @ hidg a, ''-configfs-path'', configfsPath a,
      ''-clean='' @ bool_text (mustClean a), ''-setup='' @ bool_text (mustSetupHidg a)]"

lemma ParseBool_text [simp]: "ParseBool (bool_text b) = Some b"
  by (simp add: ParseBool_def bool_text_def)

lemma cli_flag_names: "flag_name ''hidg''" "flag_name ''configfs-path''" "flag_name ''clean''" "flag_name ''setup''"
  by (simp_all add: flag_name_def)

lemma cli_flag_steps:
  "flag_Parse cli_flags ((''-hidg='' @ v) # rest) a = flag_Parse cli_flags rest (a\<lparr>hidg := v\<rparr>)"
  "flag_Parse cli_flags (''-configfs-path'' # v # rest) a = flag_Parse cli_flags rest (a\<lparr>configfsPath := v\<rparr>)"
  "flag_Parse cli_flags ((''-clean='' @ bool_text b) # rest) a = flag_Parse cli_flags rest (a\<lparr>mustClean := b\<rparr>)"
  "flag_Parse cli_flags ((''-setup='' @ bool_text b) # rest) a = flag_Parse cli_flags rest (a\<lparr>mustSetupHidg := b\<rparr>)"
  using parseOne_flag(1) [OF cli_flag_names(1), of cli_flags v rest a]
    parseOne_flag(2) [OF cli_flag_names(2), of cli_flags "v # rest" a]
    parseOne_flag(1) [OF cli_flag_names(3), of cli_flags "bool_text b" rest a]
    parseOne_flag(1) [OF cli_flag_names(4), of cli_flags "bool_text b" rest a]
  by (simp_all del: parseOne.simps add: flag_Parse_step set_flag_def cli_flags_def)

lemma args_fields: "a0\<lparr>hidg := hidg a, configfsPath := configfsPath a, mustClean := mustClean a, mustSetupHidg := mustSetupHidg a\<rparr> = (a :: args)"
  by simp

lemma flag_Parse_arg_line: "flag_Parse cli_flags (arg_line a @ rest) a0 = flag_Parse cli_flags rest a"
  by (simp add: arg_line_def cli_flag_steps [simplified] args_fields)

lemma unknown_flag:
  assumes "flag_name n" "n \<notin> fst ` set cli_flags"
  shows "flag_Parse cli_flags ((CHR ''-'' # n) # rest) a =
     Inl (if n = ''help'' \<or> n = ''h'' then ErrHelp else NotDefined n)"
proof -
  from assms(2) have "map_of cli_flags n = None" by (simp add: map_of_eq_None_iff)
  then show ?thesis
    by (subst flag_Parse.simps) (simp del: parseOne.simps add: parseOne_flag(2) [OF assms(1)] set_flag_def)
qed

text \<open>
  C38. Command line.  Every choice of the four variables of \<open>args\<close> can be given on the command line: \<open>cliArgs\<close> reads
  the line that names them back to exactly these values, whatever paths it holds.  What follows a \<open>--\<close> or the
  first argument that does not start with a dash is ignored, also when it reads as a flag:
  \<open>wallera-linux x -clean\<close> does not clean.  A name that is no flag of the program ends it with the world as it
  was, whatever the flags before it said: with status 0 when help is asked for and with status 2 otherwise.
\<close>

theorem cliArgs_roundtrip:
  assumes "hd s \<noteq> CHR ''-''" "flag_name n" "n \<notin> fst ` set cli_flags"
  shows "cliArgs (arg_line a) = Inr a \<and>
    cliArgs (arg_line a @ ''--'' # rest) = Inr a \<and>
    cliArgs (arg_line a @ s # rest) = Inr a \<and>
    linux_program os (arg_line a @ (CHR ''-'' # n) # rest) w =
      Ret (UsageExit (if n = ''help'' \<or> n = ''h'' then 0 else 2), w)"
proof -
  have parse: "flag_Parse cli_flags [] a = Inr (a, [])" "flag_Parse cli_flags (''--'' # rest) a = Inr (a, rest)"
    by (simp_all add: flag_Parse_over)
  have "parseOne cli_flags (s # rest) a = FlagsOver (s # rest)"
    using assms(1) by (cases s) simp_all
  note stop = flag_Parse_over [OF this]
  show ?thesis
    using flag_Parse_arg_line [of a "[]"]
    by (simp add: cliArgs_def linux_program_def flag_Parse_arg_line parse stop unknown_flag [OF assms(2,3)]
        exit_status_def)
qed

theorem cliArgs_roundtrip_witness:
  "cliArgs (arg_line default_args @ [''x'', ''-clean'']) = Inr default_args \<and>
   cliArgs [''-hidg=/dev/hidg0'', ''-configfs-path'', ''/sys/kernel/config'', ''-clean=false'', ''-setup=false'',
     ''x'', ''-clean''] = Inr default_args"
proof -
  have "flag_name ''reset''" "''reset'' \<notin> fst ` set cli_flags" by (simp_all add: flag_name_def cli_flags_def)
  from cliArgs_roundtrip [OF _ this, of "''x''" default_args "[''-clean'']", THEN conjunct2, THEN conjunct2, THEN conjunct1]
  show ?thesis by (simp add: arg_line_def default_args_def bool_text_def)
qed

end
