(* ===== verification/Json.thy ===== *)
theory Json
  imports Json_Scanner
begin

text \<open>
  The decoder's side of \<open>encoding/json\<close>: the values a text denotes, built along the codes the scanner
  returns, and the compact texts the encoder prints.  Literals are kept as they stand in the text; the
  members of an object keep their order and their duplicates.
\<close>

section \<open>Values and how the decoder builds them\<close>

datatype json = JLit bytes | JArr "json list" | JObj "(bytes \<times> json) list"

text \<open>What the decoder holds for an open array or object: the elements so far, and a key without a value.\<close>

datatype frame = FArr "json list" | FObj "(bytes \<times> json) list" "bytes option"

record builder =
  bd_lit :: "bytes option"
  bd_frames :: "frame list"
  bd_top :: "json option"

definition builder_start :: builder where
  "builder_start = \<lparr>bd_lit = None, bd_frames = [], bd_top = None\<rparr>"

text \<open>A complete value goes to the innermost open array or object; \<^const>\<open>None\<close> is \<open>panic(phasePanicMsg)\<close>.\<close>

definition deliver :: "json \<Rightarrow> builder \<Rightarrow> builder option" where
  "deliver v b =
     (case bd_frames b of
        [] \<Rightarrow> (if bd_top b = None then Some (b\<lparr>bd_top := Some v\<rparr>) else None)
      | f # fs \<Rightarrow>
          (case f of
             FArr vs \<Rightarrow> Some (b\<lparr>bd_frames := FArr (vs @ [v]) # fs\<rparr>)
           | FObj kvs None \<Rightarrow> (case v of JLit k \<Rightarrow> Some (b\<lparr>bd_frames := FObj kvs (Some k) # fs\<rparr>) | _ \<Rightarrow> None)
           | FObj kvs (Some k) \<Rightarrow> Some (b\<lparr>bd_frames := FObj (kvs @ [(k, v)]) None # fs\<rparr>)))"

definition flush_lit :: "builder \<Rightarrow> builder option" where
  "flush_lit b = (case bd_lit b of None \<Rightarrow> Some b | Some l \<Rightarrow> deliver (JLit l) (b\<lparr>bd_lit := None\<rparr>))"

primrec frame_value :: "frame \<Rightarrow> json" where
  "frame_value (FArr vs) = JArr vs"
| "frame_value (FObj kvs k) = JObj kvs"

definition close_frame :: "builder \<Rightarrow> builder option" where
  "close_frame b =
     (case bd_frames b of [] \<Rightarrow> None | f # fs \<Rightarrow> deliver (frame_value f) (b\<lparr>bd_frames := fs\<rparr>))"

definition in_array :: "builder \<Rightarrow> bool" where
  "in_array b = (case bd_frames b of FArr _ # _ \<Rightarrow> True | _ \<Rightarrow> False)"

definition before_key :: "builder \<Rightarrow> bool" where
  "before_key b = (case bd_frames b of FObj _ None # _ \<Rightarrow> True | _ \<Rightarrow> False)"

definition after_key :: "builder \<Rightarrow> bool" where
  "after_key b = (case bd_frames b of FObj _ (Some _) # _ \<Rightarrow> True | _ \<Rightarrow> False)"

definition punctuate :: "scan_op \<Rightarrow> builder \<Rightarrow> builder option" where
  "punctuate opc b =
     (case opc of
        ScanBeginObject \<Rightarrow> Some (b\<lparr>bd_frames := FObj [] None # bd_frames b\<rparr>)
      | ScanBeginArray \<Rightarrow> Some (b\<lparr>bd_frames := FArr [] # bd_frames b\<rparr>)
      | ScanObjectKey \<Rightarrow> (if after_key b then Some b else None)
      | ScanObjectValue \<Rightarrow> (if before_key b then Some b else None)
      | ScanArrayValue \<Rightarrow> (if in_array b then Some b else None)
      | ScanEndObject \<Rightarrow> (if before_key b then close_frame b else None)
      | ScanEndArray \<Rightarrow> (if in_array b then close_frame b else None)
      | _ \<Rightarrow> Some b)"

definition build :: "scan_op \<Rightarrow> byte \<Rightarrow> builder \<Rightarrow> builder option" where
  "build opc c b =
     (case opc of
        ScanContinue \<Rightarrow> map_option (\<lambda>l. b\<lparr>bd_lit := Some (l @ [c])\<rparr>) (bd_lit b)
      | ScanBeginLiteral \<Rightarrow> (if bd_lit b = None then Some (b\<lparr>bd_lit := Some [c]\<rparr>) else None)
      | _ \<Rightarrow> Option.bind (flush_lit b) (punctuate opc))"

fun json_run :: "scanner \<Rightarrow> builder \<Rightarrow> bytes \<Rightarrow> (scanner \<times> builder) option" where
  "json_run s b [] = Some (s, b)"
| "json_run s b (c # cs) =
     (case scan_step s c of
        None \<Rightarrow> None
      | Some (opc, s') \<Rightarrow> (case build opc c b of None \<Rightarrow> None | Some b' \<Rightarrow> json_run s' b' cs))"

text \<open>The scanner is told the end of the text by a blank, as \<open>scanner.eof\<close> does.\<close>

definition json_parse :: "bytes \<Rightarrow> json option" where
  "json_parse bs =
     (case json_run scan_start builder_start (bs @ [0x20]) of
        None \<Rightarrow> None
      | Some (s, b) \<Rightarrow> if sc_endTop s then bd_top b else None)"

lemma json_run_append:
  "json_run s b (xs @ ys) = (case json_run s b xs of None \<Rightarrow> None | Some (s', b') \<Rightarrow> json_run s' b' ys)"
  by (induction xs arbitrary: s b) (auto split: option.split)

section \<open>Literals\<close>

text \<open>The inside of a string literal: plain bytes, and escapes of one letter or of four hexadecimal digits.\<close>

inductive string_body :: "bytes \<Rightarrow> bool" where
  string_body_Nil: "string_body []"
| string_body_plain: "c \<noteq> 0x5c \<Longrightarrow> c \<noteq> 0x22 \<Longrightarrow> \<not> c < 0x20 \<Longrightarrow> string_body cs \<Longrightarrow> string_body (c # cs)"
| string_body_esc: "e \<in> {0x62, 0x66, 0x6e, 0x72, 0x74, 0x5c, 0x2f, 0x22} \<Longrightarrow> string_body cs \<Longrightarrow>
    string_body (0x5c # e # cs)"
| string_body_hex: "list_all is_hex hs \<Longrightarrow> length hs = 4 \<Longrightarrow> string_body cs \<Longrightarrow>
    string_body (0x5c # 0x75 # hs @ cs)"

lemmas string_body_intros = string_body.intros

definition string_lit :: "bytes \<Rightarrow> bool" where
  "string_lit l \<longleftrightarrow> (\<exists>body. l = 0x22 # body @ [0x22] \<and> string_body body)"

definition keyword_lit :: "bytes \<Rightarrow> bool" where
  "keyword_lit l \<longleftrightarrow> l \<noteq> [] \<and> hd l \<in> {0x74, 0x66, 0x6e}"

definition number_lit :: "bytes \<Rightarrow> bool" where
  "number_lit l \<longleftrightarrow> l \<noteq> [] \<and> (hd l = 0x2d \<or> is_digit (hd l))"

definition literal :: "bytes \<Rightarrow> bool" where
  "literal l \<longleftrightarrow> string_lit l \<or> keyword_lit l \<or> number_lit l"

fun json_wf :: "json \<Rightarrow> bool" where
  "json_wf (JLit l) = literal l"
| "json_wf (JArr vs) = (\<forall>v \<in> set vs. json_wf v)"
| "json_wf (JObj kvs) = (\<forall>(k, v) \<in> set kvs. string_lit k \<and> json_wf v)"

fun frame_wf :: "frame \<Rightarrow> bool" where
  "frame_wf (FArr vs) = (\<forall>v \<in> set vs. json_wf v)"
| "frame_wf (FObj kvs k) = ((\<forall>(k, v) \<in> set kvs. string_lit k \<and> json_wf v) \<and> pred_option string_lit k)"

lemma string_body_append: "string_body xs \<Longrightarrow> string_body ys \<Longrightarrow> string_body (xs @ ys)"
  by (induction xs rule: string_body.induct) (auto intro: string_body_intros)

section \<open>Scanner and decoder stay in phase\<close>

text \<open>The enclosing arrays and objects, outside of a key: each object waits for the value of a key.\<close>

fun enclosing :: "parse_state list \<Rightarrow> frame list \<Rightarrow> bool" where
  "enclosing [] [] = True"
| "enclosing (ParseArrayValue # ps) (FArr vs # fs) = enclosing ps fs"
| "enclosing (ParseObjectValue # ps) (FObj kvs (Some k) # fs) = enclosing ps fs"
| "enclosing _ _ = False"

text \<open>A value or a key is being read, or has just been delivered.\<close>

fun reading :: "parse_state list \<Rightarrow> frame list \<Rightarrow> bool" where
  "reading (ParseObjectKey # ps) (FObj kvs None # fs) = enclosing ps fs"
| "reading ps fs = enclosing ps fs"

fun delivered :: "parse_state list \<Rightarrow> frame list \<Rightarrow> bool" where
  "delivered (ParseObjectKey # ps) (FObj kvs (Some k) # fs) = enclosing ps fs"
| "delivered (ParseObjectValue # ps) (FObj kvs None # fs) = enclosing ps fs"
| "delivered (ParseArrayValue # ps) (FArr vs # fs) = enclosing ps fs"
| "delivered _ _ = False"

definition at_key :: "parse_state list \<Rightarrow> bool" where
  "at_key ps \<longleftrightarrow> (case ps of ParseObjectKey # _ \<Rightarrow> True | _ \<Rightarrow> False)"

text \<open>The part of a literal read so far, in each state of the scanner.\<close>

fun partial_lit :: "scan_state \<Rightarrow> bool \<Rightarrow> bytes \<Rightarrow> bool" where
  "partial_lit StateInString key l = (\<exists>body. l = 0x22 # body \<and> string_body body)"
| "partial_lit StateInStringEsc key l = (\<exists>body. l = 0x22 # body @ [0x5c] \<and> string_body body)"
| "partial_lit (StateInStringEscU n) key l =
     (\<exists>body hs. l = 0x22 # body @ [0x5c, 0x75] @ hs \<and> string_body body \<and> list_all is_hex hs \<and> length hs + n = 3)"
| "partial_lit StateEndValue key l = (string_lit l \<or> \<not> key \<and> literal l)"
| "partial_lit (StateKeyword ks) key l = (\<not> key \<and> keyword_lit l)"
| "partial_lit StateNeg key l = (\<not> key \<and> number_lit l)"
| "partial_lit StateInt1 key l = (\<not> key \<and> number_lit l)"
| "partial_lit StateInt0 key l = (\<not> key \<and> number_lit l)"
| "partial_lit StateDot key l = (\<not> key \<and> number_lit l)"
| "partial_lit StateDot0 key l = (\<not> key \<and> number_lit l)"
| "partial_lit StateE key l = (\<not> key \<and> number_lit l)"
| "partial_lit StateESign key l = (\<not> key \<and> number_lit l)"
| "partial_lit StateE0 key l = (\<not> key \<and> number_lit l)"
| "partial_lit _ key l = False"

definition in_phase :: "scanner \<Rightarrow> builder \<Rightarrow> bool" where
  "in_phase s b \<longleftrightarrow>
     (\<forall>f \<in> set (bd_frames b). frame_wf f) \<and>
     (if sc_step s = StateEndTop
      then sc_endTop s \<and> sc_parseState s = [] \<and> bd_frames b = [] \<and> bd_lit b = None \<and>
           (\<exists>v. bd_top b = Some v \<and> json_wf v)
      else \<not> sc_endTop s \<and> bd_top b = None \<and>
        (case bd_lit b of
           Some l \<Rightarrow> reading (sc_parseState s) (bd_frames b) \<and> partial_lit (sc_step s) (at_key (sc_parseState s)) l
         | None \<Rightarrow>
             (case sc_step s of
                StateBeginValue \<Rightarrow> enclosing (sc_parseState s) (bd_frames b)
              | StateBeginValueOrEmpty \<Rightarrow> enclosing (sc_parseState s) (bd_frames b) \<and> in_array b
              | StateBeginString \<Rightarrow> reading (sc_parseState s) (bd_frames b) \<and> at_key (sc_parseState s)
              | StateBeginStringOrEmpty \<Rightarrow> reading (sc_parseState s) (bd_frames b) \<and> at_key (sc_parseState s)
              | StateEndValue \<Rightarrow> delivered (sc_parseState s) (bd_frames b)
              | _ \<Rightarrow> False)))"

text \<open>A value has been delivered: to the innermost open array or object, or as the whole text.\<close>

definition finished :: "parse_state list \<Rightarrow> builder \<Rightarrow> bool" where
  "finished ps b \<longleftrightarrow> bd_lit b = None \<and> (\<forall>f \<in> set (bd_frames b). frame_wf f) \<and>
     (if ps = [] then bd_frames b = [] \<and> (\<exists>v. bd_top b = Some v \<and> json_wf v)
      else bd_top b = None \<and> delivered ps (bd_frames b))"

lemma enclosing_cases:
  assumes "enclosing ps fs"
  obtains "ps = []" "fs = []"
  | ps' vs fs' where "ps = ParseArrayValue # ps'" "fs = FArr vs # fs'" "enclosing ps' fs'"
  | ps' kvs k fs' where "ps = ParseObjectValue # ps'" "fs = FObj kvs (Some k) # fs'" "enclosing ps' fs'"
  using assms by (cases "(ps, fs)" rule: enclosing.cases) auto

lemma reading_key: "reading (ParseObjectKey # ps) fs \<longleftrightarrow> (\<exists>kvs fs'. fs = FObj kvs None # fs' \<and> enclosing ps fs')"
  by (cases "(ParseObjectKey # ps, fs)" rule: reading.cases) auto

lemma reading_other: "\<not> at_key ps \<Longrightarrow> reading ps fs = enclosing ps fs"
  by (cases "(ps, fs)" rule: reading.cases) (auto simp: at_key_def)

lemma deliver_finished:
  assumes "enclosing ps (bd_frames b)" "\<forall>f \<in> set (bd_frames b). frame_wf f" "bd_top b = None"
    and "bd_lit b = None" "json_wf v"
  shows "\<exists>b1. deliver v b = Some b1 \<and> finished ps b1"
  using assms(1) by (cases rule: enclosing_cases) (use assms(2-) in \<open>auto simp: deliver_def finished_def\<close>)

lemma flush_finished:
  assumes "reading ps (bd_frames b)" "\<forall>f \<in> set (bd_frames b). frame_wf f" "bd_top b = None"
    and "bd_lit b = Some l" "string_lit l \<or> \<not> at_key ps \<and> literal l"
  shows "\<exists>b1. flush_lit b = Some b1 \<and> finished ps b1"
proof (cases "at_key ps")
  case True
  then obtain ps' where "ps = ParseObjectKey # ps'"
    by (auto simp: at_key_def split: list.splits parse_state.splits)
  with True assms show ?thesis
    by (auto simp: reading_key flush_lit_def deliver_def finished_def)
next
  case False
  with assms deliver_finished [of ps "b\<lparr>bd_lit := None\<rparr>" "JLit l"] show ?thesis
    by (auto simp: reading_other flush_lit_def literal_def)
qed

lemma delivered_cases:
  assumes "delivered ps fs"
  obtains ps' kvs k fs' where "ps = ParseObjectKey # ps'" "fs = FObj kvs (Some k) # fs'" "enclosing ps' fs'"
  | ps' kvs fs' where "ps = ParseObjectValue # ps'" "fs = FObj kvs None # fs'" "enclosing ps' fs'"
  | ps' vs fs' where "ps = ParseArrayValue # ps'" "fs = FArr vs # fs'" "enclosing ps' fs'"
  using assms by (cases "(ps, fs)" rule: delivered.cases) auto

text \<open>The byte behind a delivered value.\<close>

lemma finished_in_phase:
  assumes "finished ps b" "\<not> sc_endTop s"
  shows "in_phase (if ps = [] then s\<lparr>sc_step := StateEndTop, sc_parseState := [], sc_endTop := True\<rparr>
         else s\<lparr>sc_step := StateEndValue, sc_parseState := ps\<rparr>) b"
  using assms by (auto simp: finished_def in_phase_def)

lemma frame_value_wf: "frame_wf f \<Longrightarrow> json_wf (frame_value f)"
  by (cases f) auto

lemma close_in_phase:
  assumes "delivered ps (bd_frames b)" "\<forall>f \<in> set (bd_frames b). frame_wf f" "bd_top b = None"
    and "bd_lit b = None" "sc_parseState s = ps" "\<not> sc_endTop s"
  shows "\<exists>b'. close_frame b = Some b' \<and> in_phase (pop_parse s) b'"
proof -
  obtain f fs where f: "bd_frames b = f # fs" "enclosing (tl ps) fs"
    using assms(1) by (cases rule: delivered_cases) auto
  with assms frame_value_wf [of f] deliver_finished [of "tl ps" "b\<lparr>bd_frames := fs\<rparr>" "frame_value f"]
  obtain b' where "close_frame b = Some b'" "finished (tl ps) b'"
    by (auto simp: close_frame_def)
  with finished_in_phase [OF this(2) assms(6)] assms(5) show ?thesis
    by (auto simp: pop_parse_def Let_def)
qed

lemma end_value_in_phase:
  assumes step: "state_end_value s c = Some (opc, s')" and fin: "finished (sc_parseState s) b" and top: "\<not> sc_endTop s"
  shows "\<exists>b'. punctuate opc b = Some b' \<and> in_phase s' b'"
proof (cases "sc_parseState s")
  case Nil
  with step fin top show ?thesis
    by (auto simp: state_end_value_def punctuate_def finished_def in_phase_def split: if_splits)
next
  case (Cons p ps)
  with fin have d: "delivered (p # ps) (bd_frames b)" and rest: "\<forall>f \<in> set (bd_frames b). frame_wf f"
      "bd_top b = None" "bd_lit b = None"
    by (auto simp: finished_def)
  note close = close_in_phase [OF d rest Cons top]
  from d show ?thesis
    by (cases rule: delivered_cases)
       (use step Cons rest top close d in \<open>auto simp: state_end_value_def punctuate_def in_phase_def go_to_def
          after_key_def before_key_def in_array_def at_key_def split: if_splits\<close>)
qed

lemma end_value_op:
  "state_end_value s c = Some (opc, s') \<Longrightarrow> build opc d b = Option.bind (flush_lit b) (punctuate opc)"
  by (auto simp: state_end_value_def go_to_def build_def split: list.splits if_splits parse_state.splits)

lemma end_value_build:
  assumes "state_end_value s c = Some (opc, s')" "flush_lit b = Some b1" "finished (sc_parseState s) b1" "\<not> sc_endTop s"
  shows "\<exists>b'. build opc c b = Some b' \<and> in_phase s' b'"
  using end_value_in_phase [OF assms(1,3,4)] end_value_op [OF assms(1)] assms(2) by simp

lemma continue_in_phase:
  assumes "in_phase s b" "bd_lit b = Some l" "partial_lit st (at_key (sc_parseState s)) (l @ [c])"
  shows "\<exists>b'. build ScanContinue c b = Some b' \<and> in_phase (s\<lparr>sc_step := st\<rparr>) b'"
  using assms by (auto simp: build_def in_phase_def split: if_splits)

lemma begin_in_phase:
  assumes "reading (sc_parseState s) (bd_frames b)" "\<forall>f \<in> set (bd_frames b). frame_wf f" "bd_top b = None"
    and "bd_lit b = None" "\<not> sc_endTop s" "partial_lit st (at_key (sc_parseState s)) [c]"
  shows "\<exists>b'. build ScanBeginLiteral c b = Some b' \<and> in_phase (s\<lparr>sc_step := st\<rparr>) b'"
  using assms by (auto simp: build_def in_phase_def split: if_splits)

lemma enclosing_not_key: "enclosing ps fs \<Longrightarrow> \<not> at_key ps"
  by (cases "(ps, fs)" rule: enclosing.cases) (auto simp: at_key_def)

lemma digit19_digit: "is_digit19 c \<Longrightarrow> is_digit c"
  using order.trans [of "0x30 :: byte" "0x31" c] by (simp add: is_digit19_def is_digit_def)

lemma first_byte_lits:
  "partial_lit StateInString key [0x22]" "partial_lit StateNeg False [0x2d]" "partial_lit StateInt0 False [0x30]"
  "partial_lit (StateKeyword ks) False [0x74]" "partial_lit (StateKeyword ks) False [0x66]"
  "partial_lit (StateKeyword ks) False [0x6e]" "is_digit19 c \<Longrightarrow> partial_lit StateInt1 False [c]"
  by (simp_all add: keyword_lit_def number_lit_def string_body_Nil digit19_digit) (simp add: is_digit_def)

lemma begin_value_in_phase:
  assumes step: "state_begin_value s c = Some (opc, s')" and enc: "enclosing (sc_parseState s) (bd_frames b)"
    and phase: "in_phase s b" "bd_lit b = None" "\<not> sc_endTop s" "sc_step s \<noteq> StateEndTop"
  shows "\<exists>b'. build opc c b = Some b' \<and> in_phase s' b'"
proof -
  from phase have wf: "\<forall>f \<in> set (bd_frames b). frame_wf f" and top: "bd_top b = None"
    by (auto simp: in_phase_def)
  note key = enclosing_not_key [OF enc]
  have read: "reading (sc_parseState s) (bd_frames b)" using enc key by (simp add: reading_other)
  note lit = begin_in_phase [OF read wf top phase(2,3), of _ c]
  from step consider "opc = ScanSkipSpace" "s' = s" | (brace) "c = 0x7b" | (bracket) "c = 0x5b"
    | st where "opc = ScanBeginLiteral" "s' = s\<lparr>sc_step := st\<rparr>" "partial_lit st False [c]"
    using first_byte_lits by (auto simp: state_begin_value_def go_to_def simp del: partial_lit.simps split: if_splits)
  then show ?thesis
  proof cases
    case 1
    with phase(1,2) show ?thesis by (simp add: build_def flush_lit_def punctuate_def)
  next
    case brace
    with step enc wf top phase(2,3) show ?thesis
      by (auto simp: state_begin_value_def is_space_def push_parse_def build_def flush_lit_def punctuate_def
          in_phase_def at_key_def split: if_splits)
  next
    case bracket
    with step enc wf top phase(2,3) show ?thesis
      by (auto simp: state_begin_value_def is_space_def push_parse_def build_def flush_lit_def punctuate_def
          in_phase_def in_array_def split: if_splits)
  next
    case 4
    with lit key show ?thesis by auto
  qed
qed

lemma number_lit_append: "number_lit l \<Longrightarrow> number_lit (l @ [c])"
  by (auto simp: number_lit_def)

lemma keyword_lit_append: "keyword_lit l \<Longrightarrow> keyword_lit (l @ [c])"
  by (auto simp: keyword_lit_def)

text \<open>One more byte of a literal.\<close>

lemma in_string_step:
  assumes "partial_lit StateInString key l" "scan_step s c = Some (opc, s')" "sc_step s = StateInString"
  shows "\<exists>st'. opc = ScanContinue \<and> s' = s\<lparr>sc_step := st'\<rparr> \<and> partial_lit st' key (l @ [c])"
proof -
  from assms(1) obtain body where body: "l = 0x22 # body" "string_body body" by auto
  have same: "s\<lparr>sc_step := StateInString\<rparr> = s" using assms(3) by (cases s) auto
  consider "c = 0x22" | "c = 0x5c" | "c \<noteq> 0x22" "c \<noteq> 0x5c" by blast
  then show ?thesis
  proof cases
    case 1
    with assms(2,3) body show ?thesis
      by (auto simp: scan_step_def go_to_def string_lit_def intro!: exI [of _ StateEndValue])
  next
    case 2
    with assms(2,3) body show ?thesis
      by (auto simp: scan_step_def go_to_def intro!: exI [of _ StateInStringEsc])
  next
    case 3
    with assms(2,3) have c: "opc = ScanContinue" "s' = s" "\<not> c < 0x20"
      by (auto simp: scan_step_def split: if_splits)
    with 3 body(2) have "string_body (body @ [c])"
      by (auto intro!: string_body_append string_body_intros)
    with c body(1) same show ?thesis by (auto intro!: exI [of _ StateInString])
  qed
qed

lemma in_escape_step:
  assumes "partial_lit StateInStringEsc key l" "scan_step s c = Some (opc, s')" "sc_step s = StateInStringEsc"
  shows "\<exists>st'. opc = ScanContinue \<and> s' = s\<lparr>sc_step := st'\<rparr> \<and> partial_lit st' key (l @ [c])"
proof -
  from assms(1) obtain body where body: "l = 0x22 # body @ [0x5c]" "string_body body" by auto
  show ?thesis
  proof (cases "c = 0x75")
    case True
    with assms(2,3) body show ?thesis
      by (auto simp: scan_step_def go_to_def intro!: exI [of _ "StateInStringEscU 3"])
  next
    case False
    with assms(2,3) have c: "opc = ScanContinue" "s' = s\<lparr>sc_step := StateInString\<rparr>"
      and e: "c \<in> {0x62, 0x66, 0x6e, 0x72, 0x74, 0x5c, 0x2f, 0x22}"
      by (auto simp: scan_step_def go_to_def split: if_splits)
    have "string_body (body @ [0x5c, c])"
      using string_body_append [OF body(2) string_body_esc [OF e string_body_Nil]] .
    with c body(1) show ?thesis by (auto intro!: exI [of _ StateInString])
  qed
qed

lemma in_hex_step:
  assumes "partial_lit (StateInStringEscU n) key l" "scan_step s c = Some (opc, s')" "sc_step s = StateInStringEscU n"
  shows "\<exists>st'. opc = ScanContinue \<and> s' = s\<lparr>sc_step := st'\<rparr> \<and> partial_lit st' key (l @ [c])"
proof -
  from assms(1) obtain body hs where body: "l = 0x22 # body @ [0x5c, 0x75] @ hs" "string_body body"
      "list_all is_hex hs" "length hs + n = 3" by auto
  from assms(2,3) have c: "opc = ScanContinue" "is_hex c"
      "s' = s\<lparr>sc_step := (if n = 0 then StateInString else StateInStringEscU (n - 1))\<rparr>"
    by (auto simp: scan_step_def go_to_def split: if_splits)
  show ?thesis
  proof (cases "n = 0")
    case True
    then have "string_body (body @ [0x5c, 0x75] @ hs @ [c])"
      using string_body_append [OF body(2) string_body_hex [of "hs @ [c]" "[]"]] body(3,4) c(2)
      by (simp add: string_body_Nil)
    with c True body(1) show ?thesis by (auto intro!: exI [of _ StateInString])
  next
    case False
    have "partial_lit (StateInStringEscU (n - 1)) key (l @ [c])"
      unfolding partial_lit.simps using body c(2) False
      by (intro exI [of _ body] exI [of _ "hs @ [c]"]) auto
    with c(1,3) False show ?thesis by (intro exI [of _ "StateInStringEscU (n - 1)"]) simp
  qed
qed

definition number_states :: "scan_state set" where
  "number_states = {StateNeg, StateInt1, StateInt0, StateDot, StateDot0, StateE, StateESign, StateE0}"

lemma number_states_lit: "st \<in> number_states \<Longrightarrow> partial_lit st key l = (\<not> key \<and> number_lit l)"
  by (auto simp: number_states_def)

lemma stay: "sc_step s = st \<Longrightarrow> s = s\<lparr>sc_step := st\<rparr>"
  by (cases s) simp

lemma number_scan_step:
  assumes "sc_step s \<in> number_states" "scan_step s c = Some (opc, s')"
  shows "state_end_value s c = Some (opc, s') \<or>
    (\<exists>st' \<in> number_states. opc = ScanContinue \<and> s' = s\<lparr>sc_step := st'\<rparr>)"
  using assms stay [of s]
  by (cases "sc_step s") (simp_all add: number_states_def scan_step_def state_int0_def state_esign_def go_to_def
      split: if_splits)

lemma number_step:
  assumes "sc_step s \<in> number_states" "partial_lit (sc_step s) key l" "scan_step s c = Some (opc, s')"
  shows "(\<exists>st'. opc = ScanContinue \<and> s' = s\<lparr>sc_step := st'\<rparr> \<and> partial_lit st' key (l @ [c])) \<or>
         (state_end_value s c = Some (opc, s') \<and> \<not> key \<and> literal l)"
  using number_scan_step [OF assms(1,3)] assms(1,2) number_lit_append [of l c]
  by (auto simp: number_states_lit literal_def)

lemma keyword_step:
  assumes "sc_step s = StateKeyword ks" "partial_lit (StateKeyword ks) key l" "scan_step s c = Some (opc, s')"
  shows "\<exists>st'. opc = ScanContinue \<and> s' = s\<lparr>sc_step := st'\<rparr> \<and> partial_lit st' key (l @ [c])"
  using assms keyword_lit_append [of l c]
  by (cases ks) (auto simp: scan_step_def go_to_def literal_def split: if_splits)

lemma partial_lit_state:
  "partial_lit st key l \<Longrightarrow> st \<in> number_states \<union> {StateInString, StateInStringEsc, StateEndValue} \<union>
     range StateInStringEscU \<union> range StateKeyword"
  by (cases st) (auto simp: number_states_def)

lemma literal_step:
  assumes "partial_lit (sc_step s) key l" "scan_step s c = Some (opc, s')"
  shows "(\<exists>st'. opc = ScanContinue \<and> s' = s\<lparr>sc_step := st'\<rparr> \<and> partial_lit st' key (l @ [c])) \<or>
         (state_end_value s c = Some (opc, s') \<and> (string_lit l \<or> \<not> key \<and> literal l))"
  using partial_lit_state [OF assms(1)]
proof (elim UnE)
  assume "sc_step s \<in> number_states"
  from number_step [OF this assms] show ?thesis by blast
next
  assume "sc_step s \<in> {StateInString, StateInStringEsc, StateEndValue}"
  then show ?thesis
    using assms in_string_step [of key l s c opc s'] in_escape_step [of key l s c opc s']
    by (auto simp: scan_step_def simp del: partial_lit.simps(1,2))
next
  assume "sc_step s \<in> range StateInStringEscU"
  with assms in_hex_step [of _ key l s c opc s'] show ?thesis by force
next
  assume "sc_step s \<in> range StateKeyword"
  with assms keyword_step [of s _ key l c opc s'] show ?thesis by force
qed

lemma literal_in_phase:
  assumes phase: "in_phase s b" and lit: "bd_lit b = Some l" and step: "scan_step s c = Some (opc, s')"
  shows "\<exists>b'. build opc c b = Some b' \<and> in_phase s' b'"
proof -
  let ?key = "at_key (sc_parseState s)"
  from phase lit have inv: "reading (sc_parseState s) (bd_frames b)" "\<forall>f \<in> set (bd_frames b). frame_wf f"
      "bd_top b = None" "\<not> sc_endTop s" and part: "partial_lit (sc_step s) ?key l"
    by (auto simp: in_phase_def split: if_splits)
  from literal_step [OF part step] show ?thesis
  proof
    assume "\<exists>st'. opc = ScanContinue \<and> s' = s\<lparr>sc_step := st'\<rparr> \<and> partial_lit st' ?key (l @ [c])"
    with continue_in_phase [OF phase lit] show ?thesis by auto
  next
    assume "state_end_value s c = Some (opc, s') \<and> (string_lit l \<or> \<not> ?key \<and> literal l)"
    with flush_finished [OF inv(1-3) lit] end_value_build [of s c opc s' b] inv(4) show ?thesis by auto
  qed
qed

lemma build_skip: "bd_lit b = None \<Longrightarrow> opc \<in> {ScanSkipSpace, ScanEnd} \<Longrightarrow> build opc c b = Some b"
  by (auto simp: build_def flush_lit_def punctuate_def)

lemma at_key_reading:
  "reading ps fs \<Longrightarrow> at_key ps \<Longrightarrow>
   \<exists>ps' kvs fs'. ps = ParseObjectKey # ps' \<and> fs = FObj kvs None # fs' \<and> enclosing ps' fs'"
  by (auto simp: at_key_def reading_key split: list.splits parse_state.splits)

lemma begin_string_in_phase:
  assumes "state_begin_string s c = Some (opc, s')" "in_phase s b" "bd_lit b = None"
    and "reading (sc_parseState s) (bd_frames b)" "sc_step s \<noteq> StateEndTop"
  shows "\<exists>b'. build opc c b = Some b' \<and> in_phase s' b'"
proof (cases "is_space c")
  case True
  with assms show ?thesis by (simp add: state_begin_string_def build_skip)
next
  case False
  with assms(1) have "opc = ScanBeginLiteral" "s' = s\<lparr>sc_step := StateInString\<rparr>" "c = 0x22"
    by (auto simp: state_begin_string_def go_to_def split: if_splits)
  with begin_in_phase [of s b StateInString c] assms(2-) first_byte_lits(1) show ?thesis
    by (auto simp: in_phase_def simp del: partial_lit.simps)
qed

text \<open>An empty array or object: the closing byte comes where a value or a key could start.\<close>

lemma empty_close_in_phase:
  assumes "in_phase s b" "bd_lit b = None" "\<not> sc_endTop s" "bd_top b = None"
    and "delivered ps (bd_frames b)" "state_end_value (s\<lparr>sc_parseState := ps\<rparr>) c = Some (opc, s')"
  shows "\<exists>b'. build opc c b = Some b' \<and> in_phase s' b'"
proof (rule end_value_build [OF assms(6)])
  show "flush_lit b = Some b" using assms(2) by (simp add: flush_lit_def)
  show "finished (sc_parseState (s\<lparr>sc_parseState := ps\<rparr>)) b"
    using assms(1,2,4,5) by (auto simp: finished_def in_phase_def)
  show "\<not> sc_endTop (s\<lparr>sc_parseState := ps\<rparr>)" using assms(3) by simp
qed

lemma between_in_phase:
  assumes phase: "in_phase s b" and lit: "bd_lit b = None" and step: "scan_step s c = Some (opc, s')"
  shows "\<exists>b'. build opc c b = Some b' \<and> in_phase s' b'"
proof (cases "sc_step s")
  case StateEndTop
  with step phase lit show ?thesis by (auto simp: scan_step_def build_skip split: if_splits)
next
  case StateEndValue
  with phase lit have "delivered (sc_parseState s) (bd_frames b)" "\<not> sc_endTop s" "bd_top b = None"
    by (auto simp: in_phase_def)
  with StateEndValue step empty_close_in_phase [OF phase lit, of "sc_parseState s"] show ?thesis
    by (simp add: scan_step_def)
next
  case StateBeginValue
  with step phase lit begin_value_in_phase [of s c opc s' b] show ?thesis
    by (auto simp: scan_step_def in_phase_def)
next
  case StateBeginValueOrEmpty
  with phase lit have enc: "enclosing (sc_parseState s) (bd_frames b)" "in_array b" "\<not> sc_endTop s" "bd_top b = None"
    by (auto simp: in_phase_def)
  then have "delivered (sc_parseState s) (bd_frames b)"
    by (cases rule: enclosing_cases) (auto simp: in_array_def)
  with StateBeginValueOrEmpty step phase lit enc begin_value_in_phase [of s c opc s' b]
    empty_close_in_phase [OF phase lit enc(3,4), of "sc_parseState s" c opc s'] show ?thesis
    by (auto simp: scan_step_def build_skip split: if_splits)
next
  case StateBeginString
  with step phase lit begin_string_in_phase [of s c opc s' b] show ?thesis
    by (auto simp: scan_step_def in_phase_def)
next
  case StateBeginStringOrEmpty
  with phase lit have inv: "reading (sc_parseState s) (bd_frames b)" "at_key (sc_parseState s)"
      "\<not> sc_endTop s" "bd_top b = None"
    by (auto simp: in_phase_def)
  from at_key_reading [OF inv(1,2)] have "delivered (ParseObjectValue # tl (sc_parseState s)) (bd_frames b)" by auto
  with StateBeginStringOrEmpty step phase lit inv begin_string_in_phase [of s c opc s' b]
    empty_close_in_phase [OF phase lit inv(3,4), of _ c opc s'] show ?thesis
    by (auto simp: scan_step_def build_skip split: if_splits)
qed (use phase lit in \<open>auto simp: in_phase_def\<close>)

lemma in_phase_step:
  "in_phase s b \<Longrightarrow> scan_step s c = Some (opc, s') \<Longrightarrow> \<exists>b'. build opc c b = Some b' \<and> in_phase s' b'"
  using between_in_phase [of s b c opc s'] literal_in_phase [of s b _ c opc s'] by (cases "bd_lit b") auto

lemma in_phase_run:
  "in_phase s b \<Longrightarrow> scan_all s cs = Some s' \<Longrightarrow> \<exists>b'. json_run s b cs = Some (s', b') \<and> in_phase s' b'"
proof (induction cs arbitrary: s b)
  case Nil
  then show ?case by simp
next
  case (Cons c cs)
  then obtain opc s1 where "scan_step s c = Some (opc, s1)" "scan_all s1 cs = Some s'"
    by (auto split: option.splits)
  with in_phase_step [OF Cons.prems(1)] Cons.IH show ?case by fastforce
qed

lemma json_run_scan: "json_run s b cs = Some (s', b') \<Longrightarrow> scan_all s cs = Some s'"
  by (induction cs arbitrary: s b) (auto split: option.splits)

lemma in_phase_start: "in_phase scan_start builder_start"
  by (simp add: in_phase_def scan_start_def builder_start_def)

lemma in_phase_endTop: "in_phase s b \<Longrightarrow> sc_endTop s \<Longrightarrow> sc_step s = StateEndTop \<and> (\<exists>v. bd_top b = Some v \<and> json_wf v)"
  by (auto simp: in_phase_def split: if_splits)

text \<open>
  The syntax check accepts exactly the texts for which the decoder builds a value, and the literals of
  that value are well-formed.
\<close>

lemma json_valid_eof:
  "json_valid bs \<longleftrightarrow> (\<exists>s. scan_all scan_start (bs @ [0x20]) = Some s \<and> sc_endTop s)"
proof (cases "scan_all scan_start bs")
  case None
  then show ?thesis by (simp add: json_valid_def scan_all_append)
next
  case (Some s)
  with in_phase_run [OF in_phase_start] obtain b where "in_phase s b" by blast
  then have "sc_endTop s \<Longrightarrow> scan_step s 0x20 = Some (ScanEnd, s)"
    using in_phase_endTop [of s b] by (simp add: scan_step_def is_space_def)
  with Some show ?thesis
    by (auto simp: json_valid_def scan_all_append scan_eof_def split: option.splits)
qed

lemma json_parse_valid: "json_valid bs \<longleftrightarrow> json_parse bs \<noteq> None"
proof
  assume "json_valid bs"
  then obtain s where "scan_all scan_start (bs @ [0x20]) = Some s" "sc_endTop s" by (auto simp: json_valid_eof)
  with in_phase_run [OF in_phase_start] in_phase_endTop show "json_parse bs \<noteq> None"
    by (fastforce simp: json_parse_def)
next
  assume "json_parse bs \<noteq> None"
  then show "json_valid bs"
    by (auto simp: json_parse_def json_valid_eof split: option.splits if_splits dest: json_run_scan)
qed

lemma json_parse_wf: "json_parse bs = Some v \<Longrightarrow> json_wf v"
proof -
  assume "json_parse bs = Some v"
  then obtain s b where run: "json_run scan_start builder_start (bs @ [0x20]) = Some (s, b)"
    and top: "sc_endTop s" "bd_top b = Some v"
    by (auto simp: json_parse_def split: option.splits if_splits)
  with in_phase_run [OF in_phase_start json_run_scan [OF run]] in_phase_endTop [of s b] show ?thesis by auto
qed

end
