(* ===== verification/Json_Print.thy ===== *)
theory Json_Print
  imports Json
begin

text \<open>
  The compact texts that the encoder of \<open>encoding/json\<close> writes: no blanks, members in order.  Reading
  such a text back gives the value it was printed from.
\<close>

section \<open>Printing\<close>

fun comma_separated :: "bytes list \<Rightarrow> bytes" where
  "comma_separated [] = []"
| "comma_separated [x] = x"
| "comma_separated (x # y # xs) = x @ 0x2c # comma_separated (y # xs)"

fun json_text :: "json \<Rightarrow> bytes" where
  "json_text (JLit l) = l"
| "json_text (JArr vs) = 0x5b # comma_separated (map json_text vs) @ [0x5d]"
| "json_text (JObj kvs) = 0x7b # comma_separated (map (\<lambda>(k, v). k @ 0x3a # json_text v) kvs) @ [0x7d]"

text \<open>The literals an encoder prints: strings, unsigned decimal numbers and \<open>null\<close>.\<close>

definition nat_lit :: "bytes \<Rightarrow> bool" where
  "nat_lit l \<longleftrightarrow> l = [0x30] \<or> (\<exists>d ds. l = d # ds \<and> is_digit19 d \<and> list_all is_digit ds)"

definition null_lit :: bytes where
  "null_lit = [0x6e, 0x75, 0x6c, 0x6c]"

definition printed_lit :: "bytes \<Rightarrow> bool" where
  "printed_lit l \<longleftrightarrow> string_lit l \<or> nat_lit l \<or> l = null_lit"

fun json_printed :: "json \<Rightarrow> bool" where
  "json_printed (JLit l) = printed_lit l"
| "json_printed (JArr vs) = (\<forall>v \<in> set vs. json_printed v)"
| "json_printed (JObj kvs) = (\<forall>(k, v) \<in> set kvs. string_lit k \<and> json_printed v)"

fun json_depth :: "json \<Rightarrow> nat" where
  "json_depth (JLit l) = 0"
| "json_depth (JArr vs) = Suc (Max (insert 0 (set (map json_depth vs))))"
| "json_depth (JObj kvs) = Suc (Max (insert 0 (set (map (\<lambda>(k, v). json_depth v) kvs))))"

section \<open>Reading a printed text back\<close>

definition delimiter :: "byte \<Rightarrow> bool" where
  "delimiter c \<longleftrightarrow> c \<in> {0x2c, 0x5d, 0x7d, 0x20, 0x0a, 0x3a}"

lemma delimiter_not_number: "delimiter c \<Longrightarrow> \<not> is_digit c \<and> c \<noteq> 0x2e \<and> \<not> is_exp c"
  by (auto simp: delimiter_def is_digit_def is_exp_def)

lemma end_value_step_irrelevant: "state_end_value (s\<lparr>sc_step := st\<rparr>) c = state_end_value s c"
  by (auto simp: state_end_value_def go_to_def pop_parse_def Let_def split: list.split parse_state.split)

lemma json_run_step_eq:
  assumes "scan_step s c = scan_step s' c"
    and "\<And>opc t. scan_step s' c = Some (opc, t) \<Longrightarrow> build opc c b = build opc c b'"
  shows "json_run s b (c # rest) = json_run s' b' (c # rest)"
  using assms by (auto split: option.split prod.split)

text \<open>Bytes that only extend the literal.\<close>

lemma json_run_continue:
  "bd_lit b = Some l \<Longrightarrow> scan_step s c = Some (ScanContinue, s') \<Longrightarrow>
   json_run s b (c # rest) = json_run s' (b\<lparr>bd_lit := Some (l @ [c])\<rparr>) rest"
  by (simp add: build_def)

lemma string_body_run:
  "string_body body \<Longrightarrow> sc_step s = StateInString \<Longrightarrow> bd_lit b = Some l \<Longrightarrow>
   json_run s b (body @ rest) = json_run s (b\<lparr>bd_lit := Some (l @ body)\<rparr>) rest"
proof (induction body arbitrary: b l rule: string_body.induct)
  case string_body_Nil
  then show ?case by (cases b) simp
next
  case (string_body_plain c cs)
  then have "scan_step s c = Some (ScanContinue, s)" by (auto simp: scan_step_def)
  with string_body_plain show ?case by (simp add: json_run_continue del: json_run.simps)
next
  case (string_body_esc e cs)
  have "scan_step s 0x5c = Some (ScanContinue, s\<lparr>sc_step := StateInStringEsc\<rparr>)"
    "scan_step (s\<lparr>sc_step := StateInStringEsc\<rparr>) e = Some (ScanContinue, s)"
    using string_body_esc stay [of s StateInString] by (auto simp: scan_step_def go_to_def)
  with string_body_esc show ?case
    by (simp add: json_run_continue [where l = l] json_run_continue [where l = "l @ [0x5c]"] del: json_run.simps)
next
  case (string_body_hex hs cs)
  then obtain h1 h2 h3 h4 where hs: "hs = [h1, h2, h3, h4]" "is_hex h1" "is_hex h2" "is_hex h3" "is_hex h4"
    by (auto simp: numeral_eq_Suc length_Suc_conv)
  have steps: "scan_step s 0x5c = Some (ScanContinue, s\<lparr>sc_step := StateInStringEsc\<rparr>)"
    "scan_step (s\<lparr>sc_step := StateInStringEsc\<rparr>) 0x75 = Some (ScanContinue, s\<lparr>sc_step := StateInStringEscU 3\<rparr>)"
    "scan_step (s\<lparr>sc_step := StateInStringEscU 3\<rparr>) h1 = Some (ScanContinue, s\<lparr>sc_step := StateInStringEscU 2\<rparr>)"
    "scan_step (s\<lparr>sc_step := StateInStringEscU 2\<rparr>) h2 = Some (ScanContinue, s\<lparr>sc_step := StateInStringEscU 1\<rparr>)"
    "scan_step (s\<lparr>sc_step := StateInStringEscU 1\<rparr>) h3 = Some (ScanContinue, s\<lparr>sc_step := StateInStringEscU 0\<rparr>)"
    "scan_step (s\<lparr>sc_step := StateInStringEscU 0\<rparr>) h4 = Some (ScanContinue, s)"
    using hs string_body_hex.prems stay [of s StateInString] by (auto simp: scan_step_def go_to_def)
  show ?case
    using string_body_hex steps hs(1) by (simp add: build_def)
qed

lemma digits_run:
  "list_all is_digit ds \<Longrightarrow> sc_step s = StateInt1 \<Longrightarrow> bd_lit b = Some l \<Longrightarrow>
   json_run s b (ds @ rest) = json_run s (b\<lparr>bd_lit := Some (l @ ds)\<rparr>) rest"
proof (induction ds arbitrary: b l)
  case Nil
  then show ?case by (cases b) simp
next
  case (Cons d ds)
  then have "scan_step s d = Some (ScanContinue, s)" by (simp add: scan_step_def)
  with Cons show ?case by (simp add: json_run_continue del: json_run.simps)
qed

text \<open>The byte behind a literal: the scanner moves on as from a finished value.\<close>

definition after_lit :: "scanner \<Rightarrow> scan_state \<Rightarrow> byte \<Rightarrow> bool" where
  "after_lit s st c \<longleftrightarrow> scan_step (s\<lparr>sc_step := st\<rparr>) c = state_end_value s c"

lemma deliver_lit: "deliver v b = Some b1 \<Longrightarrow> bd_lit b1 = bd_lit b"
  by (auto simp: deliver_def split: list.splits frame.splits option.splits json.splits if_splits)

lemma literal_ends:
  assumes "after_lit s st c" "bd_lit b = None" "deliver (JLit l) b = Some b1"
  shows "json_run (s\<lparr>sc_step := st\<rparr>) (b\<lparr>bd_lit := Some l\<rparr>) (c # rest) = json_run (s\<lparr>sc_step := StateEndValue\<rparr>) b1 (c # rest)"
proof (rule json_run_step_eq)
  show "scan_step (s\<lparr>sc_step := st\<rparr>) c = scan_step (s\<lparr>sc_step := StateEndValue\<rparr>) c"
    using assms(1) by (simp add: after_lit_def scan_step_def [of "s\<lparr>sc_step := StateEndValue\<rparr>"] end_value_step_irrelevant)
  fix opc t
  assume "scan_step (s\<lparr>sc_step := StateEndValue\<rparr>) c = Some (opc, t)"
  then have "state_end_value s c = Some (opc, t)"
    by (simp add: scan_step_def end_value_step_irrelevant)
  moreover have "deliver (JLit l) (b\<lparr>bd_lit := None\<rparr>) = Some b1" using assms(2,3) by (cases b) simp
  ultimately show "build opc c (b\<lparr>bd_lit := Some l\<rparr>) = build opc c b1"
    using end_value_op [of s c opc t] assms(2,3) deliver_lit [OF assms(3)] by (simp add: flush_lit_def)
qed

lemma after_lits:
  "after_lit s StateEndValue c" "delimiter c \<Longrightarrow> after_lit s StateInt1 c" "delimiter c \<Longrightarrow> after_lit s StateInt0 c"
  using delimiter_not_number [of c]
  by (auto simp: after_lit_def scan_step_def state_int0_def end_value_step_irrelevant)

text \<open>A string literal, as a value or as a key.\<close>

lemma string_lit_run:
  assumes "string_lit l" "bd_lit b = None" "deliver (JLit l) b = Some b1"
    and "scan_step s 0x22 = Some (ScanBeginLiteral, s\<lparr>sc_step := StateInString\<rparr>)"
  shows "json_run s b (l @ c # rest) = json_run (s\<lparr>sc_step := StateEndValue\<rparr>) b1 (c # rest)"
proof -
  from assms(1) obtain body where l: "l = 0x22 # body @ [0x22]" "string_body body" by (auto simp: string_lit_def)
  let ?s = "s\<lparr>sc_step := StateInString\<rparr>"
  have "json_run s b (l @ c # rest) = json_run ?s (b\<lparr>bd_lit := Some [0x22]\<rparr>) (body @ 0x22 # c # rest)"
    using assms(2,4) l(1) by (simp add: build_def)
  also have "\<dots> = json_run ?s (b\<lparr>bd_lit := Some (0x22 # body)\<rparr>) (0x22 # c # rest)"
    using string_body_run [OF l(2), of ?s "b\<lparr>bd_lit := Some [0x22]\<rparr>" "[0x22]"] by simp
  also have "\<dots> = json_run (s\<lparr>sc_step := StateEndValue\<rparr>) (b\<lparr>bd_lit := Some l\<rparr>) (c # rest)"
    using l(1) by (simp add: scan_step_def go_to_def build_def)
  also have "\<dots> = json_run (s\<lparr>sc_step := StateEndValue\<rparr>) b1 (c # rest)"
    using assms(2,3) by (intro literal_ends after_lits(1))
  finally show ?thesis .
qed

lemma nat_lit_run:
  assumes "nat_lit l" "bd_lit b = None" "deliver (JLit l) b = Some b1" "delimiter c" "sc_step s = StateBeginValue"
  shows "json_run s b (l @ c # rest) = json_run (s\<lparr>sc_step := StateEndValue\<rparr>) b1 (c # rest)"
  using assms(1) unfolding nat_lit_def
proof (elim disjE exE conjE)
  assume l: "l = [0x30]"
  have "json_run s b (l @ c # rest) = json_run (s\<lparr>sc_step := StateInt0\<rparr>) (b\<lparr>bd_lit := Some l\<rparr>) (c # rest)"
    using assms(2,5) l by (simp add: scan_step_def state_begin_value_def is_space_def go_to_def build_def)
  also have "\<dots> = json_run (s\<lparr>sc_step := StateEndValue\<rparr>) b1 (c # rest)"
    using assms by (intro literal_ends after_lits)
  finally show ?thesis .
next
  fix d ds
  assume l: "l = d # ds" "is_digit19 d" "list_all is_digit ds"
  let ?s = "s\<lparr>sc_step := StateInt1\<rparr>"
  have d: "\<not> is_space d" "d \<notin> {0x7b, 0x5b, 0x22, 0x2d, 0x30, 0x74, 0x66, 0x6e}"
    using l(2) by (auto simp: is_digit19_def is_space_def)
  have "json_run s b (l @ c # rest) = json_run ?s (b\<lparr>bd_lit := Some [d]\<rparr>) (ds @ c # rest)"
    using assms(2,5) l d by (simp add: scan_step_def state_begin_value_def go_to_def build_def)
  also have "\<dots> = json_run ?s (b\<lparr>bd_lit := Some l\<rparr>) (c # rest)"
    using digits_run [OF l(3), of ?s "b\<lparr>bd_lit := Some [d]\<rparr>" "[d]"] l(1) by simp
  also have "\<dots> = json_run (s\<lparr>sc_step := StateEndValue\<rparr>) b1 (c # rest)"
    using assms by (intro literal_ends after_lits)
  finally show ?thesis .
qed

lemma null_lit_run:
  assumes "bd_lit b = None" "deliver (JLit null_lit) b = Some b1" "sc_step s = StateBeginValue"
  shows "json_run s b (null_lit @ c # rest) = json_run (s\<lparr>sc_step := StateEndValue\<rparr>) b1 (c # rest)"
proof -
  have "json_run s b (null_lit @ c # rest) =
      json_run (s\<lparr>sc_step := StateEndValue\<rparr>) (b\<lparr>bd_lit := Some null_lit\<rparr>) (c # rest)"
    using assms(1,3) by (simp add: null_lit_def scan_step_def state_begin_value_def is_space_def is_digit19_def
        go_to_def build_def)
  also have "\<dots> = json_run (s\<lparr>sc_step := StateEndValue\<rparr>) b1 (c # rest)"
    using assms by (intro literal_ends after_lits(1))
  finally show ?thesis .
qed

lemma printed_lit_run:
  assumes "printed_lit l" "bd_lit b = None" "deliver (JLit l) b = Some b1" "delimiter c" "sc_step s = StateBeginValue"
  shows "json_run s b (l @ c # rest) = json_run (s\<lparr>sc_step := StateEndValue\<rparr>) b1 (c # rest)"
proof -
  have "scan_step s 0x22 = Some (ScanBeginLiteral, s\<lparr>sc_step := StateInString\<rparr>)"
    using assms(5) by (simp add: scan_step_def state_begin_value_def is_space_def go_to_def)
  with assms string_lit_run nat_lit_run null_lit_run show ?thesis
    unfolding printed_lit_def by blast
qed

section \<open>Arrays and objects\<close>

lemma comma_separated_append:
  "xs \<noteq> [] \<Longrightarrow> comma_separated (x # xs) = x @ 0x2c # comma_separated xs"
  by (cases xs) auto

text \<open>What the induction hypothesis says of a value, in the state that waits for one.\<close>

definition reads_back :: "json \<Rightarrow> bool" where
  "reads_back v \<longleftrightarrow>
     (\<forall>s b b1 c rest. sc_step s = StateBeginValue \<longrightarrow> bd_lit b = None \<longrightarrow> deliver v b = Some b1 \<longrightarrow> delimiter c \<longrightarrow>
        length (sc_parseState s) + json_depth v \<le> maxNestingDepth \<longrightarrow>
        json_run s b (json_text v @ c # rest) = json_run (s\<lparr>sc_step := StateEndValue\<rparr>) b1 (c # rest))"

lemma reads_backD:
  "reads_back v \<Longrightarrow> sc_step s = StateBeginValue \<Longrightarrow> bd_lit b = None \<Longrightarrow> deliver v b = Some b1 \<Longrightarrow> delimiter c \<Longrightarrow>
   length (sc_parseState s) + json_depth v \<le> maxNestingDepth \<Longrightarrow>
   json_run s b (json_text v @ c # rest) = json_run (s\<lparr>sc_step := StateEndValue\<rparr>) b1 (c # rest)"
  by (simp add: reads_back_def)

lemma elements_run:
  assumes "vs \<noteq> []" "\<forall>v \<in> set vs. reads_back v" "sc_step s = StateBeginValue" "bd_lit b = None"
    and "sc_parseState s = ParseArrayValue # ps" "bd_frames b = FArr acc # fs"
    and "\<forall>v \<in> set vs. Suc (length ps) + json_depth v \<le> maxNestingDepth"
  shows "json_run s b (comma_separated (map json_text vs) @ 0x5d # rest) =
         json_run (s\<lparr>sc_step := StateEndValue\<rparr>) (b\<lparr>bd_frames := FArr (acc @ vs) # fs\<rparr>) (0x5d # rest)"
  using assms
proof (induction vs arbitrary: s b acc)
  case Nil
  then show ?case by simp
next
  case (Cons v vs)
  let ?b = "b\<lparr>bd_frames := FArr (acc @ [v]) # fs\<rparr>"
  let ?s = "s\<lparr>sc_step := StateEndValue\<rparr>"
  have v: "json_run s b (json_text v @ c # r) = json_run ?s ?b (c # r)" if "delimiter c" for c r
    using Cons.prems that by (intro reads_backD) (auto simp: deliver_def)
  show ?case
  proof (cases "vs = []")
    case True
    then show ?thesis using v [of "0x5d"] by (simp add: delimiter_def del: json_run.simps)
  next
    case False
    let ?t = "s\<lparr>sc_step := StateBeginValue\<rparr>"
    have "json_run ?s ?b (0x2c # r) = json_run ?t ?b r" for r
      using Cons.prems(4,5)
      by (simp add: scan_step_def state_end_value_def is_space_def go_to_def build_def flush_lit_def punctuate_def
          in_array_def)
    then have "json_run s b (comma_separated (map json_text (v # vs)) @ 0x5d # rest) =
        json_run ?t ?b (comma_separated (map json_text vs) @ 0x5d # rest)"
      using v [of "0x2c"] False by (simp add: comma_separated_append delimiter_def del: json_run.simps)
    also have "\<dots> = json_run (?t\<lparr>sc_step := StateEndValue\<rparr>) (?b\<lparr>bd_frames := FArr ((acc @ [v]) @ vs) # fs\<rparr>) (0x5d # rest)"
      using Cons.prems False by (intro Cons.IH) auto
    finally show ?thesis by simp
  qed
qed

definition member_text :: "bytes \<times> json \<Rightarrow> bytes" where
  "member_text = (\<lambda>(k, v). k @ 0x3a # json_text v)"

lemma member_run:
  assumes "string_lit k" "reads_back v" "sc_step s = StateBeginString" "bd_lit b = None"
    and "sc_parseState s = ParseObjectKey # ps" "bd_frames b = FObj acc None # fs"
    and "Suc (length ps) + json_depth v \<le> maxNestingDepth" "delimiter c"
  shows "json_run s b (member_text (k, v) @ c # rest) =
         json_run (s\<lparr>sc_step := StateEndValue, sc_parseState := ParseObjectValue # ps\<rparr>)
           (b\<lparr>bd_frames := FObj (acc @ [(k, v)]) None # fs\<rparr>) (c # rest)"
proof -
  let ?bk = "b\<lparr>bd_frames := FObj acc (Some k) # fs\<rparr>"
  let ?sv = "s\<lparr>sc_step := StateBeginValue, sc_parseState := ParseObjectValue # ps\<rparr>"
  have "json_run s b (member_text (k, v) @ c # rest) =
      json_run (s\<lparr>sc_step := StateEndValue\<rparr>) ?bk (0x3a # json_text v @ c # rest)"
    using string_lit_run [OF assms(1,4), of ?bk s "0x3a" "json_text v @ c # rest"] assms(3,6)
    by (simp add: member_text_def deliver_def scan_step_def state_begin_string_def is_space_def go_to_def
        del: json_run.simps)
  also have "\<dots> = json_run ?sv ?bk (json_text v @ c # rest)"
    using assms(4,5) by (simp add: scan_step_def state_end_value_def is_space_def build_def flush_lit_def punctuate_def
        after_key_def)
  also have "\<dots> = json_run (?sv\<lparr>sc_step := StateEndValue\<rparr>) (b\<lparr>bd_frames := FObj (acc @ [(k, v)]) None # fs\<rparr>) (c # rest)"
    using assms by (intro reads_backD) (auto simp: deliver_def)
  finally show ?thesis by (cases s) (simp del: json_run.simps)
qed

lemma members_run:
  assumes "kvs \<noteq> []" "\<forall>(k, v) \<in> set kvs. string_lit k \<and> reads_back v" "sc_step s = StateBeginString" "bd_lit b = None"
    and "sc_parseState s = ParseObjectKey # ps" "bd_frames b = FObj acc None # fs"
    and "\<forall>(k, v) \<in> set kvs. Suc (length ps) + json_depth v \<le> maxNestingDepth"
  shows "json_run s b (comma_separated (map member_text kvs) @ 0x7d # rest) =
         json_run (s\<lparr>sc_step := StateEndValue, sc_parseState := ParseObjectValue # ps\<rparr>)
           (b\<lparr>bd_frames := FObj (acc @ kvs) None # fs\<rparr>) (0x7d # rest)"
  using assms
proof (induction kvs arbitrary: s b acc)
  case Nil
  then show ?case by simp
next
  case (Cons kv kvs)
  obtain k v where kv: "kv = (k, v)" by (cases kv)
  let ?b = "b\<lparr>bd_frames := FObj (acc @ [(k, v)]) None # fs\<rparr>"
  let ?s = "s\<lparr>sc_step := StateEndValue, sc_parseState := ParseObjectValue # ps\<rparr>"
  have m: "json_run s b (member_text (k, v) @ c # r) = json_run ?s ?b (c # r)" if "delimiter c" for c r
    using Cons.prems kv that by (intro member_run) auto
  show ?case
  proof (cases "kvs = []")
    case True
    then show ?thesis using m [of "0x7d"] kv by (simp add: delimiter_def del: json_run.simps)
  next
    case False
    let ?t = "s\<lparr>sc_step := StateBeginString, sc_parseState := ParseObjectKey # ps\<rparr>"
    have "json_run ?s ?b (0x2c # r) = json_run ?t ?b r" for r
      using Cons.prems(4) by (simp add: scan_step_def state_end_value_def is_space_def build_def flush_lit_def
          punctuate_def before_key_def)
    then have "json_run s b (comma_separated (map member_text (kv # kvs)) @ 0x7d # rest) =
        json_run ?t ?b (comma_separated (map member_text kvs) @ 0x7d # rest)"
      using m [of "0x2c"] False kv by (simp add: comma_separated_append delimiter_def del: json_run.simps)
    also have "\<dots> = json_run (?t\<lparr>sc_step := StateEndValue, sc_parseState := ParseObjectValue # ps\<rparr>)
        (?b\<lparr>bd_frames := FObj ((acc @ [(k, v)]) @ kvs) None # fs\<rparr>) (0x7d # rest)"
      using Cons.prems False by (intro Cons.IH) auto
    finally show ?thesis using kv by (cases s) (simp del: json_run.simps)
  qed
qed

text \<open>Behind the closing byte the scanner is where a finished value leaves it, also at the top level.\<close>

lemma popped_run:
  fixes s :: scanner
  assumes "sc_parseState s = ps"
  shows "json_run (pop_parse (s\<lparr>sc_step := st, sc_parseState := p # ps\<rparr>)) b (c # rest) =
         json_run (s\<lparr>sc_step := StateEndValue\<rparr>) b (c # rest)"
proof (cases ps)
  case Nil
  let ?t = "s\<lparr>sc_step := StateEndTop, sc_parseState := [], sc_endTop := True\<rparr>"
  have "?t = s\<lparr>sc_step := StateEndTop, sc_endTop := True\<rparr>" using assms Nil by (cases s) simp
  then have "scan_step ?t c = scan_step (s\<lparr>sc_step := StateEndValue\<rparr>) c"
    using assms Nil by (simp add: scan_step_def state_end_value_def)
  from json_run_step_eq [OF this refl] Nil show ?thesis
    by (simp add: pop_parse_def del: json_run.simps)
next
  case (Cons q qs)
  have "pop_parse (s\<lparr>sc_step := st, sc_parseState := p # ps\<rparr>) = s\<lparr>sc_step := StateEndValue\<rparr>"
    using assms Cons by (cases s) (simp add: pop_parse_def)
  then show ?thesis by (simp del: json_run.simps)
qed

lemma closing_step:
  fixes b :: builder
  assumes "bd_lit b = None" "deliver (frame_value f) b = Some b1"
    and "p = ParseArrayValue \<and> d = 0x5d \<and> f = FArr vs \<or> p = ParseObjectValue \<and> d = 0x7d \<and> f = FObj kvs None"
  shows "json_run (s\<lparr>sc_step := StateEndValue, sc_parseState := p # ps\<rparr>) (b\<lparr>bd_frames := f # bd_frames b\<rparr>) (d # rest) =
         json_run (pop_parse (s\<lparr>sc_step := StateEndValue, sc_parseState := p # ps\<rparr>)) b1 rest"
proof -
  have "deliver (frame_value f) (b\<lparr>bd_frames := bd_frames b\<rparr>) = Some b1" using assms(2) by (cases b) simp
  with assms(1,3) show ?thesis
    by (elim disjE conjE) (simp_all add: scan_step_def state_end_value_def is_space_def build_def flush_lit_def
        punctuate_def in_array_def before_key_def close_frame_def)
qed

lemma closing_run:
  fixes b :: builder
  assumes "bd_lit b = None" "deliver (frame_value f) b = Some b1" "sc_parseState s = ps"
    and "p = ParseArrayValue \<and> d = 0x5d \<and> f = FArr vs \<or> p = ParseObjectValue \<and> d = 0x7d \<and> f = FObj kvs None"
  shows "json_run (s\<lparr>sc_step := StateEndValue, sc_parseState := p # ps\<rparr>) (b\<lparr>bd_frames := f # bd_frames b\<rparr>) (d # c # rest) =
         json_run (s\<lparr>sc_step := StateEndValue\<rparr>) b1 (c # rest)"
  using closing_step [OF assms(1,2,4), where s = s and ps = ps and rest = "c # rest"] popped_run [OF assms(3)] by (simp del: json_run.simps)

lemma json_text_first:
  "json_printed v \<Longrightarrow> \<exists>c cs. json_text v = c # cs \<and> \<not> is_space c \<and> c \<noteq> 0x5d"
  by (cases v) (auto simp: printed_lit_def string_lit_def nat_lit_def null_lit_def is_space_def is_digit19_def)

lemma first_value_run:
  assumes "cs = c # cs'" "\<not> is_space c" "c \<noteq> 0x5d"
  shows "json_run (s\<lparr>sc_step := StateBeginValueOrEmpty\<rparr>) b cs = json_run (s\<lparr>sc_step := StateBeginValue\<rparr>) b cs"
  unfolding assms(1)
  by (rule json_run_step_eq) (use assms(2-) in \<open>auto simp: scan_step_def state_begin_value_def go_to_def push_parse_def\<close>)

lemma first_key_run:
  assumes "string_lit k"
  shows "json_run (s\<lparr>sc_step := StateBeginStringOrEmpty\<rparr>) b (k @ rest) = json_run (s\<lparr>sc_step := StateBeginString\<rparr>) b (k @ rest)"
proof -
  from assms obtain k' where "k = 0x22 # k'" by (auto simp: string_lit_def)
  then show ?thesis
    by (auto simp: scan_step_def is_space_def state_begin_string_def go_to_def)
qed

lemma depth_element: "v \<in> set vs \<Longrightarrow> n + json_depth (JArr vs) \<le> m \<Longrightarrow> Suc n + json_depth v \<le> m"
proof -
  assume "v \<in> set vs"
  then have "json_depth v \<le> Max (insert 0 (set (map json_depth vs)))" by (auto intro!: Max_ge)
  then show "n + json_depth (JArr vs) \<le> m \<Longrightarrow> Suc n + json_depth v \<le> m" by simp
qed

lemma depth_member: "(k, v) \<in> set kvs \<Longrightarrow> n + json_depth (JObj kvs) \<le> m \<Longrightarrow> Suc n + json_depth v \<le> m"
proof -
  assume "(k, v) \<in> set kvs"
  then have "json_depth v \<le> Max (insert 0 (set (map (\<lambda>(k, v). json_depth v) kvs)))" by (force intro!: Max_ge)
  then show "n + json_depth (JObj kvs) \<le> m \<Longrightarrow> Suc n + json_depth v \<le> m" by simp
qed

lemma array_reads_back:
  assumes "\<forall>v \<in> set vs. json_printed v \<and> reads_back v"
  shows "reads_back (JArr vs)"
  unfolding reads_back_def
proof (intro allI impI)
  fix s :: scanner and b b1 :: builder and c rest
  assume s: "sc_step s = StateBeginValue" and b: "bd_lit b = None" "deliver (JArr vs) b = Some b1"
    and d: "length (sc_parseState s) + json_depth (JArr vs) \<le> maxNestingDepth"
  let ?ps = "sc_parseState s"
  let ?s = "s\<lparr>sc_parseState := ParseArrayValue # ?ps\<rparr>"
  let ?b = "b\<lparr>bd_frames := FArr [] # bd_frames b\<rparr>"
  have deep: "\<forall>v \<in> set vs. Suc (length ?ps) + json_depth v \<le> maxNestingDepth"
    using depth_element [OF _ d] by blast
  have open_run: "json_run s b (0x5b # r) = json_run (?s\<lparr>sc_step := StateBeginValueOrEmpty\<rparr>) ?b r" for r
    using s b d by (cases s) (simp add: scan_step_def state_begin_value_def is_space_def push_parse_def build_def flush_lit_def
        punctuate_def)
  have close: "json_run (?s\<lparr>sc_step := StateEndValue\<rparr>) (b\<lparr>bd_frames := FArr vs # bd_frames b\<rparr>) (0x5d # c # rest) =
      json_run (s\<lparr>sc_step := StateEndValue\<rparr>) b1 (c # rest)"
    using closing_run [of b "FArr vs" b1 s ?ps ParseArrayValue "0x5d" vs "[]" c rest] b
    by (cases s) (simp del: json_run.simps)
  show "json_run s b (json_text (JArr vs) @ c # rest) = json_run (s\<lparr>sc_step := StateEndValue\<rparr>) b1 (c # rest)"
  proof (cases "vs = []")
    case True
    have "json_run (?s\<lparr>sc_step := StateBeginValueOrEmpty\<rparr>) ?b (0x5d # c # rest) =
        json_run (?s\<lparr>sc_step := StateEndValue\<rparr>) ?b (0x5d # c # rest)"
      by (rule json_run_step_eq) (simp_all add: scan_step_def is_space_def end_value_step_irrelevant)
    with True open_run close show ?thesis by (simp del: json_run.simps)
  next
    case False
    then obtain v ws where vs: "vs = v # ws" by (cases vs) auto
    with json_text_first [of v] assms obtain x xs where x: "json_text v = x # xs" "\<not> is_space x" "x \<noteq> 0x5d" by auto
    let ?cs = "comma_separated (map json_text vs) @ 0x5d # c # rest"
    have "\<exists>cs'. ?cs = x # cs'" using vs x by (cases ws) auto
    with first_value_run x have "json_run s b (json_text (JArr vs) @ c # rest) = json_run (?s\<lparr>sc_step := StateBeginValue\<rparr>) ?b ?cs"
      using open_run by (fastforce simp del: json_run.simps)
    also have "\<dots> = json_run ((?s\<lparr>sc_step := StateBeginValue\<rparr>)\<lparr>sc_step := StateEndValue\<rparr>)
        (?b\<lparr>bd_frames := FArr ([] @ vs) # bd_frames b\<rparr>) (0x5d # c # rest)"
      using assms False b deep by (intro elements_run [where ps = ?ps]) auto
    finally show ?thesis using close by (simp del: json_run.simps)
  qed
qed

lemma object_reads_back:
  assumes "\<forall>(k, v) \<in> set kvs. string_lit k \<and> reads_back v"
  shows "reads_back (JObj kvs)"
  unfolding reads_back_def
proof (intro allI impI)
  fix s :: scanner and b b1 :: builder and c rest
  assume s: "sc_step s = StateBeginValue" and b: "bd_lit b = None" "deliver (JObj kvs) b = Some b1"
    and d: "length (sc_parseState s) + json_depth (JObj kvs) \<le> maxNestingDepth"
  let ?ps = "sc_parseState s"
  let ?s = "s\<lparr>sc_parseState := ParseObjectKey # ?ps\<rparr>"
  let ?e = "s\<lparr>sc_step := StateEndValue, sc_parseState := ParseObjectValue # ?ps\<rparr>"
  let ?b = "b\<lparr>bd_frames := FObj [] None # bd_frames b\<rparr>"
  have deep: "\<forall>(k, v) \<in> set kvs. Suc (length ?ps) + json_depth v \<le> maxNestingDepth"
    using depth_member [OF _ d] by blast
  have shape: "json_text (JObj kvs) = 0x7b # comma_separated (map member_text kvs) @ [0x7d]"
    by (simp add: member_text_def)
  have open_run: "json_run s b (0x7b # r) = json_run (?s\<lparr>sc_step := StateBeginStringOrEmpty\<rparr>) ?b r" for r
    using s b d by (cases s) (simp add: scan_step_def state_begin_value_def is_space_def push_parse_def build_def flush_lit_def
        punctuate_def)
  have close: "json_run ?e (b\<lparr>bd_frames := FObj kvs None # bd_frames b\<rparr>) (0x7d # c # rest) =
      json_run (s\<lparr>sc_step := StateEndValue\<rparr>) b1 (c # rest)"
    using closing_run [of b "FObj kvs None" b1 s ?ps ParseObjectValue "0x7d" "[]" kvs c rest] b
    by (simp del: json_run.simps)
  show "json_run s b (json_text (JObj kvs) @ c # rest) = json_run (s\<lparr>sc_step := StateEndValue\<rparr>) b1 (c # rest)"
  proof (cases kvs)
    case Nil
    have "json_run (?s\<lparr>sc_step := StateBeginStringOrEmpty\<rparr>) ?b (0x7d # c # rest) = json_run ?e ?b (0x7d # c # rest)"
      by (rule json_run_step_eq)
         (simp_all add: scan_step_def is_space_def state_end_value_def pop_parse_def Let_def)
    with Nil open_run close show ?thesis by (simp del: json_run.simps)
  next
    case (Cons kv ws)
    obtain k v where kv: "kv = (k, v)" by (cases kv)
    let ?t = "?s\<lparr>sc_step := StateBeginString\<rparr>"
    let ?cs = "comma_separated (map member_text kvs) @ 0x7d # c # rest"
    have "\<exists>r. ?cs = k @ r" using Cons kv by (cases ws) (auto simp: member_text_def)
    moreover have "string_lit k" using assms Cons kv by auto
    ultimately have "json_run (?s\<lparr>sc_step := StateBeginStringOrEmpty\<rparr>) ?b ?cs = json_run ?t ?b ?cs"
      using first_key_run [of k ?s] by force
    then have "json_run s b (json_text (JObj kvs) @ c # rest) = json_run ?t ?b ?cs"
      using open_run by (simp add: shape del: json_run.simps json_text.simps)
    also have "\<dots> = json_run (?t\<lparr>sc_step := StateEndValue, sc_parseState := ParseObjectValue # ?ps\<rparr>)
        (?b\<lparr>bd_frames := FObj ([] @ kvs) None # bd_frames b\<rparr>) (0x7d # c # rest)"
      using assms Cons b deep by (intro members_run [where ps = ?ps]) auto
    finally show ?thesis using close by (cases s) (simp del: json_run.simps json_text.simps)
  qed
qed

lemma printed_reads_back: "json_printed v \<Longrightarrow> reads_back v"
proof (induction v)
  case (JLit l)
  then show ?case by (auto simp: reads_back_def intro!: printed_lit_run simp del: json_run.simps)
next
  case (JArr vs)
  then show ?case by (intro array_reads_back) auto
next
  case (JObj kvs)
  have "string_lit k \<and> reads_back v" if "(k, v) \<in> set kvs" for k v
    using JObj.IH [OF that, of v] JObj.prems that by (auto simp: snds.simps)
  then show ?case by (intro object_reads_back) auto
qed

text \<open>Reading a printed text back gives the value.\<close>

lemma json_parse_text:
  assumes "json_printed v" "json_depth v \<le> maxNestingDepth"
  shows "json_parse (json_text v) = Some v"
proof -
  have "deliver v builder_start = Some (builder_start\<lparr>bd_top := Some v\<rparr>)"
    by (simp add: deliver_def builder_start_def)
  then have "json_run scan_start builder_start (json_text v @ [0x20]) =
      json_run (scan_start\<lparr>sc_step := StateEndValue\<rparr>) (builder_start\<lparr>bd_top := Some v\<rparr>) [0x20]"
    using assms by (intro reads_backD [OF printed_reads_back])
      (auto simp: scan_start_def builder_start_def delimiter_def)
  then show ?thesis
    by (simp add: json_parse_def scan_step_def state_end_value_def scan_start_def is_space_def build_def flush_lit_def
        punctuate_def builder_start_def)
qed

lemma json_valid_text: "json_printed v \<Longrightarrow> json_depth v \<le> maxNestingDepth \<Longrightarrow> json_valid (json_text v)"
  by (simp add: json_parse_valid json_parse_text)

end
