(* ===== verification/Json_String.thy ===== *)
theory Json_String
  imports Json
begin

text \<open>
  Strings in \<open>encoding/json\<close>: \<open>unquoteBytes\<close> of the decoder and the quoting of the encoder with HTML
  escaping, over the UTF-8 functions of \<open>unicode/utf8\<close> and \<open>unicode/utf16\<close>.  Invalid UTF-8 becomes the
  replacement character on both sides.
\<close>

section \<open>UTF-8\<close>

definition between :: "byte \<Rightarrow> byte \<Rightarrow> byte \<Rightarrow> bool" where
  "between lo hi c \<longleftrightarrow> lo \<le> c \<and> c \<le> hi"

definition is_cont :: "byte \<Rightarrow> bool" where
  "is_cont c = between 0x80 0xbf c"

definition second_ok :: "byte \<Rightarrow> byte \<Rightarrow> bool" where
  "second_ok b0 b1 =
     (if b0 = 0xe0 then between 0xa0 0xbf b1
      else if b0 = 0xed then between 0x80 0x9f b1
      else if b0 = 0xf0 then between 0x90 0xbf b1
      else if b0 = 0xf4 then between 0x80 0x8f b1
      else is_cont b1)"

text \<open>The size of the first rune of \<open>utf8.DecodeRune\<close>; 0 stands for \<open>(RuneError, 1)\<close>.\<close>

fun rune_size :: "bytes \<Rightarrow> nat" where
  "rune_size [] = 0"
| "rune_size (b0 # bs) =
     (if b0 < 0x80 then 1
      else if between 0xc2 0xdf b0 then (case bs of b1 # _ \<Rightarrow> if is_cont b1 then 2 else 0 | _ \<Rightarrow> 0)
      else if between 0xe0 0xef b0
        then (case bs of b1 # b2 # _ \<Rightarrow> if second_ok b0 b1 \<and> is_cont b2 then 3 else 0 | _ \<Rightarrow> 0)
      else if between 0xf0 0xf4 b0
        then (case bs of b1 # b2 # b3 # _ \<Rightarrow> if second_ok b0 b1 \<and> is_cont b2 \<and> is_cont b3 then 4 else 0 | _ \<Rightarrow> 0)
      else 0)"

declare rune_size.simps(2) [simp del]

definition rune_error :: bytes where
  "rune_error = [0xef, 0xbf, 0xbd]"

definition EncodeRune :: "nat \<Rightarrow> bytes" where
  "EncodeRune r =
     (if r \<le> 0x7f then [of_nat r]
      else if r \<le> 0x7ff then [of_nat (0xc0 + r div 64), of_nat (0x80 + r mod 64)]
      else if r > 0x10ffff \<or> (0xd800 \<le> r \<and> r \<le> 0xdfff) then rune_error
      else if r \<le> 0xffff
        then [of_nat (0xe0 + r div 4096), of_nat (0x80 + r div 64 mod 64), of_nat (0x80 + r mod 64)]
      else [of_nat (0xf0 + r div 262144), of_nat (0x80 + r div 4096 mod 64), of_nat (0x80 + r div 64 mod 64),
            of_nat (0x80 + r mod 64)])"

fun valid_utf8 :: "bytes \<Rightarrow> bool" where
  "valid_utf8 [] = True"
| "valid_utf8 (c # cs) = (rune_size (c # cs) \<noteq> 0 \<and> valid_utf8 (drop (rune_size (c # cs) - 1) cs))"

section \<open>Unquoting\<close>

definition hex_value :: "byte \<Rightarrow> nat option" where
  "hex_value c =
     (if is_digit c then Some (unat c - 0x30)
      else if 0x61 \<le> c \<and> c \<le> 0x66 then Some (unat c - 0x61 + 10)
      else if 0x41 \<le> c \<and> c \<le> 0x46 then Some (unat c - 0x41 + 10)
      else None)"

text \<open>\<open>getu4\<close> behind the \<open>\u\<close>: four hexadecimal digits.\<close>

fun hex4 :: "bytes \<Rightarrow> nat option" where
  "hex4 (a # b # c # d # _) =
     Option.bind (hex_value a) (\<lambda>a. Option.bind (hex_value b) (\<lambda>b. Option.bind (hex_value c) (\<lambda>c.
       map_option (\<lambda>d. ((a * 16 + b) * 16 + c) * 16 + d) (hex_value d))))"
| "hex4 _ = None"

fun getu4 :: "bytes \<Rightarrow> nat option" where
  "getu4 (a # b # cs) = (if a = 0x5c \<and> b = 0x75 then hex4 cs else None)"
| "getu4 _ = None"

definition IsSurrogate :: "nat \<Rightarrow> bool" where
  "IsSurrogate r \<longleftrightarrow> 0xd800 \<le> r \<and> r < 0xe000"

text \<open>\<open>utf16.DecodeRune\<close> of a surrogate and what follows; \<^const>\<open>None\<close> is the replacement character.\<close>

definition utf16_DecodeRune :: "nat \<Rightarrow> nat option \<Rightarrow> nat option" where
  "utf16_DecodeRune r1 r2 =
     (case r2 of
        Some r \<Rightarrow> if 0xd800 \<le> r1 \<and> r1 < 0xdc00 \<and> 0xdc00 \<le> r \<and> r < 0xe000
                  then Some ((r1 - 0xd800) * 1024 + (r - 0xdc00) + 0x10000) else None
      | None \<Rightarrow> None)"

definition escape_value :: "byte \<Rightarrow> byte option" where
  "escape_value e =
     (if e \<in> {0x22, 0x5c, 0x2f, 0x27} then Some e
      else if e = 0x62 then Some 0x08
      else if e = 0x66 then Some 0x0c
      else if e = 0x6e then Some 0x0a
      else if e = 0x72 then Some 0x0d
      else if e = 0x74 then Some 0x09
      else None)"

text \<open>The part between the quotes; \<^const>\<open>None\<close> is the result \<open>ok = false\<close>.\<close>

function unquote_body :: "bytes \<Rightarrow> bytes option" where
  "unquote_body [] = Some []"
| "unquote_body (c # cs) =
     (if c = 0x5c then
        (case cs of
           [] \<Rightarrow> None
         | e # es \<Rightarrow>
             if e = 0x75 then
               (case hex4 es of
                  None \<Rightarrow> None
                | Some rr \<Rightarrow>
                    if IsSurrogate rr then
                      (case utf16_DecodeRune rr (getu4 (drop 4 es)) of
                         Some r \<Rightarrow> map_option (append (EncodeRune r)) (unquote_body (drop 10 es))
                       | None \<Rightarrow> map_option (append rune_error) (unquote_body (drop 4 es)))
                    else map_option (append (EncodeRune rr)) (unquote_body (drop 4 es)))
             else (case escape_value e of
                     None \<Rightarrow> None
                   | Some x \<Rightarrow> map_option ((#) x) (unquote_body es)))
      else if c = 0x22 \<or> c < 0x20 then None
      else if c < 0x80 then map_option ((#) c) (unquote_body cs)
      else if rune_size (c # cs) = 0 then map_option (append rune_error) (unquote_body cs)
      else map_option (append (take (rune_size (c # cs)) (c # cs)))
             (unquote_body (drop (rune_size (c # cs) - 1) cs)))"

  by pat_completeness auto

termination unquote_body
  by (relation "measure length") auto

definition unquoteBytes :: "bytes \<Rightarrow> bytes option" where
  "unquoteBytes s =
     (if length s < 2 \<or> hd s \<noteq> 0x22 \<or> last s \<noteq> 0x22 then None else unquote_body (butlast (tl s)))"

declare unquote_body.simps(2) [simp del]

section \<open>Quoting\<close>

definition htmlSafe :: "byte \<Rightarrow> bool" where
  "htmlSafe b \<longleftrightarrow> 0x20 \<le> b \<and> b \<notin> {0x22, 0x26, 0x3c, 0x3e, 0x5c}"

definition hex_digit :: "nat \<Rightarrow> byte" where
  "hex_digit n = (if n < 10 then of_nat (0x30 + n) else of_nat (0x61 + (n - 10)))"

definition escape_ascii :: "byte \<Rightarrow> bytes" where
  "escape_ascii b =
     0x5c # (if b = 0x5c \<or> b = 0x22 then [b]
             else if b = 0x0a then [0x6e]
             else if b = 0x0d then [0x72]
             else if b = 0x09 then [0x74]
             else [0x75, 0x30, 0x30, hex_digit (unat b div 16), hex_digit (unat b mod 16)])"

function quote_body :: "bytes \<Rightarrow> bytes" where
  "quote_body [] = []"
| "quote_body (c # cs) =
     (if c < 0x80 then (if htmlSafe c then [c] else escape_ascii c) @ quote_body cs
      else if rune_size (c # cs) = 0 then [0x5c, 0x75, 0x66, 0x66, 0x66, 0x64] @ quote_body cs
      else if take 3 (c # cs) = [0xe2, 0x80, 0xa8] then [0x5c, 0x75, 0x32, 0x30, 0x32, 0x38] @ quote_body (drop 2 cs)
      else if take 3 (c # cs) = [0xe2, 0x80, 0xa9] then [0x5c, 0x75, 0x32, 0x30, 0x32, 0x39] @ quote_body (drop 2 cs)
      else take (rune_size (c # cs)) (c # cs) @ quote_body (drop (rune_size (c # cs) - 1) cs))"

  by pat_completeness auto

termination quote_body
  by (relation "measure length") auto

definition quote_string :: "bytes \<Rightarrow> bytes" where
  "quote_string s = 0x22 # quote_body s @ [0x22]"

declare quote_body.simps(2) [simp del]

section \<open>Unquoting succeeds on every string literal\<close>

inductive_cases string_body_ConsE: "string_body (c # cs)"

lemma between_high: "between lo hi c \<Longrightarrow> 0x80 \<le> lo \<Longrightarrow> 0x80 \<le> c"
  by (auto simp: between_def)

lemma second_ok_high: "second_ok b0 b1 \<Longrightarrow> 0x80 \<le> b1"
  by (auto simp: second_ok_def is_cont_def elim!: between_high split: if_splits)

lemma is_cont_high: "is_cont c \<Longrightarrow> 0x80 \<le> c"
  by (auto simp: is_cont_def elim: between_high)

lemma high_bytes:
  assumes "(0x80 :: byte) \<le> b"
  shows "b \<noteq> 0x5c" "b \<noteq> 0x22" "\<not> b < 0x20" "\<not> b < 0x80"
  using assms by (auto simp: not_less elim: order.trans [of "0x20 :: byte" "0x80", rotated])

text \<open>The bytes of a rune behind the first are continuation bytes.\<close>

lemma rune_size_tail:
  "list_all (\<lambda>b. 0x80 \<le> b) (take (rune_size (c # cs) - 1) cs) \<and> rune_size (c # cs) \<le> Suc (length cs)"
  by (auto simp: rune_size.simps split: list.split dest: second_ok_high is_cont_high)

lemma string_body_high: "string_body (b # bs) \<Longrightarrow> 0x80 \<le> b \<Longrightarrow> string_body bs"
  by (erule string_body_ConsE) (auto dest: high_bytes)

lemma string_body_drop_high:
  "string_body bs \<Longrightarrow> list_all (\<lambda>b. 0x80 \<le> b) (take n bs) \<Longrightarrow> string_body (drop n bs)"
proof (induction n arbitrary: bs)
  case 0
  then show ?case by simp
next
  case (Suc n)
  then show ?case by (cases bs) (auto dest: string_body_high)
qed

lemma is_hex_value: "is_hex c \<Longrightarrow> \<exists>n. hex_value c = Some n"
  by (auto simp: is_hex_def hex_value_def)

lemma hex4_digits: "list_all is_hex hs \<Longrightarrow> length hs = 4 \<Longrightarrow> \<exists>n. hex4 (hs @ cs) = Some n"
  by (auto simp: numeral_eq_Suc length_Suc_conv dest!: is_hex_value)

lemma string_body_escapeE:
  assumes "string_body (0x5c # cs)"
  obtains e es where "cs = e # es" "e \<in> {0x62, 0x66, 0x6e, 0x72, 0x74, 0x5c, 0x2f, 0x22}" "string_body es"
  | hs es where "cs = 0x75 # hs @ es" "list_all is_hex hs" "length hs = 4" "string_body es"
  using assms by (auto elim: string_body_ConsE)

lemma string_body_second_unit:
  assumes "string_body bs" "getu4 bs = Some r"
  shows "string_body (drop 6 bs)"
proof -
  from assms(2) obtain cs where bs: "bs = 0x5c # 0x75 # cs"
    by (cases bs rule: getu4.cases) (auto split: if_splits)
  with assms(1) have "string_body (0x5c # 0x75 # cs)" by simp
  then show ?thesis
    by (cases rule: string_body_escapeE) (auto simp: bs)
qed

lemma unquote_escape_total:
  assumes body: "string_body (0x5c # cs)"
    and IH: "\<And>bs. string_body bs \<Longrightarrow> length bs < length (0x5c # cs) \<Longrightarrow> \<exists>t. unquote_body bs = Some t"
  shows "\<exists>t. unquote_body (0x5c # cs) = Some t"
  using body
proof (cases rule: string_body_escapeE)
  case (1 e es)
  with IH [of es] obtain t where "unquote_body es = Some t" by auto
  moreover from 1(2) obtain x where "escape_value e = Some x" "e \<noteq> 0x75" by (auto simp: escape_value_def)
  ultimately show ?thesis using 1(1) by (simp add: unquote_body.simps)
next
  case (2 hs es)
  from hex4_digits [OF 2(2,3), of es] obtain rr where rr: "hex4 (hs @ es) = Some rr" by blast
  have rest: "drop 4 (hs @ es) = es" "drop 10 (hs @ es) = drop 6 es" using 2(3) by simp_all
  obtain t where t: "unquote_body es = Some t" using IH [of es] 2 by auto
  show ?thesis
  proof (cases "IsSurrogate rr \<and> (\<exists>r. utf16_DecodeRune rr (getu4 es) = Some r)")
    case True
    then obtain r r2 where r: "utf16_DecodeRune rr (getu4 es) = Some r" "getu4 es = Some r2"
      by (auto simp: utf16_DecodeRune_def split: option.splits)
    have "length (drop 6 es) < length (0x5c # cs)" using 2(1) by simp
    with string_body_second_unit [OF 2(4) r(2)] IH obtain u where "unquote_body (drop 6 es) = Some u"
      by blast
    with True r rr rest 2(1) show ?thesis by (simp add: unquote_body.simps)
  next
    case False
    with t rr rest 2(1) show ?thesis by (auto simp: unquote_body.simps split: option.split)
  qed
qed

lemma unquote_total: "string_body bs \<Longrightarrow> \<exists>t. unquote_body bs = Some t"
proof (induction bs rule: length_induct)
  case (1 bs)
  show ?case
  proof (cases bs)
    case Nil
    then show ?thesis by simp
  next
    case (Cons c cs)
    show ?thesis
    proof (cases "c = 0x5c")
      case True
      with unquote_escape_total [of cs] 1 Cons show ?thesis by auto
    next
      case False
      with 1(2) Cons have c: "c \<noteq> 0x22" "\<not> c < 0x20" "string_body cs" by (auto elim: string_body_ConsE)
      let ?n = "rune_size (c # cs) - 1"
      have "string_body (drop ?n cs)"
        using string_body_drop_high [OF c(3)] rune_size_tail by blast
      then obtain t u where "unquote_body cs = Some t" "unquote_body (drop ?n cs) = Some u"
        using 1(1) c(3) Cons by fastforce
      with False c Cons show ?thesis by (simp add: unquote_body.simps)
    qed
  qed
qed

lemma unquoteBytes_total: "string_lit l \<Longrightarrow> \<exists>t. unquoteBytes l = Some t"
  by (auto simp: string_lit_def unquoteBytes_def dest: unquote_total)

section \<open>Quoting and unquoting\<close>

lemma hex_digit_upto: "n < 16 \<Longrightarrow> n \<in> set [0..<16]"
  by simp

lemma hex_digits_all: "list_all (\<lambda>n. hex_value (hex_digit n) = Some n \<and> is_hex (hex_digit n)) [0..<16]"
  by code_simp

lemma hex_digit_value:
  assumes "n < 16"
  shows "hex_value (hex_digit n) = Some n" "is_hex (hex_digit n)"
  using hex_digits_all hex_digit_upto [OF assms] unfolding list_all_iff by blast+

lemma is_hex_zero: "is_hex 0x30"
  by (simp add: is_hex_def is_digit_def)

lemma append_single: "(@) [c] = (#) c"
  by (rule ext) simp

lemma escape_ascii_body: "c < 0x80 \<Longrightarrow> string_body cs \<Longrightarrow> string_body (escape_ascii c @ cs)"
proof -
  assume c: "c < 0x80" and cs: "string_body cs"
  have "unat c < 128" using c by (simp add: word_less_nat_alt)
  then have "unat c div 16 < 16" "unat c mod 16 < 16" by auto
  then have "string_body (0x5c # 0x75 # [0x30, 0x30, hex_digit (unat c div 16), hex_digit (unat c mod 16)] @ cs)"
    using cs by (intro string_body_hex) (auto simp: hex_digit_value is_hex_zero)
  with cs show ?thesis
    by (auto simp: escape_ascii_def intro!: string_body_intros)
qed

lemma unquote_escape_ascii:
  assumes "c < 0x80"
  shows "unquote_body (escape_ascii c @ cs) = map_option ((#) c) (unquote_body cs)"
proof -
  have n: "unat c < 128" using assms by (simp add: word_less_nat_alt)
  then have "unat c div 16 < 16" "unat c mod 16 < 16" by auto
  then have hex: "hex4 ([0x30, 0x30, hex_digit (unat c div 16), hex_digit (unat c mod 16)] @ cs) = Some (unat c)"
    by (simp add: hex_digit_value) (simp add: hex_value_def is_digit_def)
  have "EncodeRune (unat c) = [c]" "\<not> IsSurrogate (unat c)"
    using n by (auto simp: EncodeRune_def IsSurrogate_def)
  with hex show ?thesis
    by (auto simp: escape_ascii_def unquote_body.simps escape_value_def append_single)
qed

lemma unquote_plain:
  assumes "c < 0x80" "htmlSafe c"
  shows "unquote_body (c # cs) = map_option ((#) c) (unquote_body cs)"
  using assms by (auto simp: htmlSafe_def unquote_body.simps not_less)

lemma string_body_high_append:
  "list_all (\<lambda>b. 0x80 \<le> b) xs \<Longrightarrow> string_body ys \<Longrightarrow> string_body (xs @ ys)"
  by (induction xs) (auto intro!: string_body_plain dest: high_bytes)

lemma rune_bytes_high:
  assumes "\<not> c < 0x80"
  shows "list_all (\<lambda>b. 0x80 \<le> b) (take (rune_size (c # cs)) (c # cs))"
  using assms rune_size_tail [of c cs] by (cases "rune_size (c # cs)") auto

lemma quote_body_string: "string_body (quote_body s)"
proof (induction s rule: length_induct)
  case (1 s)
  show ?case
  proof (cases s)
    case Nil
    then show ?thesis by (simp add: string_body_Nil)
  next
    case (Cons c cs)
    have IH: "string_body (quote_body (drop k cs))" for k
      using 1 Cons by (auto simp: less_Suc_eq_le)
    have hex: "string_body (0x5c # 0x75 # hs @ quote_body (drop k cs))" if "list_all is_hex hs" "length hs = 4" for hs k
      using that IH by (rule string_body_hex)
    have special: "string_body (0x5c # 0x75 # 0x66 # 0x66 # 0x66 # 0x64 # quote_body cs)"
      "string_body (0x5c # 0x75 # 0x32 # 0x30 # 0x32 # 0x38 # quote_body (drop 2 cs))"
      "string_body (0x5c # 0x75 # 0x32 # 0x30 # 0x32 # 0x39 # quote_body (drop 2 cs))"
      using hex [of "[0x66, 0x66, 0x66, 0x64]" 0] hex [of "[0x32, 0x30, 0x32, 0x38]" 2] hex [of "[0x32, 0x30, 0x32, 0x39]" 2]
      by (simp_all add: is_hex_def is_digit_def)
    show ?thesis
    proof (cases "c < 0x80")
      case True
      with IH [of 0] escape_ascii_body [OF True] Cons show ?thesis
        by (auto simp: quote_body.simps htmlSafe_def not_less intro!: string_body_plain)
    next
      case False
      from string_body_high_append [OF rune_bytes_high [OF False] IH] special False Cons show ?thesis
        by (simp add: quote_body.simps del: take_Suc_Cons)
    qed
  qed
qed

lemma quote_string_lit: "string_lit (quote_string s)"
  by (auto simp: string_lit_def quote_string_def quote_body_string)

lemma between_less: "between lo hi c \<Longrightarrow> hi < lo' \<Longrightarrow> \<not> between lo' hi' c"
  by (auto simp: between_def)

text \<open>A rune is recognised from its own bytes.\<close>

lemma rune_size_take:
  assumes "rune_size (c # cs) \<noteq> 0"
  shows "rune_size (take (rune_size (c # cs)) (c # cs) @ ys) = rune_size (c # cs)"
proof -
  have "rune_size (c # cs) \<in> {0, 1, 2, 3, 4}" by (simp add: rune_size.simps split: list.split)
  with assms consider "c < 0x80" | b1 r where "\<not> c < 0x80" "between 0xc2 0xdf c" "cs = b1 # r"
    | b1 b2 r where "\<not> c < 0x80" "\<not> between 0xc2 0xdf c" "between 0xe0 0xef c" "cs = b1 # b2 # r"
    | b1 b2 b3 r where "\<not> c < 0x80" "\<not> between 0xc2 0xdf c" "\<not> between 0xe0 0xef c" "between 0xf0 0xf4 c"
        "cs = b1 # b2 # b3 # r"
    by (auto simp: rune_size.simps split: list.splits if_splits)
  then show ?thesis
    by cases (use assms in \<open>auto simp: rune_size.simps numeral_eq_Suc split: if_splits\<close>)
qed

lemma unquote_rune:
  assumes "\<not> c < 0x80" "rune_size (c # cs) \<noteq> 0"
  shows "unquote_body (take (rune_size (c # cs)) (c # cs) @ ys) =
         map_option (append (take (rune_size (c # cs)) (c # cs))) (unquote_body ys)"
proof -
  let ?n = "rune_size (c # cs)"
  obtain m where m: "?n = Suc m" using assms(2) by (cases ?n) auto
  with rune_size_tail [of c cs] have len: "m \<le> length cs" by simp
  have eq: "take ?n (c # cs) @ ys = c # (take m cs @ ys)" using m by simp
  have sz: "rune_size (c # (take m cs @ ys)) = Suc m" using rune_size_take [OF assms(2), of ys] eq m by simp
  have "c \<noteq> 0x5c" "c \<noteq> 0x22" "\<not> c < 0x20" using assms(1) high_bytes [of c] by auto
  then have "unquote_body (c # (take m cs @ ys)) = map_option (append (take (Suc m) (c # (take m cs @ ys))))
      (unquote_body (drop m (take m cs @ ys)))"
    using assms(1) sz by (simp add: unquote_body.simps)
  with eq m len show ?thesis by simp
qed

lemma unquote_line_separators:
  "unquote_body (0x5c # 0x75 # 0x32 # 0x30 # 0x32 # 0x38 # ys) = map_option (append [0xe2, 0x80, 0xa8]) (unquote_body ys)"
  "unquote_body (0x5c # 0x75 # 0x32 # 0x30 # 0x32 # 0x39 # ys) = map_option (append [0xe2, 0x80, 0xa9]) (unquote_body ys)"
  by (simp_all add: unquote_body.simps hex_value_def is_digit_def IsSurrogate_def EncodeRune_def)

lemma line_separator_size:
  assumes "take 3 (c # cs) = [0xe2, 0x80, b]" "is_cont b"
  shows "rune_size (c # cs) = 3" "c # cs = [0xe2, 0x80, b] @ drop 2 cs"
proof -
  from assms(1) obtain r where "cs = 0x80 # b # r" "c = 0xe2"
    by (cases cs; cases "tl cs") (auto simp: numeral_eq_Suc)
  with assms(2) show "rune_size (c # cs) = 3" "c # cs = [0xe2, 0x80, b] @ drop 2 cs"
    by (simp_all add: rune_size.simps between_def second_ok_def is_cont_def)
qed

lemma unquote_quote: "valid_utf8 s \<Longrightarrow> unquote_body (quote_body s) = Some s"
proof (induction s rule: length_induct)
  case (1 s)
  show ?case
  proof (cases s)
    case Nil
    then show ?thesis by simp
  next
    case (Cons c cs)
    let ?n = "rune_size (c # cs)"
    from 1(2) Cons have v: "?n \<noteq> 0" "valid_utf8 (drop (?n - 1) cs)" by auto
    then have IH: "unquote_body (quote_body (drop (?n - 1) cs)) = Some (drop (?n - 1) cs)"
      using 1(1) Cons by (auto simp: less_Suc_eq_le)
    have split: "take ?n (c # cs) @ drop (?n - 1) cs = c # cs"
      using v(1) append_take_drop_id [of "?n - 1" cs] by (cases ?n) auto
    show ?thesis
    proof (cases "c < 0x80")
      case True
      then have "?n = 1" by (simp add: rune_size.simps)
      with True IH Cons unquote_plain [OF True] unquote_escape_ascii [OF True] show ?thesis
        by (auto simp: quote_body.simps)
    next
      case False
      have cont: "is_cont 0xa8" "is_cont 0xa9" by (simp_all add: is_cont_def between_def)
      consider "take 3 (c # cs) = [0xe2, 0x80, 0xa8]" | "take 3 (c # cs) = [0xe2, 0x80, 0xa9]"
        | "take 3 (c # cs) \<noteq> [0xe2, 0x80, 0xa8]" "take 3 (c # cs) \<noteq> [0xe2, 0x80, 0xa9]" by blast
      then show ?thesis
      proof cases
        case 1
        with line_separator_size [OF 1 cont(1)] False IH Cons v(1) unquote_line_separators(1) show ?thesis
          by (simp add: quote_body.simps)
      next
        case 2
        with line_separator_size [OF 2 cont(2)] False IH Cons v(1) unquote_line_separators(2) show ?thesis
          by (simp add: quote_body.simps)
      next
        case 3
        with False v(1) Cons have "quote_body s = take ?n (c # cs) @ quote_body (drop (?n - 1) cs)"
          by (auto simp: quote_body.simps)
        with unquote_rune [OF False v(1)] IH split Cons show ?thesis by simp
      qed
    qed
  qed
qed

lemma unquote_quote_string: "valid_utf8 s \<Longrightarrow> unquoteBytes (quote_string s) = Some s"
  by (simp add: unquoteBytes_def quote_string_def unquote_quote)

lemma valid_utf8_ascii: "list_all (\<lambda>c. c < 0x80) s \<Longrightarrow> valid_utf8 s"
  by (induction s) (auto simp: rune_size.simps)

lemma quote_plain: "list_all (\<lambda>c. c < 0x80 \<and> htmlSafe c) s \<Longrightarrow> quote_body s = s"
  by (induction s) (auto simp: quote_body.simps)

end
