(* ===== verification/Base64.thy ===== *)
theory Base64
  imports Go_Runtime
begin

text \<open>
  \<open>encoding/base64\<close> with \<open>StdEncoding\<close>: padded, not strict.  The decoder reads groups of four symbols,
  skips line breaks, and reports the position of the first byte it does not accept.
\<close>

section \<open>The alphabet\<close>

definition b64_symbol :: "nat \<Rightarrow> byte" where
  "b64_symbol n =
     (if n < 26 then of_nat (0x41 + n)
      else if n < 52 then of_nat (0x61 + (n - 26))
      else if n < 62 then of_nat (0x30 + (n - 52))
      else if n = 62 then 0x2b else 0x2f)"

definition b64_value :: "byte \<Rightarrow> nat option" where
  "b64_value c =
     (if 0x41 \<le> c \<and> c \<le> 0x5a then Some (unat c - 0x41)
      else if 0x61 \<le> c \<and> c \<le> 0x7a then Some (unat c - 0x61 + 26)
      else if 0x30 \<le> c \<and> c \<le> 0x39 then Some (unat c - 0x30 + 52)
      else if c = 0x2b then Some 62
      else if c = 0x2f then Some 63
      else None)"

definition padChar :: byte where "padChar = 0x3d"

definition is_newline :: "byte \<Rightarrow> bool" where
  "is_newline c \<longleftrightarrow> c = 0x0a \<or> c = 0x0d"

section \<open>Encoding\<close>

definition group24 :: "byte \<Rightarrow> byte \<Rightarrow> byte \<Rightarrow> nat" where
  "group24 a b c = (unat a * 256 + unat b) * 256 + unat c"

fun base64_encode :: "bytes \<Rightarrow> bytes" where
  "base64_encode (a # b # c # rest) =
     (let v = group24 a b c
      in b64_symbol (v div 262144) # b64_symbol (v div 4096 mod 64) # b64_symbol (v div 64 mod 64) #
         b64_symbol (v mod 64) # base64_encode rest)"
| "base64_encode [a, b] =
     (let v = group24 a b 0
      in [b64_symbol (v div 262144), b64_symbol (v div 4096 mod 64), b64_symbol (v div 64 mod 64), padChar])"
| "base64_encode [a] =
     (let v = group24 a 0 0
      in [b64_symbol (v div 262144), b64_symbol (v div 4096 mod 64), padChar, padChar])"
| "base64_encode [] = []"

section \<open>Decoding\<close>

text \<open>
  The outcome of \<open>decodeQuantum\<close>: the input is used up, an error at a position, or the values of the
  symbols with the position and the rest of the input, and possibly an error for what follows the padding.
\<close>

datatype quantum = QEnd | QErr nat | QDone "nat list" nat bytes "nat option"

definition skip_newlines :: "nat \<Rightarrow> bytes \<Rightarrow> nat \<times> bytes" where
  "skip_newlines si cs = (si + length (takeWhile is_newline cs), dropWhile is_newline cs)"

definition padded :: "nat list \<Rightarrow> nat \<Rightarrow> bytes \<Rightarrow> quantum" where
  "padded dbuf si cs =
     (let (si', cs') = skip_newlines si cs in QDone dbuf si' cs' (if cs' = [] then None else Some si'))"

fun decodeQuantum :: "nat list \<Rightarrow> nat \<Rightarrow> bytes \<Rightarrow> quantum" where
  "decodeQuantum dbuf si [] = (if dbuf = [] then QEnd else QErr (si - length dbuf))"
| "decodeQuantum dbuf si (c # cs) =
     (case b64_value c of
        Some v \<Rightarrow>
          (if length dbuf = 3 then QDone (dbuf @ [v]) (si + 1) cs None
           else decodeQuantum (dbuf @ [v]) (si + 1) cs)
      | None \<Rightarrow>
          if is_newline c then decodeQuantum dbuf (si + 1) cs
          else if c \<noteq> padChar then QErr si
          else if length dbuf < 2 then QErr si
          else if length dbuf = 2 then
            (let (si', cs') = skip_newlines (si + 1) cs
             in case cs' of
                  [] \<Rightarrow> QErr si'
                | d # ds \<Rightarrow> if d \<noteq> padChar then QErr (si' - 1) else padded dbuf (si' + 1) ds)
          else padded dbuf (si + 1) cs)"

text \<open>Two, three or four symbols give one, two or three bytes; the left-over bits are dropped.\<close>

fun quantum_bytes :: "nat list \<Rightarrow> bytes" where
  "quantum_bytes [a, b, c, d] =
     (let v = ((a * 64 + b) * 64 + c) * 64 + d in [of_nat (v div 65536), of_nat (v div 256), of_nat v])"
| "quantum_bytes [a, b, c] =
     (let v = ((a * 64 + b) * 64 + c) * 64 in [of_nat (v div 65536), of_nat (v div 256)])"
| "quantum_bytes [a, b] = (let v = (a * 64 + b) * 4096 in [of_nat (v div 65536)])"
| "quantum_bytes _ = []"

lemma decodeQuantum_shorter: "decodeQuantum dbuf si cs = QDone vs si' cs' e \<Longrightarrow> length cs' < length cs"
proof (induction dbuf si cs rule: decodeQuantum.induct)
  case (1 dbuf si)
  then show ?case by (simp split: if_splits)
next
  case (2 dbuf si c cs)
  have tail: "dropWhile is_newline xs = d # ds \<Longrightarrow> length ds < length xs" for xs d ds
    by (metis length_Cons length_dropWhile_le less_Suc_eq_le order.trans lessI not_less)
  have "length (dropWhile is_newline ds) \<le> length cs" if "dropWhile is_newline cs = d # ds" for d ds
    using tail [OF that] length_dropWhile_le [of is_newline ds] by simp
  with 2 length_dropWhile_le [of is_newline cs] show ?case
    by (auto simp: padded_def skip_newlines_def Let_def less_Suc_eq_le
        split: option.splits if_splits list.splits)
qed

definition CorruptInputError :: "nat \<Rightarrow> go_error" where
  "CorruptInputError n = Errorf ''illegal base64 data at input byte %d'' [n]"

function base64_decode_from :: "nat \<Rightarrow> bytes \<Rightarrow> bytes \<Rightarrow> go_error + bytes" where
  "base64_decode_from si dst cs =
     (if cs = [] then Inr dst
      else case decodeQuantum [] si cs of
             QEnd \<Rightarrow> Inr dst
           | QErr n \<Rightarrow> Inl (CorruptInputError n)
           | QDone vs si' cs' err \<Rightarrow>
               (case err of
                  Some n \<Rightarrow> Inl (CorruptInputError n)
                | None \<Rightarrow> base64_decode_from si' (dst @ quantum_bytes vs) cs'))"
  by pat_completeness auto

termination base64_decode_from
  by (relation "measure (\<lambda>(si, dst, cs). length cs)") (auto dest: decodeQuantum_shorter)

declare base64_decode_from.simps [simp del]

definition base64_decode :: "bytes \<Rightarrow> go_error + bytes" where
  "base64_decode cs = base64_decode_from 0 [] cs"

definition DecodedLen :: "nat \<Rightarrow> nat" where
  "DecodedLen n = n div 4 * 3"

section \<open>Round trip\<close>

lemma symbols_all: "list_all (\<lambda>n. b64_value (b64_symbol n) = Some n) [0..<64]"
  by code_simp

lemma b64_value_symbol: "n < 64 \<Longrightarrow> b64_value (b64_symbol n) = Some n"
  using symbols_all unfolding list_all_iff by simp

lemma padChar_value: "b64_value padChar = None" "\<not> is_newline padChar"
  by (simp_all add: b64_value_def padChar_def is_newline_def)

lemma byte_unat: "unat (a :: byte) < 256"
  using unsigned_less [of a] by simp

lemma group24_bound: "group24 a b c < 16777216"
  using byte_unat [of a] byte_unat [of b] byte_unat [of c] by (simp add: group24_def)

lemma sextets:
  fixes v :: nat
  shows "((v div 262144 * 64 + v div 4096 mod 64) * 64 + v div 64 mod 64) * 64 + v mod 64 = v"
proof -
  have "v div 262144 * 64 + v div 4096 mod 64 = v div 4096" by (simp add: div_mult2_eq [of v 4096 64, simplified])
  moreover have "v div 4096 * 64 + v div 64 mod 64 = v div 64" by (simp add: div_mult2_eq [of v 64 64, simplified])
  ultimately show ?thesis by simp
qed

lemma sextet_bounds: "group24 a b c div 262144 < 64" "n mod 64 < (64 :: nat)"
  using group24_bound [of a b c] by auto

lemma byte_256: "(x :: byte) * 256 = 0"
proof -
  have "(256 :: byte) = 0" by simp
  then show ?thesis by (metis mult_zero_right)
qed

lemma group24_bytes:
  "(of_nat (group24 a b c div 65536) :: byte) = a" "(of_nat (group24 a b c div 256) :: byte) = b"
  "(of_nat (group24 a b c) :: byte) = c"
proof -
  have "group24 a b c = unat a * 65536 + (unat b * 256 + unat c)" by (simp add: group24_def)
  then have "group24 a b c div 65536 = unat a" using byte_unat [of b] byte_unat [of c] by simp
  then show "(of_nat (group24 a b c div 65536) :: byte) = a" by simp
  have "group24 a b c div 256 = unat a * 256 + unat b" using byte_unat [of c] by (simp add: group24_def)
  then show "(of_nat (group24 a b c div 256) :: byte) = b" using byte_256 [of a] by simp
  have "group24 a b c = (unat a * 256 + unat b) * 256 + unat c" by (simp add: group24_def)
  then show "(of_nat (group24 a b c) :: byte) = c"
    using byte_256 [of "a * 256 + b"] by (simp only: of_nat_add of_nat_mult) simp
qed

lemma decodeQuantum_full:
  assumes "a < 64" "b < 64" "c < 64" "d < 64"
  shows "decodeQuantum [] si (b64_symbol a # b64_symbol b # b64_symbol c # b64_symbol d # rest) =
         QDone [a, b, c, d] (si + 4) rest None"
  using assms by (simp add: b64_value_symbol)

lemma decodeQuantum_pad1:
  assumes "a < 64" "b < 64" "c < 64"
  shows "decodeQuantum [] si [b64_symbol a, b64_symbol b, b64_symbol c, padChar] = QDone [a, b, c] (si + 4) [] None"
  using assms by (simp add: b64_value_symbol padChar_value padded_def skip_newlines_def)

lemma decodeQuantum_pad2:
  assumes "a < 64" "b < 64"
  shows "decodeQuantum [] si [b64_symbol a, b64_symbol b, padChar, padChar] = QDone [a, b] (si + 4) [] None"
  using assms by (simp add: b64_value_symbol padChar_value padded_def skip_newlines_def)

lemma low_bits:
  "group24 a b 0 mod 64 = 0" "group24 a 0 0 mod 4096 = 0"
proof -
  have "group24 a b 0 = 64 * (4 * (unat a * 256 + unat b))" by (simp add: group24_def)
  then show "group24 a b 0 mod 64 = 0" by (metis mod_mult_self1_is_0)
  have "group24 a 0 0 = 4096 * (16 * unat a)" by (simp add: group24_def)
  then show "group24 a 0 0 mod 4096 = 0" by (metis mod_mult_self1_is_0)
qed

lemma quantum_bytes_2: "quantum_bytes [group24 a b 0 div 262144, group24 a b 0 div 4096 mod 64, group24 a b 0 div 64 mod 64] = [a, b]"
proof -
  let ?v = "group24 a b 0"
  have "((?v div 262144 * 64 + ?v div 4096 mod 64) * 64 + ?v div 64 mod 64) * 64 = ?v"
    using sextets [of ?v] low_bits(1) [of a b] by simp
  then show ?thesis using group24_bytes [of a b 0] by (simp add: Let_def)
qed

lemma quantum_bytes_1: "quantum_bytes [group24 a 0 0 div 262144, group24 a 0 0 div 4096 mod 64] = [a]"
proof -
  let ?v = "group24 a 0 0"
  have "(?v div 262144 * 64 + ?v div 4096 mod 64) * 4096 = ?v"
    using sextets [of ?v] low_bits(2) [of a] mod_mult2_eq [of ?v 64 64] by simp
  then show ?thesis using group24_bytes [of a 0 0] by (simp add: Let_def)
qed

lemma base64_decode_encode_from: "base64_decode_from si dst (base64_encode bs) = Inr (dst @ bs)"
proof (induction bs arbitrary: si dst rule: base64_encode.induct)
  case (1 a b c rest)
  let ?v = "group24 a b c"
  have "quantum_bytes [?v div 262144, ?v div 4096 mod 64, ?v div 64 mod 64, ?v mod 64] = [a, b, c]"
    using sextets [of ?v] group24_bytes [of a b c] by (simp add: Let_def)
  with 1 show ?case
    by (subst base64_decode_from.simps)
       (simp add: Let_def decodeQuantum_full sextet_bounds del: decodeQuantum.simps quantum_bytes.simps)
next
  case (2 a b)
  show ?case
    by (subst base64_decode_from.simps)
       (simp add: Let_def decodeQuantum_pad1 sextet_bounds quantum_bytes_2 base64_decode_from.simps [of _ _ "[]"]
         del: decodeQuantum.simps quantum_bytes.simps)
next
  case (3 a)
  show ?case
    by (subst base64_decode_from.simps)
       (simp add: Let_def decodeQuantum_pad2 sextet_bounds quantum_bytes_1 base64_decode_from.simps [of _ _ "[]"]
         del: decodeQuantum.simps quantum_bytes.simps)
next
  case 4
  show ?case by (simp add: base64_decode_from.simps)
qed

lemma base64_decode_encode: "base64_decode (base64_encode bs) = Inr bs"
  by (simp add: base64_decode_def base64_decode_encode_from)

lemma length_base64_encode: "length (base64_encode bs) = (length bs + 2) div 3 * 4"
proof (induction bs rule: base64_encode.induct)
  case (1 a b c rest)
  have "(length (a # b # c # rest) + 2) div 3 = Suc ((length rest + 2) div 3)"
    using div_add_self2 [of 3 "length rest + 2"] by simp
  with 1 show ?case by (simp add: Let_def)
qed (auto simp: Let_def)

end
