(* ===== verification/Json_Codec.thy ===== *)
theory Json_Codec
  imports Json_Print Json_String Base64
begin

text \<open>
  \<open>json.Marshal\<close> and \<open>json.Unmarshal\<close> (Go 1.17) for the types the sources exchange: unsigned integers,
  strings, slices and structs whose embedded structs are flattened into their fields.  The reflective
  decoder and encoder are functions of a description of the Go type.  Decoding updates a given value: a
  wrong kind of value leaves the target as it was, and the first error is returned at the end.
\<close>

section \<open>Go types and values\<close>

datatype go_type = UintT nat | StringT | SliceT go_type | StructT "(string \<times> go_type) list"

text \<open>A slice that is not nil has the elements it shows and those behind them up to its capacity.\<close>

datatype go_val = UintV nat | StringV bytes | NilV | SliceV "go_val list" "go_val list" | StructV "go_val list"

definition ascii :: "string \<Rightarrow> bytes" where
  "ascii s = map of_char s"

fun zero_value :: "go_type \<Rightarrow> go_val" where
  "zero_value (UintT w) = UintV 0"
| "zero_value StringT = StringV []"
| "zero_value (SliceT e) = NilV"
| "zero_value (StructT fs) = StructV (map (\<lambda>(n, t). zero_value t) fs)"

fun has_type :: "go_type \<Rightarrow> go_val \<Rightarrow> bool"
  and all_typed :: "go_type \<Rightarrow> go_val list \<Rightarrow> bool"
  and fields_typed :: "(string \<times> go_type) list \<Rightarrow> go_val list \<Rightarrow> bool" where
  "has_type (UintT w) (UintV n) = (n < 2 ^ w)"
| "has_type StringT (StringV s) = True"
| "has_type (SliceT e) NilV = True"
| "has_type (SliceT e) (SliceV xs sp) = (all_typed e xs \<and> all_typed e sp)"
| "has_type (StructT fs) (StructV vs) = fields_typed fs vs"
| "has_type _ _ = False"
| "all_typed e [] = True"
| "all_typed e (x # xs) = (has_type e x \<and> all_typed e xs)"
| "fields_typed [] [] = True"
| "fields_typed ((n, t) # fs) (v # vs) = (has_type t v \<and> fields_typed fs vs)"
| "fields_typed _ _ = False"

definition byte_vals :: "bytes \<Rightarrow> go_val list" where
  "byte_vals bs = map (\<lambda>b. UintV (unat b)) bs"

definition bytesT :: go_type where
  "bytesT = SliceT (UintT 8)"

section \<open>Decoding\<close>

definition phasePanic :: panic where
  "phasePanic = ExplicitPanic ''JSON decoder out of sync - data changing underfoot?''"

definition SyntaxError :: go_error where
  "SyntaxError = Errorf ''json: syntax error'' []"

text \<open>The error names the kind of JSON value; its type, field and offset are left out.\<close>

definition UnmarshalTypeError :: "string \<Rightarrow> go_error" where
  "UnmarshalTypeError kind = Errorf (''json: cannot unmarshal '' @ kind) []"

definition saveError :: "go_error option \<Rightarrow> go_error \<Rightarrow> go_error option" where
  "saveError saved e = (case saved of None \<Rightarrow> Some e | Some _ \<Rightarrow> saved)"

definition digits_value :: "bytes \<Rightarrow> nat" where
  "digits_value s = foldl (\<lambda>a c. a * 10 + (unat c - 0x30)) 0 s"

text \<open>\<open>strconv.ParseUint(s, 10, 64)\<close>\<close>

definition ParseUint :: "bytes \<Rightarrow> nat option" where
  "ParseUint s =
     (if s \<noteq> [] \<and> list_all is_digit s \<and> digits_value s < 2 ^ 64 then Some (digits_value s) else None)"

definition literalStore ::
  "bytes \<Rightarrow> go_type \<Rightarrow> go_val \<Rightarrow> go_error option \<Rightarrow> (go_val \<times> go_error option) go" where
  "literalStore item t v saved =
     (case item of
        [] \<Rightarrow> Ret (v, saveError saved (Errorf ''json: invalid use of ,string struct tag'' []))
      | c # _ \<Rightarrow>
          if c = 0x6e then Ret ((case t of SliceT _ \<Rightarrow> NilV | _ \<Rightarrow> v), saved)
          else if c = 0x74 \<or> c = 0x66 then Ret (v, saveError saved (UnmarshalTypeError ''bool''))
          else if c = 0x22 then
            (case unquoteBytes item of
               None \<Rightarrow> Panic phasePanic
             | Some s \<Rightarrow>
                 (case t of
                    StringT \<Rightarrow> Ret (StringV s, saved)
                  | SliceT e \<Rightarrow>
                      if e = UintT 8 then
                        (case base64_decode s of
                           Inl err \<Rightarrow> Ret (v, saveError saved err)
                         | Inr b \<Rightarrow>
                             Ret (SliceV (byte_vals b) (replicate (DecodedLen (length s) - length b) (UintV 0)), saved))
                      else Ret (v, saveError saved (UnmarshalTypeError ''string''))
                  | _ \<Rightarrow> Ret (v, saveError saved (UnmarshalTypeError ''string''))))
          else if c \<noteq> 0x2d \<and> \<not> is_digit c then Panic phasePanic
          else
            (case t of
               UintT w \<Rightarrow>
                 (case ParseUint item of
                    None \<Rightarrow> Ret (v, saveError saved (UnmarshalTypeError ''number''))
                  | Some n \<Rightarrow>
                      if 2 ^ w \<le> n then Ret (v, saveError saved (UnmarshalTypeError ''number''))
                      else Ret (UintV n, saved))
             | _ \<Rightarrow> Ret (v, saveError saved (UnmarshalTypeError ''number''))))"

text \<open>
  The field for a key: an exact match, else the first that is equal up to the case of ASCII letters, where
  the long s and the Kelvin sign count as letters (\<open>equalFoldRight\<close>).
\<close>

definition fold_letter :: "byte \<Rightarrow> byte" where
  "fold_letter c = (if 0x61 \<le> c \<and> c \<le> 0x7a then c - 0x20 else c)"

fun fold_equal :: "bytes \<Rightarrow> bytes \<Rightarrow> bool" where
  "fold_equal [] t = (t = [])"
| "fold_equal (c # s) t =
     (case t of
        [] \<Rightarrow> False
      | d # t' \<Rightarrow>
          if d < 0x80 then fold_letter c = fold_letter d \<and> fold_equal s t'
          else if fold_letter c = 0x53 \<and> take 2 t = [0xc5, 0xbf] then fold_equal s (drop 2 t)
          else if fold_letter c = 0x4b \<and> take 3 t = [0xe2, 0x84, 0xaa] then fold_equal s (drop 3 t)
          else False)"

fun find_index :: "('a \<Rightarrow> bool) \<Rightarrow> 'a list \<Rightarrow> nat option" where
  "find_index P [] = None"
| "find_index P (x # xs) = (if P x then Some 0 else map_option Suc (find_index P xs))"

definition find_field :: "(string \<times> go_type) list \<Rightarrow> bytes \<Rightarrow> nat option" where
  "find_field fs key =
     (case find_index (\<lambda>f. ascii (fst f) = key) fs of
        Some i \<Rightarrow> Some i
      | None \<Rightarrow> find_index (\<lambda>f. fold_equal (ascii (fst f)) key) fs)"

text \<open>
  The elements behind those decoded so far: what the slice held before, up to its capacity.  When they are
  used up the slice grows to one and a half times its capacity, at least to four, with zero elements.
\<close>

definition grow :: "go_type \<Rightarrow> nat \<Rightarrow> go_val list \<Rightarrow> go_val list" where
  "grow e i pool = (if pool = [] then replicate (max 4 (i + i div 2) - i) (zero_value e) else pool)"

definition slice_pool :: "go_val \<Rightarrow> go_val list" where
  "slice_pool v = (case v of SliceV xs sp \<Rightarrow> xs @ sp | _ \<Rightarrow> [])"

definition struct_vals :: "go_val \<Rightarrow> go_val list" where
  "struct_vals v = (case v of StructV vs \<Rightarrow> vs | _ \<Rightarrow> [])"

fun decode_value :: "json \<Rightarrow> go_type \<Rightarrow> go_val \<Rightarrow> go_error option \<Rightarrow> (go_val \<times> go_error option) go"
  and decode_elems ::
    "json list \<Rightarrow> go_type \<Rightarrow> go_val list \<Rightarrow> go_val list \<Rightarrow> go_error option \<Rightarrow> (go_val \<times> go_error option) go"
  and decode_members ::
    "(bytes \<times> json) list \<Rightarrow> (string \<times> go_type) list \<Rightarrow> go_val list \<Rightarrow> go_error option \<Rightarrow>
     (go_val \<times> go_error option) go" where
  "decode_value (JLit l) t v saved = literalStore l t v saved"
| "decode_value (JArr xs) t v saved =
     (case t of
        SliceT e \<Rightarrow> decode_elems xs e [] (slice_pool v) saved
      | _ \<Rightarrow> Ret (v, saveError saved (UnmarshalTypeError ''array'')))"
| "decode_value (JObj kvs) t v saved =
     (case t of
        StructT fs \<Rightarrow> decode_members kvs fs (struct_vals v) saved
      | _ \<Rightarrow> Ret (v, saveError saved (UnmarshalTypeError ''object'')))"
| "decode_elems [] e pre pool saved = Ret (SliceV pre (if pre = [] then [] else pool), saved)"
| "decode_elems (x # xs) e pre pool saved =
     (let pool' = grow e (length pre) pool
      in go_bind (decode_value x e (hd pool') saved) (\<lambda>(v, saved').
           decode_elems xs e (pre @ [v]) (tl pool') saved'))"
| "decode_members [] fs vs saved = Ret (StructV vs, saved)"
| "decode_members (kv # kvs) fs vs saved =
     (case unquoteBytes (fst kv) of
        None \<Rightarrow> Panic phasePanic
      | Some key \<Rightarrow>
          (case find_field fs key of
             None \<Rightarrow> decode_members kvs fs vs saved
           | Some i \<Rightarrow>
               go_bind (decode_value (snd kv) (snd (fs ! i)) (vs ! i) saved) (\<lambda>(v, saved').
                 decode_members kvs fs (vs[i := v]) saved')))"

definition json_Unmarshal :: "go_type \<Rightarrow> go_val \<Rightarrow> bytes \<Rightarrow> (go_val \<times> go_error option) go" where
  "json_Unmarshal t v text =
     (if \<not> json_valid text then Ret (v, Some SyntaxError)
      else case json_parse text of
             None \<Rightarrow> Panic phasePanic
           | Some j \<Rightarrow> decode_value j t v None)"

section \<open>Encoding\<close>

definition vals_bytes :: "go_val list \<Rightarrow> bytes" where
  "vals_bytes vs = map (\<lambda>v. case v of UintV n \<Rightarrow> of_nat n | _ \<Rightarrow> 0) vs"

text \<open>The static types of the sources rule out the last case.\<close>

fun marshal_value :: "go_type \<Rightarrow> go_val \<Rightarrow> json"
  and marshal_elems :: "go_type \<Rightarrow> go_val list \<Rightarrow> json list"
  and marshal_fields :: "(string \<times> go_type) list \<Rightarrow> go_val list \<Rightarrow> (bytes \<times> json) list" where
  "marshal_value (UintT w) (UintV n) = JLit (ascii (decimal n))"
| "marshal_value StringT (StringV s) = JLit (quote_string s)"
| "marshal_value (SliceT e) NilV = JLit null_lit"
| "marshal_value (SliceT e) (SliceV xs sp) =
     (if e = UintT 8 then JLit (0x22 # base64_encode (vals_bytes xs) @ [0x22]) else JArr (marshal_elems e xs))"
| "marshal_value (StructT fs) (StructV vs) = JObj (marshal_fields fs vs)"
| "marshal_value _ _ = JLit null_lit"
| "marshal_elems e [] = []"
| "marshal_elems e (x # xs) = marshal_value e x # marshal_elems e xs"
| "marshal_fields ((n, t) # fs) (v # vs) = (quote_string (ascii n), marshal_value t v) # marshal_fields fs vs"
| "marshal_fields _ _ = []"

definition json_Marshal :: "go_type \<Rightarrow> go_val \<Rightarrow> bytes" where
  "json_Marshal t v = json_text (marshal_value t v)"

section \<open>Decoding keeps the type\<close>

lemma all_typed_iff: "all_typed e xs \<longleftrightarrow> (\<forall>x \<in> set xs. has_type e x)"
  by (induction xs) auto

lemma fields_typed_iff:
  "fields_typed fs vs \<longleftrightarrow> length fs = length vs \<and> (\<forall>i < length fs. has_type (snd (fs ! i)) (vs ! i))"
proof (induction fs arbitrary: vs)
  case Nil
  then show ?case by (cases vs) auto
next
  case (Cons f fs)
  then show ?case by (cases f; cases vs) (auto simp: nth_Cons less_Suc_eq_0_disj split: nat.split)
qed

lemma zero_typed: "has_type t (zero_value t)"
  by (induction t) (auto simp: fields_typed_iff case_prod_unfold snds.simps)

lemma fields_typed_update:
  "fields_typed fs vs \<Longrightarrow> i < length fs \<Longrightarrow> has_type (snd (fs ! i)) v \<Longrightarrow> fields_typed fs (vs[i := v])"
  by (auto simp: fields_typed_iff nth_list_update)

lemma find_index_bound: "find_index P xs = Some i \<Longrightarrow> i < length xs \<and> P (xs ! i)"
  by (induction xs arbitrary: i) (auto split: if_splits)

lemma find_field_bound: "find_field fs key = Some i \<Longrightarrow> i < length fs"
  by (auto simp: find_field_def dest: find_index_bound split: option.splits)

lemma all_typed_grow: "all_typed e pool \<Longrightarrow> all_typed e (grow e i pool)"
  by (auto simp: all_typed_iff grow_def zero_typed)

lemma grow_Cons: "\<exists>v vs. grow e i pool = v # vs"
proof (cases pool)
  case Nil
  have "0 < max 4 (i + i div 2) - i" by (cases "i < 4") auto
  then obtain n where "max 4 (i + i div 2) - i = Suc n" by (cases "max 4 (i + i div 2) - i") auto
  with Nil show ?thesis by (simp add: grow_def)
qed (simp add: grow_def)

lemma byte_vals_typed: "all_typed (UintT 8) (byte_vals b)"
  using byte_unat by (auto simp: all_typed_iff byte_vals_def)

lemma literalStore_typed:
  assumes "has_type t v" "literalStore item t v saved = Ret (v', saved')"
  shows "has_type t v'"
  using assms byte_vals_typed
  by (auto simp: literalStore_def all_typed_iff split: list.splits if_splits option.splits go_type.splits sum.splits)

lemma slice_pool_typed: "has_type (SliceT e) v \<Longrightarrow> all_typed e (slice_pool v)"
  by (cases v) (auto simp: slice_pool_def all_typed_iff)

lemma struct_vals_typed: "has_type (StructT fs) v \<Longrightarrow> fields_typed fs (struct_vals v)"
  by (cases v) (auto simp: struct_vals_def)

lemma decode_typed:
  "has_type t v \<Longrightarrow> decode_value j t v saved = Ret (v', saved') \<Longrightarrow> has_type t v'"
  "all_typed e pre \<Longrightarrow> all_typed e pool \<Longrightarrow> decode_elems xs e pre pool saved = Ret (v', saved') \<Longrightarrow>
     has_type (SliceT e) v'"
  "fields_typed fs vs \<Longrightarrow> decode_members kvs fs vs saved = Ret (v', saved') \<Longrightarrow> has_type (StructT fs) v'"
proof (induction j t v saved and xs e pre pool saved and kvs fs vs saved
    arbitrary: v' saved' and v' saved' and v' saved'
    rule: decode_value_decode_elems_decode_members.induct)
  case (1 l t v saved)
  then show ?case by (simp add: literalStore_typed)
next
  case (2 xs t v saved)
  then show ?case by (auto split: go_type.splits simp: slice_pool_typed)
next
  case (3 kvs t v saved)
  then show ?case by (auto split: go_type.splits simp: struct_vals_typed)
next
  case (4 e pre pool saved)
  then show ?case by (auto simp: all_typed_iff split: if_splits)
next
  case (5 x xs e pre pool saved)
  obtain h tl' where g: "grow e (length pre) pool = h # tl'" using grow_Cons by blast
  with all_typed_grow [OF 5(4), of "length pre"] have "has_type e h" "all_typed e tl'" by auto
  with 5 g show ?case by (auto elim!: go_bind_RetE simp: all_typed_iff)
next
  case (6 fs vs saved)
  then show ?case by auto
next
  case (7 kv kvs fs vs saved)
  show ?case
  proof (cases "unquoteBytes (fst kv)")
    case None
    with 7 show ?thesis by simp
  next
    case (Some key)
    show ?thesis
    proof (cases "find_field fs key")
      case None
      with 7 Some show ?thesis by simp
    next
      fix i
      assume i: "find_field fs key = Some i"
      from find_field_bound [OF i] 7(4) have "has_type (snd (fs ! i)) (vs ! i)" by (simp add: fields_typed_iff)
      moreover from 7(5) Some i obtain v1 saved1 where
        dec: "decode_value (snd kv) (snd (fs ! i)) (vs ! i) saved = Ret (v1, saved1)"
          "decode_members kvs fs (vs[i := v1]) saved1 = Ret (v', saved')"
        by (auto elim!: go_bind_RetE)
      ultimately have "has_type (snd (fs ! i)) v1" using 7(2) [OF Some i] by blast
      with fields_typed_update [OF 7(4) find_field_bound [OF i]] 7(3) [OF Some i dec(1) refl] dec(2) show ?thesis by blast
    qed
  qed
qed

section \<open>Decoding never panics\<close>

lemma literalStore_total: "literal l \<Longrightarrow> \<exists>r. literalStore l t v saved = Ret r"
proof -
  assume l: "literal l"
  then have "l \<noteq> []" by (auto simp: literal_def string_lit_def keyword_lit_def number_lit_def)
  then obtain c cs where c: "l = c # cs" by (cases l) auto
  show ?thesis
  proof (cases "c = 0x22")
    case True
    with l c have "string_lit l"
      by (auto simp: literal_def keyword_lit_def number_lit_def is_digit_def)
    with unquoteBytes_total obtain s where "unquoteBytes l = Some s" by blast
    with True c show ?thesis by (auto simp: literalStore_def split: go_type.split sum.split)
  next
    case False
    with l c have "c \<in> {0x74, 0x66, 0x6e} \<or> c = 0x2d \<or> is_digit c"
      by (auto simp: literal_def string_lit_def keyword_lit_def number_lit_def)
    with False c show ?thesis
      by (auto simp: literalStore_def split: go_type.split option.split)
  qed
qed

lemma go_bind_total: "\<exists>r. m = Ret r \<Longrightarrow> (\<And>x. m = Ret x \<Longrightarrow> \<exists>r. f x = Ret r) \<Longrightarrow> \<exists>r. go_bind m f = Ret r"
  by auto

lemma decode_total:
  "json_wf j \<Longrightarrow> \<exists>r. decode_value j t v saved = Ret r"
  "\<forall>x \<in> set xs. json_wf x \<Longrightarrow> \<exists>r. decode_elems xs e pre pool saved = Ret r"
  "\<forall>(k, x) \<in> set kvs. string_lit k \<and> json_wf x \<Longrightarrow> \<exists>r. decode_members kvs fs vs saved = Ret r"
proof (induction j t v saved and xs e pre pool saved and kvs fs vs saved
    rule: decode_value_decode_elems_decode_members.induct)
  case (1 l t v saved)
  then show ?case using literalStore_total by simp
next
  case (2 xs t v saved)
  then show ?case by (auto split: go_type.split)
next
  case (3 kvs t v saved)
  then show ?case by (auto split: go_type.split)
next
  case (5 x xs e pre pool saved)
  then show ?case by (auto simp: Let_def intro!: go_bind_total)
next
  case (7 kv kvs fs vs saved)
  then obtain key where "unquoteBytes (fst kv) = Some key"
    using unquoteBytes_total [of "fst kv"] by (auto simp: case_prod_unfold)
  note key = this
  show ?case
  proof (cases "find_field fs key")
    case None
    with 7 key show ?thesis by simp
  next
    case (Some i)
    with 7(2) [OF key Some] 7(4) obtain v1 saved1 where
      "decode_value (snd kv) (snd (fs ! i)) (vs ! i) saved = Ret (v1, saved1)" by (cases kv) auto
    with 7(3) [OF key Some this refl] 7(4) key Some show ?thesis by simp
  qed
qed simp_all

lemma json_Unmarshal_total: "\<exists>r. json_Unmarshal t v text = Ret r"
  using json_parse_valid [of "text"] json_parse_wf [of "text"] decode_total(1)
  by (auto simp: json_Unmarshal_def split: option.split)

lemma json_Unmarshal_typed:
  "has_type t v \<Longrightarrow> json_Unmarshal t v text = Ret (v', err) \<Longrightarrow> has_type t v'"
  by (auto simp: json_Unmarshal_def dest: decode_typed(1) split: if_splits option.splits)

section \<open>The errors of decoding\<close>

text \<open>Every error comes from this package or from the base64 decoder; none wraps an error of the caller.\<close>

definition decode_error :: "go_error option \<Rightarrow> bool" where
  "decode_error err = (case err of None \<Rightarrow> True | Some (Errorf f args) \<Rightarrow> take 4 f \<in> {''json'', ''ille''} | _ \<Rightarrow> False)"

lemma decode_error_simps [simp]:
  "decode_error None" "decode_error (Some SyntaxError)" "decode_error (Some (UnmarshalTypeError k))"
  "decode_error (Some (CorruptInputError n))" "decode_error saved \<Longrightarrow> decode_error (Some e) \<Longrightarrow> decode_error (saveError saved e)"
  "decode_error (Some (Errorf ''json: invalid use of ,string struct tag'' []))"
  by (auto simp: decode_error_def SyntaxError_def UnmarshalTypeError_def CorruptInputError_def saveError_def split: option.split)

lemma base64_error: "base64_decode_from si dst cs = Inl e \<Longrightarrow> decode_error (Some e)"
proof (induction si dst cs rule: base64_decode_from.induct)
  case (1 si dst cs)
  from 1(2) show ?case
    unfolding base64_decode_from.simps [of si dst cs]
    by (auto split: if_splits quantum.splits option.splits intro: 1(1))
qed

lemma decode_errors:
  "decode_error saved \<Longrightarrow> decode_value j t v saved = Ret (v', saved') \<Longrightarrow> decode_error saved'"
  "decode_error saved \<Longrightarrow> decode_elems xs e pre pool saved = Ret (v', saved') \<Longrightarrow> decode_error saved'"
  "decode_error saved \<Longrightarrow> decode_members kvs fs vs saved = Ret (v', saved') \<Longrightarrow> decode_error saved'"
proof (induction j t v saved and xs e pre pool saved and kvs fs vs saved
    arbitrary: v' saved' and v' saved' and v' saved'
    rule: decode_value_decode_elems_decode_members.induct)
  case (1 l t v saved)
  then show ?case
    by (auto simp: literalStore_def base64_decode_def base64_error
        split: list.splits if_splits option.splits go_type.splits sum.splits)
next
  case (2 xs t v saved)
  then show ?case by (auto split: go_type.splits)
next
  case (3 kvs t v saved)
  then show ?case by (auto split: go_type.splits)
next
  case (5 x xs e pre pool saved)
  from 5(4) obtain v1 saved1 where dec: "decode_value x e (hd (grow e (length pre) pool)) saved = Ret (v1, saved1)"
    "decode_elems xs e (pre @ [v1]) (tl (grow e (length pre) pool)) saved1 = Ret (v', saved')"
    by (auto simp: Let_def elim!: go_bind_RetE)
  from 5(2) [OF refl dec(1) refl 5(1) [OF refl 5(3) dec(1)] dec(2)] show ?case .
next
  case (7 kv kvs fs vs saved)
  from 7(5) obtain key where key: "unquoteBytes (fst kv) = Some key" by (auto split: option.splits)
  show ?case
  proof (cases "find_field fs key")
    case None
    with 7(1) [OF key None 7(4)] 7(5) key show ?thesis by simp
  next
    case (Some i)
    with 7(5) key obtain v1 saved1 where dec: "decode_value (snd kv) (snd (fs ! i)) (vs ! i) saved = Ret (v1, saved1)"
      "decode_members kvs fs (vs[i := v1]) saved1 = Ret (v', saved')" by (auto elim!: go_bind_RetE)
    from 7(3) [OF key Some dec(1) refl 7(2) [OF key Some 7(4) dec(1)] dec(2)] show ?thesis .
  qed
qed auto

lemma json_Unmarshal_error: "json_Unmarshal t v text = Ret (v', err) \<Longrightarrow> decode_error err"
  by (auto simp: json_Unmarshal_def dest: decode_errors(1) [rotated] split: if_splits option.splits)

end
