(* ===== verification/Gen_Cert.thy ===== *)
theory Gen_Cert
  imports Json_Codec
begin

text \<open>
  The certificate generator (\<open>src/cmd/gen-cert/main.go\<close>): a P-256 key and a certificate for it, written as two PEM
  files.  The PEM text (\<open>encoding/pem\<close> for a block without headers) is modelled down to its lines of base64.  The
  random source, the clock, the key generation, the DER encodings of \<open>crypto/x509\<close> and the file system are the argument
  \<open>cert_lib\<close>, over a world of which each call is given the state the previous one left.
\<close>

section \<open>PEM\<close>

definition pemLineLength :: nat where "pemLineLength = 64"

text \<open>The \<open>lineBreaker\<close>: full lines, and what is left when it is closed, each followed by a line feed.\<close>

function lineBreaker :: "bytes \<Rightarrow> bytes" where
  "lineBreaker cs =
     (if cs = [] then [] else take pemLineLength cs @ 0x0a # lineBreaker (drop pemLineLength cs))"
  by pat_completeness auto

termination lineBreaker
  by (relation "measure length") (auto simp: pemLineLength_def)

declare lineBreaker.simps [simp del]

definition pem_begin :: "string \<Rightarrow> bytes" where
  "pem_begin t = ascii ''-----BEGIN '' @ ascii t @ ascii ''-----'' @ [0x0a]"

definition pem_end :: "string \<Rightarrow> bytes" where
  "pem_end t = ascii ''-----END '' @ ascii t @ ascii ''-----'' @ [0x0a]"

definition pem_EncodeToMemory :: "string \<Rightarrow> bytes \<Rightarrow> bytes" where
  "pem_EncodeToMemory t bs = pem_begin t @ lineBreaker (base64_encode bs) @ pem_end t"

text \<open>The reading of such a text: what stands between the two lines of its type, in base64.\<close>

definition pem_read :: "string \<Rightarrow> bytes \<Rightarrow> bytes option" where
  "pem_read t text =
     (let body = drop (length (pem_begin t)) (take (length text - length (pem_end t)) text)
      in if text = pem_begin t @ body @ pem_end t
         then (case base64_decode body of Inl e \<Rightarrow> None | Inr bs \<Rightarrow> Some bs)
         else None)"

lemma three_dvd: "3 dvd Suc (Suc (Suc n)) \<longleftrightarrow> 3 dvd n" "\<not> 3 dvd Suc (Suc 0)" "\<not> 3 dvd Suc 0"
  by presburger+

lemma line_feed: "b64_value 0x0a = None" "is_newline 0x0a"
  by (simp_all add: b64_value_def is_newline_def)

lemma base64_encode_append: "3 dvd length xs \<Longrightarrow> base64_encode (xs @ ys) = base64_encode xs @ base64_encode ys"
  by (induction xs rule: base64_encode.induct) (simp_all add: Let_def three_dvd)

lemma base64_decode_newline: "base64_decode_from si dst (0x0a # cs) = base64_decode_from (si + 1) dst cs"
  by (subst (1 2) base64_decode_from.simps) (simp add: line_feed)

lemma base64_decode_full_groups:
  "3 dvd length xs \<Longrightarrow> base64_decode_from si dst (base64_encode xs @ rest) =
     base64_decode_from (si + length (base64_encode xs)) (dst @ xs) rest"
proof (induction xs arbitrary: si dst rule: base64_encode.induct)
  case (1 a b c xs)
  let ?v = "group24 a b c"
  have "quantum_bytes [?v div 262144, ?v div 4096 mod 64, ?v div 64 mod 64, ?v mod 64] = [a, b, c]"
    using sextets [of ?v] group24_bytes [of a b c] by (simp add: Let_def)
  moreover have four: "si + 4 + n = Suc (Suc (Suc (Suc (si + n))))" for n by simp
  ultimately show ?case using 1
    by (subst base64_decode_from.simps)
       (simp add: three_dvd four Let_def decodeQuantum_full sextet_bounds
         del: decodeQuantum.simps quantum_bytes.simps)
qed (simp_all add: three_dvd)

lemma decodeQuantum_pad_newline:
  assumes "a < 64" "b < 64" "c < 64"
  shows "decodeQuantum [] si [b64_symbol a, b64_symbol b, b64_symbol c, padChar, 0x0a] = QDone [a, b, c] (si + 5) [] None"
    and "decodeQuantum [] si [b64_symbol a, b64_symbol b, padChar, padChar, 0x0a] = QDone [a, b] (si + 5) [] None"
  using assms by (simp_all add: b64_value_symbol padChar_value padded_def skip_newlines_def line_feed)

lemma base64_decode_line: "base64_decode_from si dst (base64_encode bs @ [0x0a]) = Inr (dst @ bs)"
proof (induction bs arbitrary: si dst rule: base64_encode.induct)
  case (1 a b c rest)
  have "base64_encode (a # b # c # rest) = base64_encode [a, b, c] @ base64_encode rest" by (simp add: Let_def)
  moreover have "3 dvd length [a, b, c]" by (simp add: three_dvd)
  ultimately show ?case
    using base64_decode_full_groups [of "[a, b, c]" si dst "base64_encode rest @ [0x0a]"] 1
    by (simp del: base64_encode.simps)
next
  case (2 a b)
  show ?case
    by (subst base64_decode_from.simps)
       (simp add: Let_def decodeQuantum_pad_newline sextet_bounds quantum_bytes_2 base64_decode_from.simps [of _ _ "[]"]
         del: decodeQuantum.simps quantum_bytes.simps)
next
  case (3 a)
  show ?case
    by (subst base64_decode_from.simps)
       (simp add: Let_def decodeQuantum_pad_newline [of _ _ 0] sextet_bounds quantum_bytes_1
         base64_decode_from.simps [of _ _ "[]"] del: decodeQuantum.simps quantum_bytes.simps)
next
  case 4
  show ?case by (simp add: base64_decode_newline base64_decode_from.simps [of _ _ "[]"])
qed

lemma base64_decode_lineBreaker: "base64_decode_from si dst (lineBreaker (base64_encode bs)) = Inr (dst @ bs)"
proof (induction bs arbitrary: si dst rule: measure_induct_rule [where f = length])
  case (less bs)
  consider "bs = []" | "bs \<noteq> []" "length bs \<le> 48" | "48 < length bs" by linarith
  then show ?case
  proof cases
    case 1
    then show ?thesis by (simp add: lineBreaker.simps base64_decode_from.simps)
  next
    case 2
    then have "length (base64_encode bs) \<le> pemLineLength" "base64_encode bs \<noteq> []"
      using length_base64_encode [of bs] by (simp_all add: pemLineLength_def flip: length_greater_0_conv)
    then have "lineBreaker (base64_encode bs) = base64_encode bs @ [0x0a]"
      by (simp add: lineBreaker.simps [of "base64_encode bs"] lineBreaker.simps [of "[]"])
    then show ?thesis by (simp add: base64_decode_line)
  next
    case 3
    let ?l = "take 48 bs" and ?r = "drop 48 bs"
    have parts: "base64_encode bs = base64_encode ?l @ base64_encode ?r" and len: "length (base64_encode ?l) = 64"
      using 3 base64_encode_append [of ?l ?r] by (simp_all add: length_base64_encode)
    then have "lineBreaker (base64_encode bs) = base64_encode ?l @ 0x0a # lineBreaker (base64_encode ?r)"
      by (subst lineBreaker.simps) (auto simp: pemLineLength_def)
    with 3 less [of ?r] show ?thesis
      by (simp add: base64_decode_full_groups base64_decode_newline)
  qed
qed

lemma pem_read_encode: "pem_read t (pem_EncodeToMemory t bs) = Some bs"
  by (simp add: pem_read_def pem_EncodeToMemory_def base64_decode_def base64_decode_lineBreaker)

section \<open>The generator\<close>

record pkix_Name =
  Country :: "string list"
  Name_SerialNumber :: string
  CommonName :: string

datatype public_key_algorithm = x509_ECDSA

datatype signature_algorithm = ECDSAWithSHA256

text \<open>The fields of \<open>x509.Certificate\<close> that the program sets.\<close>

record 't x509_Certificate =
  NotBefore :: 't
  NotAfter :: 't
  SerialNumber :: int
  Issuer :: pkix_Name
  Subject :: pkix_Name
  PublicKeyAlgorithm :: public_key_algorithm
  SignatureAlgorithm :: signature_algorithm

record ('t, 'k, 'p, 'w) cert_lib =
  rand_Int :: "int \<Rightarrow> 'w \<Rightarrow> (go_error + int) \<times> 'w"
  time_Now :: "'w \<Rightarrow> 't \<times> 'w"
  AddDate :: "'t \<Rightarrow> int \<Rightarrow> int \<Rightarrow> int \<Rightarrow> 't"
  GenerateKey_P256 :: "'w \<Rightarrow> (go_error + 'k) \<times> 'w"
  PublicKey_of :: "'k \<Rightarrow> 'p"
  CreateCertificate :: "'t x509_Certificate \<Rightarrow> 't x509_Certificate \<Rightarrow> 'p \<Rightarrow> 'k \<Rightarrow> 'w \<Rightarrow> (go_error + bytes) \<times> 'w"
  MarshalECPrivateKey :: "'k \<Rightarrow> go_error + bytes"
  WriteFile :: "string \<Rightarrow> bytes \<Rightarrow> nat \<Rightarrow> 'w \<Rightarrow> (go_error + unit) \<times> 'w"

definition math_MaxInt64 :: int where "math_MaxInt64 = 2 ^ 63 - 1"

definition issuer_name :: pkix_Name where
  "issuer_name = \<lparr>Country = [''IT''], Name_SerialNumber = [], CommonName = ''Fidati U2F Token''\<rparr>"

text \<open>The template, whose subject is its issuer; \<open>time.Now\<close> is called once for each end of the validity.\<close>

definition cert_template :: "('t, 'k, 'p, 'w) cert_lib \<Rightarrow> int \<Rightarrow> 'w \<Rightarrow> 't x509_Certificate \<times> 'w" where
  "cert_template L serial w =
     (let (t1, w1) = time_Now L w; (t2, w2) = time_Now L w1
      in (\<lparr>NotBefore = t1, NotAfter = AddDate L t2 10 0 0, SerialNumber = serial, Issuer = issuer_name,
           Subject = issuer_name, PublicKeyAlgorithm = x509_ECDSA, SignatureAlgorithm = ECDSAWithSHA256\<rparr>, w2))"

text \<open>\<open>log.Fatal\<close> ends the program with its message; the world stays as the failing call left it.\<close>

datatype gen_outcome = Fatal string | Finished

definition or_fatal :: "string \<Rightarrow> (go_error + 'a) \<times> 'w \<Rightarrow> ('a \<Rightarrow> 'w \<Rightarrow> gen_outcome \<times> 'w) \<Rightarrow> gen_outcome \<times> 'w" where
  "or_fatal msg r k = (case r of (Inl e, w) \<Rightarrow> (Fatal (msg @ error_text e), w) | (Inr x, w) \<Rightarrow> k x w)"

text \<open>Both files are created with the permissions 0644.\<close>

definition file_mode :: nat where "file_mode = (6 * 8 + 4) * 8 + 4"

definition gen_cert_main :: "('t, 'k, 'p, 'w) cert_lib \<Rightarrow> 'w \<Rightarrow> gen_outcome \<times> 'w" where
  "gen_cert_main L w0 =
     or_fatal ''cannot generate serial, '' (rand_Int L math_MaxInt64 w0) (\<lambda>serial w1.
       let (cert, w2) = cert_template L serial w1 in
       or_fatal ''cannot generate ecdsa key '' (GenerateKey_P256 L w2) (\<lambda>privkey w3.
       or_fatal ''cannot generate certificate, '' (CreateCertificate L cert cert (PublicKey_of L privkey) privkey w3) (\<lambda>certBytes w4.
       or_fatal ''cannot marshal ecdsa privkey, '' (MarshalECPrivateKey L privkey, w4) (\<lambda>privkeyDer w5.
       or_fatal ''cannot write private key: ''
         (WriteFile L ''ecdsa_privkey.pem'' (pem_EncodeToMemory ''EC PRIVATE KEY'' privkeyDer) file_mode w5) (\<lambda>_ w6.
       or_fatal ''cannot write certificate: ''
         (WriteFile L ''attestation_certificate.pem'' (pem_EncodeToMemory ''CERTIFICATE'' certBytes) file_mode w6) (\<lambda>_ w7.
       (Finished, w7)))))))"

section \<open>What the program leaves in the file system\<close>

text \<open>
  What \<open>ioutil.WriteFile\<close> and \<open>rand.Int\<close> document: a successful write makes the data the contents of the file, and no
  write touches another file; a random number lies below the given bound and is not negative.
\<close>

definition writes_files :: "('t, 'k, 'p, 'w) cert_lib \<Rightarrow> ('w \<Rightarrow> string \<Rightarrow> bytes option) \<Rightarrow> bool" where
  "writes_files L content \<longleftrightarrow>
     (\<forall>n d m w r w'. WriteFile L n d m w = (r, w') \<longrightarrow>
        (r = Inr () \<longrightarrow> content w' n = Some d) \<and> (\<forall>n'. n' \<noteq> n \<longrightarrow> content w' n' = content w n'))"

definition draws_below :: "('t, 'k, 'p, 'w) cert_lib \<Rightarrow> bool" where
  "draws_below L \<longleftrightarrow> (\<forall>b w n w'. rand_Int L b w = (Inr n, w') \<longrightarrow> 0 \<le> n \<and> n < b)"

lemma or_fatal_Finished:
  "or_fatal msg r k = (Finished, w') \<longleftrightarrow> (\<exists>x w. r = (Inr x, w) \<and> k x w = (Finished, w'))"
  by (auto simp: or_fatal_def split: prod.splits sum.splits)

lemma case_prod_result: "(case p of (a, b) \<Rightarrow> f a b) = r \<longleftrightarrow> (\<exists>a b. p = (a, b) \<and> f a b = r)"
  by (cases p) simp

lemma gen_cert_main_Finished:
  "gen_cert_main L w = (Finished, w') \<Longrightarrow>
     (\<exists>serial w1 cert w2 k w3 certDer w4 keyDer w5.
        rand_Int L math_MaxInt64 w = (Inr serial, w1) \<and> cert_template L serial w1 = (cert, w2) \<and>
        GenerateKey_P256 L w2 = (Inr k, w3) \<and>
        CreateCertificate L cert cert (PublicKey_of L k) k w3 = (Inr certDer, w4) \<and>
        MarshalECPrivateKey L k = Inr keyDer \<and>
        WriteFile L ''ecdsa_privkey.pem'' (pem_EncodeToMemory ''EC PRIVATE KEY'' keyDer) file_mode w4 = (Inr (), w5) \<and>
        WriteFile L ''attestation_certificate.pem'' (pem_EncodeToMemory ''CERTIFICATE'' certDer) file_mode w5 = (Inr (), w'))"
  unfolding gen_cert_main_def or_fatal_Finished Let_def case_prod_result by auto

text \<open>
  C39. Certificate generator.  A run that finishes leaves two files that belong together: the PEM text
  \<open>ecdsa_privkey.pem\<close> reads back as the DER encoding of the generated key, and \<open>attestation_certificate.pem\<close> as the
  certificate that \<open>CreateCertificate\<close> made for the public key of the same key and signed with it, self-issued, with a
  serial number below \<open>math.MaxInt64\<close> and a validity that ends ten years after the time of the second reading of the
  clock.  PEM reads back every byte string, also one that fills its last line of 64 symbols or is empty.
\<close>

theorem gen_cert_files:
  assumes "writes_files L content" "draws_below L"
    and "gen_cert_main L w = (Finished, w')"
  shows "\<exists>k cert certDer keyDer keyPem certPem t u u' w1 w2 w3.
    rand_Int L math_MaxInt64 w = (Inr (SerialNumber cert), u) \<and>
    time_Now L u = (NotBefore cert, u') \<and> time_Now L u' = (t, w1) \<and> NotAfter cert = AddDate L t 10 0 0 \<and>
    GenerateKey_P256 L w1 = (Inr k, w2) \<and> MarshalECPrivateKey L k = Inr keyDer \<and>
    content w' ''ecdsa_privkey.pem'' = Some keyPem \<and> pem_read ''EC PRIVATE KEY'' keyPem = Some keyDer \<and>
    content w' ''attestation_certificate.pem'' = Some certPem \<and> pem_read ''CERTIFICATE'' certPem = Some certDer \<and>
    CreateCertificate L cert cert (PublicKey_of L k) k w2 = (Inr certDer, w3) \<and>
    Subject cert = Issuer cert \<and> 0 \<le> SerialNumber cert \<and> SerialNumber cert < math_MaxInt64"
proof -
  from gen_cert_main_Finished [OF assms(3)] obtain serial v1 cert v2 k v3 certDer v4 keyDer v5 where run:
    "rand_Int L math_MaxInt64 w = (Inr serial, v1)" "cert_template L serial v1 = (cert, v2)"
    "GenerateKey_P256 L v2 = (Inr k, v3)" "CreateCertificate L cert cert (PublicKey_of L k) k v3 = (Inr certDer, v4)"
    "MarshalECPrivateKey L k = Inr keyDer"
    "WriteFile L ''ecdsa_privkey.pem'' (pem_EncodeToMemory ''EC PRIVATE KEY'' keyDer) file_mode v4 = (Inr (), v5)"
    "WriteFile L ''attestation_certificate.pem'' (pem_EncodeToMemory ''CERTIFICATE'' certDer) file_mode v5 = (Inr (), w')"
    by blast
  have "content v5 ''ecdsa_privkey.pem'' = Some (pem_EncodeToMemory ''EC PRIVATE KEY'' keyDer)"
    using assms(1) run(6) unfolding writes_files_def by blast
  moreover have "content w' ''ecdsa_privkey.pem'' = content v5 ''ecdsa_privkey.pem''"
    using assms(1) run(7) unfolding writes_files_def by simp
  moreover have "content w' ''attestation_certificate.pem'' = Some (pem_EncodeToMemory ''CERTIFICATE'' certDer)"
    using assms(1) run(7) unfolding writes_files_def by blast
  moreover have "0 \<le> serial" "serial < math_MaxInt64"
    using assms(2) run(1) unfolding draws_below_def by blast+
  moreover have "Subject cert = Issuer cert" "SerialNumber cert = serial"
    "\<exists>t u'. time_Now L v1 = (NotBefore cert, u') \<and> time_Now L u' = (t, v2) \<and> NotAfter cert = AddDate L t 10 0 0"
    using run(2) by (auto simp: cert_template_def split: prod.splits)
  ultimately show ?thesis using run(1,3-5) pem_read_encode by metis
qed

text \<open>An instance: a key that is a number, a clock that counts its readings, and files in a map.\<close>

definition demo_cert_lib :: "(nat, nat, nat, nat \<times> (string \<Rightarrow> bytes option)) cert_lib" where
  "demo_cert_lib =
     \<lparr>rand_Int = (\<lambda>b w. if 7 < b then (Inr 7, w) else (Inl io_EOF, w)),
      time_Now = (\<lambda>(n, fs). (n, (n + 1, fs))),
      AddDate = (\<lambda>t y m d. t + nat y * 365),
      GenerateKey_P256 = (\<lambda>w. (Inr 5, w)),
      PublicKey_of = (\<lambda>k. k * 2),
      CreateCertificate = (\<lambda>c p pub k w. (Inr (replicate 50 (of_nat (pub + k))), w)),
      MarshalECPrivateKey = (\<lambda>k. Inr (replicate 48 (of_nat k))),
      WriteFile = (\<lambda>n d m (t, fs). (Inr (), (t, fs(n \<mapsto> d))))\<rparr>"

lemma demo_cert_lib_laws: "writes_files demo_cert_lib snd" "draws_below demo_cert_lib"
  by (auto simp: writes_files_def draws_below_def demo_cert_lib_def split: if_splits)

lemma demo_cert_run: "fst (gen_cert_main demo_cert_lib (0, Map.empty)) = Finished"
  by (simp add: gen_cert_main_def or_fatal_def cert_template_def demo_cert_lib_def math_MaxInt64_def)

theorem gen_cert_files_witness:
  "\<exists>keyPem. snd (snd (gen_cert_main demo_cert_lib (0, Map.empty))) ''ecdsa_privkey.pem'' = Some keyPem \<and>
     pem_read ''EC PRIVATE KEY'' keyPem = Some (replicate 48 5)"
proof -
  obtain w' where w': "gen_cert_main demo_cert_lib (0, Map.empty) = (Finished, w')"
    using demo_cert_run by (metis prod.collapse)
  have "MarshalECPrivateKey demo_cert_lib k = Inr d \<Longrightarrow> GenerateKey_P256 demo_cert_lib w1 = (Inr k, w2) \<Longrightarrow> d = replicate 48 5"
    for k d w1 w2 by (simp add: demo_cert_lib_def)
  with gen_cert_files [OF demo_cert_lib_laws w'] w' show ?thesis by (metis snd_conv)
qed

end
