(* ===== verification/Wallet.thy ===== *)
theory Wallet
  imports Firmware
begin

text \<open>
  How the parts make a wallet: requests on the wire are served by the Cosmos application behind the
  handler, the application uses the software token, and the token derives keys along the path the
  host sent.  The lemmas here connect the components; the resulting properties are in the root theory.
\<close>

section \<open>Requests of the host\<close>

definition sign_request :: "byte \<Rightarrow> bytes \<Rightarrow> bytes" where
  "sign_request descr payload = [appID, claSignSecp256K1, descr, 0, of_nat (length payload)] @ payload"

definition sign_requests :: "uint32 list \<Rightarrow> bytes list \<Rightarrow> bytes \<Rightarrow> bytes list" where
  "sign_requests path adds final =
     sign_request signInit (concat (map le_put32 path)) #
     map (sign_request signAdd) adds @ [sign_request signLast final]"

definition address_request :: "bytes \<Rightarrow> uint32 list \<Rightarrow> bytes" where
  "address_request hrp path =
     [appID, claGetAddrSecp256K1, 0, 0, of_nat (21 + length hrp), of_nat (length hrp)] @ hrp @
     concat (map le_put32 path)"

text \<open>What the code relies on of the APDU parser: the first two bytes are class and instruction.\<close>

definition parses_header :: "(bytes \<Rightarrow> go_error + CAPDU) \<Rightarrow> bytes \<Rightarrow> bool" where
  "parses_header unm m \<longleftrightarrow> unm m = Inr \<lparr>CLA = m ! 0, INS = m ! 1\<rparr>"

section \<open>Routing to the Cosmos application\<close>

text \<open>The handler with the Cosmos application in state \<open>c\<close> as its only entry.\<close>

definition with_app :: "'t Cosmos Handler \<Rightarrow> 't Cosmos \<Rightarrow> 't Cosmos Handler" where
  "with_app h c = h\<lparr>appMap := [appID \<mapsto> c]\<rparr>"

lemma with_app_simps [simp]:
  "with_app (with_app h c) c' = with_app h c'"
  "appMap (with_app h c) = [appID \<mapsto> c]"
  by (simp_all add: with_app_def)

lemma with_app_same: "appMap h = [appID \<mapsto> c] \<Longrightarrow> with_app h c = h"
  by (cases h) (simp add: with_app_def fun_eq_iff)

lemma with_app_inv:
  "handler_inv (cosmos_App L T) h \<Longrightarrow> appMap h = [appID \<mapsto> c] \<Longrightarrow>
   handler_inv (cosmos_App L T) (with_app h c')"
  by (simp add: with_app_def handler_inv_def commandAppMappingExists_def cosmos_App_def
      Cosmos_ID_def Cosmos_Commands_def)

lemma Handle_cosmos:
  assumes "handler_inv (cosmos_App L T) h" and "appMap h = [appID \<mapsto> c]"
    and "unm (elems g) = Inr \<lparr>CLA = appID, INS = cmd\<rparr>" and "cmd \<in> set (Cosmos_Commands c)"
  shows "Handle unm (cosmos_App L T) h g w =
    go_bind (Cosmos_Handle L T cmd g c w) (\<lambda>((d, code, err), c', w').
      Ret ((Some (PackageResponse d code), err), with_app h c', w'))"
  using cosmos.Handle_announced [OF assms(1), of unm g "\<lparr>CLA = appID, INS = cmd\<rparr>" c w] assms(2,3,4)
  by (simp add: UnmarshalCAPDU_def cosmos_App_def with_app_def)

lemma serve_cosmos:
  assumes "handler_inv (cosmos_App L T) h" and "appMap h = [appID \<mapsto> c]"
    and "cmd \<in> {claGetVersion, claSignSecp256K1, claGetAddrSecp256K1}"
    and "list_all (\<lambda>g. unm (elems g) = Inr \<lparr>CLA = appID, INS = cmd\<rparr>) gs"
  shows "serve (Handle unm (cosmos_App L T)) r h gs w =
    go_bind (Cosmos_run L T (map (Pair cmd) gs) c w) (\<lambda>(rs, c', w').
      Ret (concat (map (\<lambda>(d, code, err). frames_of r (PackageResponse d code)) rs),
           with_app h c', w'))"
  using assms(1,2,4)
proof (induction gs arbitrary: h c w)
  case Nil
  from with_app_same [OF Nil(2)] show ?case by simp
next
  case (Cons g gs)
  have cmd: "cmd \<in> set (Cosmos_Commands c)"
    using assms(3) by (simp add: Cosmos_Commands_def)
  have inv: "handler_inv (cosmos_App L T) (with_app h c')" for c'
    using Cons.prems(1,2) by (rule with_app_inv)
  from Cons.prems(3) have rest: "list_all (\<lambda>g. unm (elems g) = Inr \<lparr>CLA = appID, INS = cmd\<rparr>) gs"
    and g: "unm (elems g) = Inr \<lparr>CLA = appID, INS = cmd\<rparr>" by simp_all
  have IH: "serve (Handle unm (cosmos_App L T)) r (with_app h c') gs v =
      go_bind (Cosmos_run L T (map (Pair cmd) gs) c' v) (\<lambda>(rs, c', w').
        Ret (concat (map (\<lambda>(d, code, err). frames_of r (PackageResponse d code)) rs),
             with_app h c', w'))" for c' v
    using Cons.IH [OF inv [of c'] _ rest, of c' v] by simp
  show ?case
    by (simp add: Handle_cosmos [of L T h c unm g cmd, OF Cons.prems(1,2) g cmd] IH go_bind_assoc case_prod_unfold)
qed

section \<open>The path of a request\<close>

lemma length_path_bytes: "length (concat (map le_put32 ws)) = 4 * length ws"
  by (induction ws) (simp_all add: le_put32_def)

lemma wire_path_put:
  "wire_path (concat (map le_put32 [a, b, c, d, e]) @ rest) =
     \<lparr>Purpose = 0x80000000 XOR a, CoinType = 0x80000000 XOR b, Account = 0x80000000 XOR c,
      Change = d, AddressIndex = e\<rparr>"
  by (simp add: wire_path_def le_put32_def codec_simps)

lemma path_indices_wire:
  "hd_HardenedKeyStart lib = 0x80000000 \<Longrightarrow>
   path_indices lib \<lparr>Purpose = 0x80000000 XOR a, CoinType = 0x80000000 XOR b,
     Account = 0x80000000 XOR c, Change = d, AddressIndex = e\<rparr> = [a, b, c, d, e]"
  by (simp add: path_indices_def wire_component)

text \<open>A session token initialised at a path of the host.\<close>

lemma dumbToken_Initialize_wire:
  assumes "hd_HardenedKeyStart (env_lib env) = 0x80000000"
    and "hd_NewMaster (env_lib env) dumbToken_secret (0x80000000 XOR b) = Inr master"
    and "child_chain (env_lib env) master [a, b, c, d, e] = Some k"
  shows "Initialize (dumbToken_impl env) t \<lparr>Purpose = 0x80000000 XOR a, CoinType = 0x80000000 XOR b,
       Account = 0x80000000 XOR c, Change = d, AddressIndex = e\<rparr> w = Ret (None, \<lparr>privKey = Some k\<rparr>, w)"
proof -
  let ?p = "\<lparr>Purpose = 0x80000000 XOR a, CoinType = 0x80000000 XOR b,
       Account = 0x80000000 XOR c, Change = d, AddressIndex = e\<rparr>"
  from assms(3) have "KeyFromPath (env_lib env) master ?p = Inr (Some k)"
    by (simp only: KeyFromPath_Some_iff path_indices_wire [OF assms(1)])
  with assms(2) show ?thesis
    by (simp add: dumbToken_impl_def dumbToken_Initialize_eq)
qed

lemma sign_result_dumb:
  assumes "Initialize (dumbToken_impl env) t p w = Ret (None, \<lparr>privKey = Some k\<rparr>, w)"
    and "hd_ECPrivKey (env_lib env) k = Inr sk" and "json_valid m"
    and "ec_Sign (env_lib env) sk (Sum256 m) = Inr sig"
  shows "sign_result (dumbToken_impl env) t p m w = Ret ((sig, APDUSuccess, None), w)"
  using assms
  by (simp add: sign_result_def dumb.Clone_same) (simp add: dumbToken_impl_def dumbToken_Sign_def)

lemma address_result_dumb:
  assumes "Initialize (dumbToken_impl env) t p w = Ret (None, \<lparr>privKey = Some k\<rparr>, w)"
    and "hd_Neuter (env_lib env) k = Inr pk" and "hd_ECPubKey (env_lib env) pk = Inr pub"
    and "addressFromPubkey L pub hrp = Inr addr"
  shows "address_result L (dumbToken_impl env) t hrp p w = Ret ((pub @ addr, APDUSuccess, None), w)"
  using assms
  by (simp add: address_result_def dumb.Clone_same) (simp add: dumbToken_impl_def dumbToken_PublicKey_def)

section \<open>A signature over USB\<close>

lemma sign_request_nth [simp]:
  "sign_request ds p ! 0 = appID" "sign_request ds p ! Suc 0 = claSignSecp256K1" "sign_request ds p ! 2 = ds"
  "length (sign_request ds p) = 5 + length p" "drop 5 (sign_request ds p) = p"
  by (simp_all add: sign_request_def)

lemma run_sign_requests:
  assumes "elems gi = sign_request signInit (concat (map le_put32 [a, b, c, d, e]))"
    and "map elems gas = map (sign_request signAdd) adds"
    and "elems gl = sign_request signLast final"
  shows "Cosmos_run L T (map (Pair claSignSecp256K1) (gi # gas @ [gl])) app w =
    go_bind (sign_result T (Cosmos_Token app)
        \<lparr>Purpose = 0x80000000 XOR a, CoinType = 0x80000000 XOR b, Account = 0x80000000 XOR c,
         Change = d, AddressIndex = e\<rparr> (concat (adds @ [final])) w)
      (\<lambda>(r, w'). Ret (([], APDUSuccess, None) # replicate (length adds) ([], APDUSuccess, None) @ [r],
                     app\<lparr>currentSignatureSession := None\<rparr>, w'))"
proof -
  have len_i: "25 \<le> len gi"
    unfolding len_def assms(1) by (simp add: le_put32_def)
  have gas: "list_all is_add gas" "map (\<lambda>g. drop 5 (elems g)) gas = adds"
    using assms(2) by (induction gas arbitrary: adds) (auto simp: is_add_def len_def Cons_eq_map_conv)
  then have "length gas = length adds" by (metis length_map)
  moreover have "wire_path (drop 5 (elems gi)) =
      \<lparr>Purpose = 0x80000000 XOR a, CoinType = 0x80000000 XOR b, Account = 0x80000000 XOR c,
       Change = d, AddressIndex = e\<rparr>"
    using wire_path_put [of a b c d e "[]"] by (simp add: assms(1))
  moreover have "concat (map (\<lambda>g. drop 5 (elems g)) (gas @ [gl])) = concat (adds @ [final])"
    by (simp add: gas(2) assms(3))
  ultimately show ?thesis
    using Cosmos_run_protocol [OF len_i _ gas(1), of gl L T app w] assms(1,3)
    by (simp add: len_def)
qed

lemma received_elems: "channelID r \<noteq> 0 \<Longrightarrow> length m \<le> 65535 \<Longrightarrow> elems (received r m) = m"
  by (rule frames_of_reassembled [of r m])

lemma firmware_main_restored:
  "firmware_main L T t\<lparr>ah := with_app (ah (firmware_main L T t))
     \<lparr>Cosmos_Token = t, currentSignatureSession = None\<rparr>\<rparr> = firmware_main L T t"
  using with_app_same [OF firmware_main_app, of L T t] by (cases "firmware_main L T t") simp

lemma Rx_run_sign:
  assumes "channelID r \<noteq> 0" and "hh = firmware_main L T t"
    and "list_all (\<lambda>m. length m \<le> 65535 \<and> parses_header unm m) (sign_requests [a, b, c, d, e] adds final)"
    and "sign_result T t
        \<lparr>Purpose = 0x80000000 XOR a, CoinType = 0x80000000 XOR b, Account = 0x80000000 XOR c,
         Change = d, AddressIndex = e\<rparr> (concat (adds @ [final])) w = Ret ((sig, code, err), w')"
  shows "Rx_run (Handle unm (cosmos_App L T)) hh
      (concat (map (frames_of r) (sign_requests [a, b, c, d, e] adds final))) w =
    Ret (concat (replicate (1 + length adds) (frames_of r (PackageResponse [] APDUSuccess))) @
         frames_of r (PackageResponse sig code), hh, w')"
proof -
  let ?ms = "sign_requests [a, b, c, d, e] adds final" and ?A = "cosmos_App L T"
  let ?gs = "map (received r) ?ms"
  from assms(3) have short: "list_all (\<lambda>m. length m \<le> 65535) ?ms"
    and hdr: "list_all (parses_header unm) ?ms"
    by (auto simp: list_all_iff)
  have el: "list_all (\<lambda>m. elems (received r m) = m) ?ms"
    using short received_elems [OF assms(1)] by (auto simp: list_all_iff)
  have unm: "list_all (\<lambda>g. unm (elems g) = Inr \<lparr>CLA = appID, INS = claSignSecp256K1\<rparr>) ?gs"
    using hdr el by (auto simp: list_all_iff parses_header_def sign_requests_def)
  have inv: "handler_inv ?A (ah hh)" and app: "appMap (ah hh) = [appID \<mapsto> \<lparr>Cosmos_Token = t, currentSignatureSession = None\<rparr>]"
    using firmware_main_inv [of L T t] firmware_main_app [of L T t]
    by (simp_all add: assms(2) del: fun_upd_apply)
  have run: "Cosmos_run L T (map (Pair claSignSecp256K1) ?gs)
      \<lparr>Cosmos_Token = t, currentSignatureSession = None\<rparr> w =
    Ret (([], APDUSuccess, None) # replicate (length adds) ([], APDUSuccess, None) @ [(sig, code, err)],
         \<lparr>Cosmos_Token = t, currentSignatureSession = None\<rparr>, w')"
    using run_sign_requests [of "received r (hd ?ms)" a b c d e "map (received r) (map (sign_request signAdd) adds)"
        adds "received r (last ?ms)" final L T "\<lparr>Cosmos_Token = t, currentSignatureSession = None\<rparr>" w]
      el assms(4)
    by (simp add: sign_requests_def list_all_iff)
  have "serve (Handle unm ?A) r (ah hh) ?gs w =
    Ret (concat (replicate (1 + length adds) (frames_of r (PackageResponse [] APDUSuccess))) @
         frames_of r (PackageResponse sig code),
         with_app (ah hh) \<lparr>Cosmos_Token = t, currentSignatureSession = None\<rparr>, w')"
    using serve_cosmos [OF inv app _ unm, of r w] unfolding run by (simp add: map_replicate_const)
  moreover have "session hh = None" by (simp add: assms(2))
  ultimately show ?thesis
    using Rx_run_requests [OF assms(1) short, of hh "Handle unm ?A" w] firmware_main_restored [of L T t]
    by (simp add: assms(2))
qed

section \<open>An address over USB\<close>

lemma address_request_fields:
  fixes ws :: "uint32 list"
  assumes "1 \<le> length hrp" and "length hrp \<le> 83"
  defines "m \<equiv> address_request hrp ws"
  shows "getAddressRequest_validate (getAddressRequest_decode m) = None"
    and "unat (HRPLength (getAddressRequest_decode m)) = length hrp"
proof -
  have n: "unat (of_nat (length hrp) :: byte) = length hrp"
    using assms(2) by (simp add: unat_of_nat)
  have k: "unat (of_nat (21 + length hrp) :: byte) = 21 + length hrp"
    using assms(2) by (simp add: unat_of_nat del: of_nat_add)
  have dec: "getAddressRequest_decode m =
      \<lparr>P1 = 0, P2 = 0, PayloadLength = of_nat (21 + length hrp), HRPLength = of_nat (length hrp)\<rparr>"
    by (simp add: m_def address_request_def getAddressRequest_decode_def)
  from n dec show "unat (HRPLength (getAddressRequest_decode m)) = length hrp" by simp
  have "(of_nat (21 + length hrp) :: byte) \<noteq> 0"
    using k by (metis Suc_eq_plus1 add_is_0 numeral_eq_Suc unat_0 zero_neq_numeral)
  moreover have "\<not> (of_nat (length hrp) :: byte) < 1" "\<not> 83 < (of_nat (length hrp) :: byte)"
    using n assms(1,2) by (auto simp: word_less_nat_alt)
  ultimately show "getAddressRequest_validate (getAddressRequest_decode m) = None"
    using k assms(2) unfolding dec by (simp add: getAddressRequest_validate_def)
qed

lemma Cosmos_Handle_address:
  assumes "elems g = address_request hrp [a, b, c, d, e]" and "1 \<le> length hrp" and "length hrp \<le> 83"
  shows "Cosmos_Handle L T claGetAddrSecp256K1 g app w =
    go_bind (address_result L T (Cosmos_Token app) hrp
        \<lparr>Purpose = 0x80000000 XOR a, CoinType = 0x80000000 XOR b, Account = 0x80000000 XOR c,
         Change = d, AddressIndex = e\<rparr> w) (\<lambda>(r, w'). Ret (r, app, w'))"
proof -
  have lens: "len g = 26 + length hrp" "26 + length hrp \<le> cap g"
    unfolding len_def cap_def backing_def assms(1) by (simp_all add: address_request_def le_put32_def)
  have "drop 6 (backing g) = hrp @ concat (map le_put32 [a, b, c, d, e]) @ spare g"
    unfolding backing_def assms(1) by (simp add: address_request_def)
  then have "take (length hrp) (drop 6 (backing g)) = hrp"
    and "drop (6 + length hrp) (backing g) = concat (map le_put32 [a, b, c, d, e]) @ spare g"
    by (simp, metis (no_types, lifting) append_eq_conv_conj drop_drop add.commute)
  with lens address_request_fields [OF assms(2,3), of "[a, b, c, d, e]"] show ?thesis
    using wire_path_put [of a b c d e "spare g"]
    by (simp add: Cosmos_Handle_def cosmos_consts handleGetAddr_result Let_def assms(1)
        del: concat.simps list.map)
qed

lemma Rx_run_address:
  assumes "channelID r \<noteq> 0" and "hh = firmware_main L T t"
    and "1 \<le> length hrp" and "length hrp \<le> 83" and "parses_header unm (address_request hrp [a, b, c, d, e])"
    and "address_result L T t hrp
        \<lparr>Purpose = 0x80000000 XOR a, CoinType = 0x80000000 XOR b, Account = 0x80000000 XOR c,
         Change = d, AddressIndex = e\<rparr> w = Ret ((resp, code, err), w')"
  shows "Rx_run (Handle unm (cosmos_App L T)) hh (frames_of r (address_request hrp [a, b, c, d, e])) w =
    Ret (frames_of r (PackageResponse resp code), hh, w')"
proof -
  let ?m = "address_request hrp [a, b, c, d, e]"
  have short: "length ?m \<le> 65535"
    using assms(4) by (simp add: address_request_def le_put32_def)
  note el = received_elems [OF assms(1) short]
  have unm: "unm (elems (received r ?m)) = Inr \<lparr>CLA = appID, INS = claGetAddrSecp256K1\<rparr>"
    using assms(5) unfolding el parses_header_def by (simp add: address_request_def)
  have inv: "handler_inv (cosmos_App L T) (ah hh)"
    and app: "appMap (ah hh) = [appID \<mapsto> \<lparr>Cosmos_Token = t, currentSignatureSession = None\<rparr>]"
    using firmware_main_inv [of L T t] firmware_main_app [of L T t]
    by (simp_all add: assms(2) del: fun_upd_apply)
  have "Handle unm (cosmos_App L T) (ah hh) (received r ?m) w =
      Ret ((Some (PackageResponse resp code), err),
        with_app (ah hh) \<lparr>Cosmos_Token = t, currentSignatureSession = None\<rparr>, w')"
    using Handle_cosmos [of L T "ah hh" _ unm "received r ?m" claGetAddrSecp256K1 w, OF inv app unm]
      Cosmos_Handle_address [OF el assms(3,4), of L T "\<lparr>Cosmos_Token = t, currentSignatureSession = None\<rparr>" w]
      assms(6)
    by (simp add: Cosmos_Commands_def)
  moreover have "session hh = None" by (simp add: assms(2))
  moreover have "hh\<lparr>ah := a, session := None\<rparr> = hh\<lparr>ah := a\<rparr>" for a
    by (cases hh) (simp add: \<open>session hh = None\<close> [symmetric])
  ultimately show ?thesis
    using Rx_run_request [OF assms(1) short, of hh "Handle unm (cosmos_App L T)" w]
      firmware_main_restored [of L T t]
    by (simp add: assms(2))
qed

section \<open>What is behind a short request\<close>

lemma NewSession_backing:
  assumes "NewSession f = Ret (Inr s)" and "unat (hf_DataLengthInner (HIDFrame_decode f)) \<le> 57"
  shows "backing (Session_Data s) = drop 7 f @ replicate 7 0"
proof -
  let ?h = "HIDFrame_decode f"
  note acc = NewSession_accept [OF assms(1)]
  have dat: "hf_DataInner ?h = drop 7 f" "length (drop 7 f) = 57"
    using acc(1) by (simp_all add: HIDFrame_decode_def)
  have ch: "channelID Session_fresh = 0" by (simp add: Session_fresh_def)
  from assms(1) ch have rf: "Session_readFrame Session_fresh (FrameInit ?h) = Ret (None, s)"
    by (auto simp: NewSession_def Session_ReadData_def readFrame_Init_iff Session_ReadFrame_def
        elim!: go_bind_RetE split: sum.splits option.splits)
  have wr: "buffer_Write empty_buffer (drop 7 f) = \<lparr>elems = drop 7 f, spare = replicate 7 0\<rparr>"
    using dat(2) by (simp add: buffer_Write_def empty_buffer_def smallBufferSize_def len_def cap_def)
  have "take n (drop 7 f) @ drop (n + 7) f = drop 7 f" for n
    using append_take_drop_id [of n "drop 7 f"] by simp
  with rf dat assms(2) show ?thesis
    by (auto simp: Session_readFrame_def Session_fresh_def Let_def wr buffer_Truncate_Ret len_def
        Session_Data_def backing_def)
qed

lemma Rx_short_init:
  assumes "hh = firmware_main L T t" and "NewSession f = Ret (Inr s)"
    and "hf_DataLengthInner (HIDFrame_decode f) = 5" and "f ! 9 = signInit"
    and "unm (take 5 (drop 7 f)) = Inr \<lparr>CLA = appID, INS = claSignSecp256K1\<rparr>"
  shows "Rx (Handle unm (cosmos_App L T)) hh f w =
    Ret (frames_of s (PackageResponse [] APDUSuccess), None,
      hh\<lparr>ah := with_app (ah hh) \<lparr>Cosmos_Token = t, currentSignatureSession =
        Some \<lparr>derivationPath = wire_path (drop 12 f), sig_data = empty_buffer\<rparr>\<rparr>\<rparr>, w)"
proof -
  let ?app = "\<lparr>Cosmos_Token = t, currentSignatureSession = None\<rparr>" and ?g = "Session_Data s"
  note acc = NewSession_accept [OF assms(2)]
  have el: "elems ?g = take 5 (drop 7 f)" and fin: "\<not> ShouldReadMore s"
    using acc(6,7) assms(3) by (simp_all add: Session_Data_def)
  have "backing ?g = drop 7 f @ replicate 7 0"
    using NewSession_backing [OF assms(2)] assms(3) by simp
  moreover have "drop 7 f = take 5 (drop 7 f) @ drop 12 f"
    using append_take_drop_id [of 5 "drop 7 f"] by simp
  ultimately have sp: "spare ?g = drop 12 f @ replicate 7 0"
    using el by (metis append.assoc backing_def same_append_eq)
  have "Cosmos_Handle L T claSignSecp256K1 ?g ?app w =
      Ret (([], APDUSuccess, None), ?app\<lparr>currentSignatureSession :=
        Some \<lparr>derivationPath = wire_path (drop 12 f @ replicate 7 0), sig_data = empty_buffer\<rparr>\<rparr>, w)"
    using handle_short_init [of ?g L T ?app w] el sp acc(1) assms(4) by (simp add: len_def)
  moreover have "wire_path (drop 12 f @ replicate 7 0) = wire_path (drop 12 f)"
    using wire_path_take [of 52 "drop 12 f @ replicate 7 0"] acc(1) by simp
  moreover have inv: "handler_inv (cosmos_App L T) (ah hh)" and app: "appMap (ah hh) = [appID \<mapsto> ?app]"
    using firmware_main_inv [of L T t] firmware_main_app [of L T t]
    by (simp_all add: assms(1) del: fun_upd_apply)
  moreover have "hh\<lparr>ah := a, session := None\<rparr> = hh\<lparr>ah := a\<rparr>" for a
    using firmware_main_session [of L T t] by (cases hh) (simp add: assms(1) [symmetric])
  ultimately have "Rx_handle (Handle unm (cosmos_App L T)) hh s [] w =
    Ret (frames_of s (PackageResponse [] APDUSuccess), None,
      hh\<lparr>ah := with_app (ah hh) \<lparr>Cosmos_Token = t, currentSignatureSession =
        Some \<lparr>derivationPath = wire_path (drop 12 f), sig_data = empty_buffer\<rparr>\<rparr>\<rparr>, w)"
    using Rx_handle_complete [OF fin refl, of "Handle unm (cosmos_App L T)" hh w]
      Handle_cosmos [of L T "ah hh" ?app unm ?g claSignSecp256K1 w, OF inv app] assms(5)
    by (simp add: el Cosmos_Commands_def)
  then show ?thesis
    using assms(2) by (simp add: Rx_def assms(1))
qed

end
