(* ===== verification/Mem.thy ===== *)
theory Mem
  imports Go_Runtime
begin

text \<open>
  The memory layout of \<open>src/tee/mem/layout.go\<close>: the four regions of the two worlds and the regions handed
  to the loaders.  Addresses are 32-bit words.
\<close>

definition SecureStart :: uint32 where "SecureStart = 0x98000000"
definition SecureSize :: uint32 where "SecureSize = 0x03f00000"
definition SecureDMAStart :: uint32 where "SecureDMAStart = 0x9bf00000"
definition SecureDMASize :: uint32 where "SecureDMASize = 0x00100000"
definition AppletStart :: uint32 where "AppletStart = 0x9c000000"
definition AppletSize :: uint32 where "AppletSize = 0x02000000"
definition NonSecureStart :: uint32 where "NonSecureStart = 0x80000000"
definition NonSecureSize :: uint32 where "NonSecureSize = 0x10000000"

lemmas mem_consts = SecureStart_def SecureSize_def SecureDMAStart_def SecureDMASize_def
  AppletStart_def AppletSize_def NonSecureStart_def NonSecureSize_def

record Region =
  rg_Start :: uint32
  rg_Size :: uint32

definition AppletRegion :: Region where
  "AppletRegion = \<lparr>rg_Start = AppletStart, rg_Size = AppletSize\<rparr>"

definition NonSecureRegion :: Region where
  "NonSecureRegion = \<lparr>rg_Start = NonSecureStart, rg_Size = NonSecureSize\<rparr>"

text \<open>An address lies in a region of \<open>n\<close> bytes from \<open>s\<close>; the end is computed without wrap-around.\<close>

definition inside :: "uint32 \<Rightarrow> uint32 \<Rightarrow> uint32 \<Rightarrow> bool" where
  "inside s n a \<longleftrightarrow> unat s \<le> unat a \<and> unat a < unat s + unat n"

lemma inside_NonSecure: "inside NonSecureStart NonSecureSize a \<longleftrightarrow> 0x80000000 \<le> unat a \<and> unat a < 0x90000000"
  by (simp add: inside_def mem_consts)

lemma inside_Secure: "inside SecureStart SecureSize a \<longleftrightarrow> 0x98000000 \<le> unat a \<and> unat a < 0x9bf00000"
  by (simp add: inside_def mem_consts)

lemma inside_DMA: "inside SecureDMAStart SecureDMASize a \<longleftrightarrow> 0x9bf00000 \<le> unat a \<and> unat a < 0x9c000000"
  by (simp add: inside_def mem_consts)

lemma inside_Applet: "inside AppletStart AppletSize a \<longleftrightarrow> 0x9c000000 \<le> unat a \<and> unat a < 0x9e000000"
  by (simp add: inside_def mem_consts)

lemma inside_SecureWorld:
  "inside SecureStart (SecureSize + SecureDMASize) a \<longleftrightarrow> 0x98000000 \<le> unat a \<and> unat a < 0x9c000000"
  by (simp add: inside_def mem_consts)

lemmas inside_regions = inside_NonSecure inside_Secure inside_DMA inside_Applet inside_SecureWorld

text \<open>
  The regions of the memory layout do not overlap and none wraps around the address space; the
  first restricted range of the trusted OS, of \<open>SecureSize + SecureDMASize\<close> bytes, is exactly the secure
  OS and its DMA memory; and the stack pointer given to an applet is the first address behind its
  region.
\<close>

lemma layout_disjoint:
  "length (filter (\<lambda>r. inside (rg_Start r) (rg_Size r) a)
     [\<lparr>rg_Start = SecureStart, rg_Size = SecureSize\<rparr>, \<lparr>rg_Start = SecureDMAStart, rg_Size = SecureDMASize\<rparr>,
      AppletRegion, NonSecureRegion]) \<le> 1 \<and>
   (inside SecureStart (SecureSize + SecureDMASize) a \<longleftrightarrow>
      inside SecureStart SecureSize a \<or> inside SecureDMAStart SecureDMASize a) \<and>
   unat (AppletStart + AppletSize) = unat AppletStart + unat AppletSize"
  by (auto simp: AppletRegion_def NonSecureRegion_def inside_regions)
     (simp_all add: mem_consts)

end
