(* ===== verification/Trust_Zone.thy ===== *)
theory Trust_Zone
  imports Mem
begin

text \<open>
  The partition of memory and peripherals in \<open>src/tee/trusted_os/tz/tz.go\<close> (\<open>configureTrustZone\<close> and
  \<open>grantPeripheralAccess\<close>).  The calls into the hardware packages are recorded in the order they are
  made; whether a call fails is a parameter, and the first failure ends the function.
\<close>

section \<open>Hardware calls\<close>

datatype sec_level = SEC_LEVEL_0 | SEC_LEVEL_4

datatype hw_call =
    NonSecureAccessControl uint32
  | CSU_Init
  | SetSecurityLevel nat nat sec_level bool
  | SetAccess nat bool bool
  | EnableRegion nat uint32 uint32 nat

text \<open>
  The constants of the hardware packages, whether the code runs on the real board, and the result of
  each call.
\<close>

record hwlib =
  imx6_Native :: bool
  CSL_MIN :: nat
  CSL_MAX :: nat
  SA_MIN :: nat
  SA_MAX :: nat
  SP_NW_RD :: nat
  SP_NW_WR :: nat
  SP_SW_RD :: nat
  SP_SW_WR :: nat
  hw_result :: "hw_call \<Rightarrow> go_error option"

text \<open>Calls in order, each followed by \<open>if err != nil return\<close>: the calls made and the error returned.\<close>

fun hw_seq :: "hwlib \<Rightarrow> hw_call list \<Rightarrow> hw_call list \<times> go_error option" where
  "hw_seq hw [] = ([], None)"
| "hw_seq hw (c # cs) =
     (case hw_result hw c of
        Some err \<Rightarrow> ([c], Some err)
      | None \<Rightarrow> (let (done, err) = hw_seq hw cs in (c # done, err)))"

definition hw_then ::
  "hw_call list \<times> go_error option \<Rightarrow> (hw_call list \<times> go_error option) \<Rightarrow> hw_call list \<times> go_error option" where
  "hw_then a b = (case snd a of Some err \<Rightarrow> a | None \<Rightarrow> (fst a @ fst b, snd b))"

definition nw_attr :: "hwlib \<Rightarrow> nat" where
  "nw_attr hw = or (2 ^ SP_NW_RD hw) (2 ^ SP_NW_WR hw)"

definition sw_attr :: "hwlib \<Rightarrow> nat" where
  "sw_attr hw = or (2 ^ SP_SW_RD hw) (2 ^ SP_SW_WR hw)"

section \<open>configureTrustZone\<close>

text \<open>The two loops over all peripherals and all controllers.\<close>

definition all_peripherals :: "hwlib \<Rightarrow> hw_call list" where
  "all_peripherals hw =
     concat (map (\<lambda>i. [SetSecurityLevel i 0 SEC_LEVEL_0 False, SetSecurityLevel i 1 SEC_LEVEL_0 False])
       [CSL_MIN hw ..< CSL_MAX hw])"

definition all_controllers :: "hwlib \<Rightarrow> hw_call list" where
  "all_controllers hw = map (\<lambda>i. SetAccess i False False) [SA_MIN hw ..< SA_MAX hw]"

definition configureTrustZone :: "hwlib \<Rightarrow> bool \<Rightarrow> hw_call list \<times> go_error option" where
  "configureTrustZone hw lock =
     (let start = [NonSecureAccessControl (or (push_bit 11 1) (push_bit 10 1))]
      in if \<not> imx6_Native hw then (start, None)
         else
           hw_then (start @ [CSU_Init], None)
             (hw_then (hw_seq hw (all_peripherals hw @ [EnableRegion 0 0 0 (nw_attr hw)]))
               (if lock
                then hw_seq hw
                  ([EnableRegion 1 SecureStart (SecureSize + SecureDMASize) (sw_attr hw),
                    EnableRegion 2 AppletStart AppletSize (sw_attr hw)] @
                   all_controllers hw @
                   [SetSecurityLevel 2 1 SEC_LEVEL_4 False,
                    SetSecurityLevel 6 1 SEC_LEVEL_4 False,
                    SetSecurityLevel 8 0 SEC_LEVEL_0 False,
                    SetAccess 4 False False,
                    SetSecurityLevel 13 0 SEC_LEVEL_4 False,
                    SetSecurityLevel 16 1 SEC_LEVEL_4 False,
                    SetSecurityLevel 34 0 SEC_LEVEL_4 False,
                    SetAccess 14 True False])
                else ([], None))))"

definition grantPeripheralAccess :: "hwlib \<Rightarrow> hw_call list \<times> go_error option" where
  "grantPeripheralAccess hw =
     hw_seq hw
       [SetSecurityLevel 2 1 SEC_LEVEL_0 False,
        SetSecurityLevel 6 1 SEC_LEVEL_0 False,
        SetSecurityLevel 8 0 SEC_LEVEL_0 False,
        SetAccess 4 False False,
        SetAccess 10 False False,
        SetAccess 11 False False]"

section \<open>What the calls leave behind\<close>

text \<open>The last setting of a peripheral slot or a controller in a sequence of calls.\<close>

fun level_of :: "hw_call list \<Rightarrow> nat \<Rightarrow> nat \<Rightarrow> sec_level option" where
  "level_of [] p s = None"
| "level_of (c # cs) p s =
     (case level_of cs p s of
        Some l \<Rightarrow> Some l
      | None \<Rightarrow> (case c of
                  SetSecurityLevel p' s' l _ \<Rightarrow> if p' = p \<and> s' = s then Some l else None
                | _ \<Rightarrow> None))"

fun access_of :: "hw_call list \<Rightarrow> nat \<Rightarrow> bool option" where
  "access_of [] i = None"
| "access_of (c # cs) i =
     (case access_of cs i of
        Some b \<Rightarrow> Some b
      | None \<Rightarrow> (case c of SetAccess i' b _ \<Rightarrow> if i' = i then Some b else None | _ \<Rightarrow> None))"

text \<open>
  The attributes that apply to an address: of the regions enabled for it, the one with the highest number
  decides, and region 0 is the whole address space.
\<close>

fun attr_of :: "hw_call list \<Rightarrow> uint32 \<Rightarrow> (nat \<times> nat) option" where
  "attr_of [] a = None"
| "attr_of (c # cs) a =
     (let rest = attr_of cs a
      in case c of
           EnableRegion n s k at \<Rightarrow>
             if (n = 0 \<or> inside s k a) \<and> (case rest of None \<Rightarrow> True | Some (m, _) \<Rightarrow> m < n)
             then Some (n, at) else rest
         | _ \<Rightarrow> rest)"

lemma hw_seq_ok: "list_all (\<lambda>c. hw_result hw c = None) cs \<Longrightarrow> hw_seq hw cs = (cs, None)"
  by (induction cs) simp_all

lemma level_of_append:
  "level_of (xs @ ys) p s = (case level_of ys p s of Some l \<Rightarrow> Some l | None \<Rightarrow> level_of xs p s)"
  by (induction xs) (simp_all split: option.split)

lemma access_of_append:
  "access_of (xs @ ys) i = (case access_of ys i of Some b \<Rightarrow> Some b | None \<Rightarrow> access_of xs i)"
  by (induction xs) (simp_all split: option.split)

fun is_region :: "hw_call \<Rightarrow> bool" where
  "is_region (EnableRegion _ _ _ _) = True"
| "is_region _ = False"

lemma attr_of_skip: "list_all (\<lambda>c. \<not> is_region c) xs \<Longrightarrow> attr_of (xs @ ys) a = attr_of ys a"
  by (induction xs) (auto split: hw_call.split simp: Let_def)

lemma attr_of_none: "list_all (\<lambda>c. \<not> is_region c) xs \<Longrightarrow> attr_of xs a = None"
  using attr_of_skip [of xs "[]" a] by simp

lemma no_regions: "list_all (\<lambda>c. \<not> is_region c) (all_peripherals hw)"
  "list_all (\<lambda>c. \<not> is_region c) (all_controllers hw)"
  by (auto simp: all_peripherals_def all_controllers_def list_all_iff)

text \<open>All calls of a successful run, in order.\<close>

definition locking_calls :: "hwlib \<Rightarrow> hw_call list" where
  "locking_calls hw =
     [EnableRegion 1 SecureStart (SecureSize + SecureDMASize) (sw_attr hw),
      EnableRegion 2 AppletStart AppletSize (sw_attr hw)] @
     all_controllers hw @
     [SetSecurityLevel 2 1 SEC_LEVEL_4 False, SetSecurityLevel 6 1 SEC_LEVEL_4 False,
      SetSecurityLevel 8 0 SEC_LEVEL_0 False, SetAccess 4 False False,
      SetSecurityLevel 13 0 SEC_LEVEL_4 False, SetSecurityLevel 16 1 SEC_LEVEL_4 False,
      SetSecurityLevel 34 0 SEC_LEVEL_4 False, SetAccess 14 True False]"

definition trustzone_calls :: "hwlib \<Rightarrow> bool \<Rightarrow> hw_call list" where
  "trustzone_calls hw lock =
     [NonSecureAccessControl (or (push_bit 11 1) (push_bit 10 1)), CSU_Init] @ all_peripherals hw @
     [EnableRegion 0 0 0 (nw_attr hw)] @ (if lock then locking_calls hw else [])"

definition hw_succeeds :: "hwlib \<Rightarrow> bool" where
  "hw_succeeds hw \<longleftrightarrow> (\<forall>c. hw_result hw c = None)"

lemma hw_seq_succeeds: "hw_succeeds hw \<Longrightarrow> hw_seq hw cs = (cs, None)"
  by (rule hw_seq_ok) (simp add: hw_succeeds_def list_all_iff)

lemma configureTrustZone_succeeds:
  "imx6_Native hw \<Longrightarrow> hw_succeeds hw \<Longrightarrow> configureTrustZone hw lock = (trustzone_calls hw lock, None)"
  by (simp add: configureTrustZone_def hw_seq_succeeds hw_then_def trustzone_calls_def locking_calls_def
      Let_def del: hw_seq.simps)

lemma attr_of_locking: "attr_of (locking_calls hw) a =
    (if inside AppletStart AppletSize a then Some (2, sw_attr hw)
     else if inside SecureStart (SecureSize + SecureDMASize) a then Some (1, sw_attr hw)
     else None)"
proof -
  have "attr_of (all_controllers hw @
     [SetSecurityLevel 2 1 SEC_LEVEL_4 False, SetSecurityLevel 6 1 SEC_LEVEL_4 False,
      SetSecurityLevel 8 0 SEC_LEVEL_0 False, SetAccess 4 False False,
      SetSecurityLevel 13 0 SEC_LEVEL_4 False, SetSecurityLevel 16 1 SEC_LEVEL_4 False,
      SetSecurityLevel 34 0 SEC_LEVEL_4 False, SetAccess 14 True False]) a = None"
    by (subst attr_of_skip [OF no_regions(2)]) simp
  then show ?thesis by (simp add: locking_calls_def Let_def)
qed

lemma attr_of_trustzone:
  "attr_of (trustzone_calls hw lock) a =
     (if lock \<and> inside AppletStart AppletSize a then Some (2, sw_attr hw)
      else if lock \<and> inside SecureStart (SecureSize + SecureDMASize) a then Some (1, sw_attr hw)
      else Some (0, nw_attr hw))"
  using attr_of_skip [OF no_regions(1), of hw "[EnableRegion 0 0 0 (nw_attr hw)] @ (if lock then locking_calls hw else [])" a]
  by (simp add: trustzone_calls_def Let_def attr_of_locking)

lemma level_of_all_peripherals:
  "level_of (all_peripherals hw) p s =
     (if CSL_MIN hw \<le> p \<and> p < CSL_MAX hw \<and> s \<le> 1 then Some SEC_LEVEL_0 else None)"
proof -
  have "level_of (concat (map (\<lambda>i. [SetSecurityLevel i 0 SEC_LEVEL_0 False,
          SetSecurityLevel i 1 SEC_LEVEL_0 False]) is)) p s =
      (if p \<in> set is \<and> s \<le> 1 then Some SEC_LEVEL_0 else None)" for "is"
    by (induction "is") (auto split: option.split)
  then show ?thesis by (simp add: all_peripherals_def)
qed

lemma access_of_all_controllers:
  "access_of (all_controllers hw) i = (if SA_MIN hw \<le> i \<and> i < SA_MAX hw then Some False else None)"
proof -
  have "access_of (map (\<lambda>i. SetAccess i False False) is) i = (if i \<in> set is then Some False else None)" for "is"
    by (induction "is") (auto split: option.split)
  then show ?thesis by (simp add: all_controllers_def)
qed

lemma level_of_no_setting: "level_of (all_controllers hw) p s = None"
  and access_of_no_setting: "access_of (all_peripherals hw) i = None"
proof -
  have "level_of (map (\<lambda>i. SetAccess i False False) is) p s = None" for "is"
    by (induction "is") simp_all
  then show "level_of (all_controllers hw) p s = None" by (simp add: all_controllers_def)
  have "access_of (concat (map (\<lambda>i. [SetSecurityLevel i 0 SEC_LEVEL_0 False,
      SetSecurityLevel i 1 SEC_LEVEL_0 False]) is)) i = None" for "is"
    by (induction "is") simp_all
  then show "access_of (all_peripherals hw) i = None" by (simp add: all_peripherals_def)
qed

lemma hw_seq_stops:
  "hw_seq hw cs = (calls, err) \<Longrightarrow>
   \<exists>rest. cs = calls @ rest \<and>
     (case err of
        None \<Rightarrow> rest = [] \<and> list_all (\<lambda>c. hw_result hw c = None) calls
      | Some e \<Rightarrow> calls \<noteq> [] \<and> hw_result hw (last calls) = Some e \<and>
                   list_all (\<lambda>c. hw_result hw c = None) (butlast calls))"
proof (induction cs arbitrary: calls)
  case Nil
  then show ?case by auto
next
  case (Cons c cs)
  show ?case
  proof (cases "hw_result hw c")
    case (Some e)
    with Cons.prems have "calls = [c]" "err = Some e" by auto
    with Some show ?thesis by simp
  next
    case None
    with Cons.prems obtain calls' where "hw_seq hw cs = (calls', err)" "calls = c # calls'"
      by (auto split: prod.split_asm)
    with Cons.IH [of calls'] None show ?thesis
      by (cases err) auto
  qed
qed

lemma hw_then_seq: "hw_then (hw_seq hw xs) (hw_seq hw ys) = hw_seq hw (xs @ ys)"
  by (induction xs) (auto simp: hw_then_def Let_def split: option.split prod.split)

lemma configureTrustZone_eq:
  "imx6_Native hw \<Longrightarrow> configureTrustZone hw lock =
     hw_then ([NonSecureAccessControl (or (push_bit 11 1) (push_bit 10 1)), CSU_Init], None)
       (hw_then (hw_seq hw (all_peripherals hw @ [EnableRegion 0 0 0 (nw_attr hw)]))
          (hw_seq hw (if lock then locking_calls hw else [])))"
  by (cases lock) (simp_all only: configureTrustZone_def locking_calls_def Let_def if_True if_False
      simp_thms append.simps hw_seq.simps(1))

lemma configureTrustZone_seq:
  "imx6_Native hw \<Longrightarrow> configureTrustZone hw lock =
    (let (calls, err) = hw_seq hw (drop 2 (trustzone_calls hw lock))
     in (take 2 (trustzone_calls hw lock) @ calls, err))"
  by (simp only: configureTrustZone_eq hw_then_seq)
     (simp add: hw_then_def trustzone_calls_def case_prod_unfold numeral_2_eq_2 Let_def del: hw_seq.simps)

text \<open>What the code relies on of the address-space controller.\<close>

definition tzc_semantics :: "(hw_call list \<Rightarrow> uint32 \<Rightarrow> nat) \<Rightarrow> bool" where
  "tzc_semantics perm \<longleftrightarrow> (\<forall>calls a n at. attr_of calls a = Some (n, at) \<longrightarrow> perm calls a = at)"

lemma perm_trustzone:
  assumes "tzc_semantics perm"
  shows "perm (trustzone_calls hw lock) a =
    (if lock \<and> (inside SecureStart SecureSize a \<or> inside SecureDMAStart SecureDMASize a \<or>
                 inside AppletStart AppletSize a)
     then sw_attr hw else nw_attr hw)"
proof -
  have "inside SecureStart (SecureSize + SecureDMASize) a \<longleftrightarrow>
      inside SecureStart SecureSize a \<or> inside SecureDMAStart SecureDMASize a"
    by (auto simp: inside_regions)
  then have "\<exists>n. attr_of (trustzone_calls hw lock) a =
      Some (n, if lock \<and> (inside SecureStart SecureSize a \<or> inside SecureDMAStart SecureDMASize a \<or>
                   inside AppletStart AppletSize a)
               then sw_attr hw else nw_attr hw)"
    by (auto simp: attr_of_trustzone)
  with assms show ?thesis
    unfolding tzc_semantics_def by blast
qed

section \<open>Properties of the partition\<close>

text \<open>
  Memory isolation: after a successful configuration on the board, with locking, every address of
  the secure OS, its DMA memory and the applet region has the secure-world attributes only, and every
  other address, the nonsecure OS included, the nonsecure ones; without locking nothing is restricted.
\<close>

lemma trustzone_memory:
  assumes "imx6_Native hw" and "hw_succeeds hw" and "tzc_semantics perm"
  shows "\<exists>calls. configureTrustZone hw lock = (calls, None) \<and>
    perm calls a =
      (if lock \<and> (inside SecureStart SecureSize a \<or> inside SecureDMAStart SecureDMASize a \<or>
                   inside AppletStart AppletSize a)
       then sw_attr hw else nw_attr hw)"
  using configureTrustZone_succeeds [OF assms(1,2)] perm_trustzone [OF assms(3)] by blast

definition demo_hw :: hwlib where
  "demo_hw = \<lparr>imx6_Native = True, CSL_MIN = 0, CSL_MAX = 40, SA_MIN = 0, SA_MAX = 16,
     SP_NW_RD = 0, SP_NW_WR = 1, SP_SW_RD = 2, SP_SW_WR = 3, hw_result = (\<lambda>c. None)\<rparr>"

lemma trustzone_memory_witness:
  "\<exists>calls. configureTrustZone demo_hw True = (calls, None) \<and>
    (\<lambda>calls a. snd (the (attr_of calls a))) calls 0x9c000004 =
      (if True \<and> (inside SecureStart SecureSize 0x9c000004 \<or> inside SecureDMAStart SecureDMASize 0x9c000004 \<or>
                   inside AppletStart AppletSize 0x9c000004)
       then sw_attr demo_hw else nw_attr demo_hw)"
  by (rule trustzone_memory) (simp_all add: demo_hw_def hw_succeeds_def tzc_semantics_def)

text \<open>
  C31. Peripheral isolation: after a successful locking configuration GPIO4, IOMUXC, ROMCP, TZASC and DCP
  are the only peripherals restricted to the secure world, and the DCP is the only secure bus master;
  the USB controller is not, although the source's comment says so.
\<close>

theorem trustzone_peripherals:
  assumes "imx6_Native hw" and "hw_succeeds hw" and "CSL_MIN hw \<le> p" and "p < CSL_MAX hw" and "s \<le> 1"
    and "SA_MIN hw \<le> i" and "i < SA_MAX hw"
  shows "\<exists>calls. configureTrustZone hw True = (calls, None) \<and>
    level_of calls p s =
      Some (if (p, s) \<in> {(2, 1), (6, 1), (13, 0), (16, 1), (34, 0)} then SEC_LEVEL_4 else SEC_LEVEL_0) \<and>
    access_of calls i = Some (i = 14)"
proof -
  have "level_of (trustzone_calls hw True) p s =
      Some (if (p, s) \<in> {(2, 1), (6, 1), (13, 0), (16, 1), (34, 0)} then SEC_LEVEL_4 else SEC_LEVEL_0)"
    using assms(3,4,5)
    by (auto simp: trustzone_calls_def locking_calls_def level_of_append level_of_all_peripherals
        level_of_no_setting)
  moreover have "access_of (trustzone_calls hw True) i = Some (i = 14)"
    using assms(6,7)
    by (auto simp: trustzone_calls_def locking_calls_def access_of_append access_of_all_controllers
        access_of_no_setting)
  ultimately show ?thesis
    using configureTrustZone_succeeds [OF assms(1,2), of True] by blast
qed

theorem trustzone_peripherals_witness:
  "\<exists>calls. configureTrustZone demo_hw True = (calls, None) \<and>
    level_of calls 34 0 =
      Some (if (34 :: nat, 0 :: nat) \<in> {(2, 1), (6, 1), (13, 0), (16, 1), (34, 0)} then SEC_LEVEL_4 else SEC_LEVEL_0) \<and>
    access_of calls 4 = Some ((4 :: nat) = 14)"
  by (rule trustzone_peripherals) (simp_all add: demo_hw_def hw_succeeds_def)

lemma configureTrustZone_stops:
  assumes "imx6_Native hw" and "configureTrustZone hw lock = (calls, err)"
  shows "\<exists>rest. trustzone_calls hw lock = calls @ rest \<and>
    (case err of
       None \<Rightarrow> rest = [] \<and> list_all (\<lambda>c. hw_result hw c = None) (drop 2 calls)
     | Some e \<Rightarrow> hw_result hw (last calls) = Some e \<and>
                  list_all (\<lambda>c. hw_result hw c = None) (butlast (drop 2 calls)))"
proof -
  let ?all = "trustzone_calls hw lock"
  obtain cs where cs: "hw_seq hw (drop 2 ?all) = (cs, err)" and calls: "calls = take 2 ?all @ cs"
    using assms(2) unfolding configureTrustZone_seq [OF assms(1)] by (auto split: prod.split_asm)
  have "length (take 2 ?all) = 2" by (simp add: trustzone_calls_def)
  with calls have dr: "drop 2 calls = cs" by simp
  from hw_seq_stops [OF cs] obtain rest where rest: "drop 2 ?all = cs @ rest"
    and res: "case err of
        None \<Rightarrow> rest = [] \<and> list_all (\<lambda>c. hw_result hw c = None) cs
      | Some e \<Rightarrow> cs \<noteq> [] \<and> hw_result hw (last cs) = Some e \<and>
                   list_all (\<lambda>c. hw_result hw c = None) (butlast cs)"
    by blast
  from rest have "?all = calls @ rest"
    by (metis append.assoc append_take_drop_id calls)
  moreover have "cs \<noteq> [] \<Longrightarrow> last calls = last cs"
    by (simp add: calls)
  ultimately show ?thesis
    using res unfolding dr by (intro exI [of _ rest] conjI) (assumption, cases err, auto)
qed

text \<open>
  The configuration stops at the first failing call and reports it: the calls made are a prefix of the
  full sequence, all of them succeeded but the last, whose error is returned; without an error the
  sequence is complete.
\<close>

lemma trustzone_stops_at_failure:
  assumes "imx6_Native hw" and "configureTrustZone hw lock = (calls, err)"
  shows "\<exists>rest. trustzone_calls hw lock = calls @ rest \<and>
    (case err of
       None \<Rightarrow> rest = [] \<and> list_all (\<lambda>c. hw_result hw c = None) (drop 2 calls)
     | Some e \<Rightarrow> hw_result hw (last calls) = Some e \<and>
                  list_all (\<lambda>c. hw_result hw c = None) (butlast (drop 2 calls)))"
  using assms by (rule configureTrustZone_stops)

definition demo_hw_failing :: hwlib where
  "demo_hw_failing = demo_hw\<lparr>hw_result := (\<lambda>c. if is_region c then Some io_EOF else None)\<rparr>"

lemma trustzone_stops_at_failure_witness:
  "\<exists>rest. trustzone_calls demo_hw_failing True = fst (configureTrustZone demo_hw_failing True) @ rest \<and>
    (case snd (configureTrustZone demo_hw_failing True) of
       None \<Rightarrow> rest = [] \<and>
         list_all (\<lambda>c. hw_result demo_hw_failing c = None) (drop 2 (fst (configureTrustZone demo_hw_failing True)))
     | Some e \<Rightarrow> hw_result demo_hw_failing (last (fst (configureTrustZone demo_hw_failing True))) = Some e \<and>
         list_all (\<lambda>c. hw_result demo_hw_failing c = None)
           (butlast (drop 2 (fst (configureTrustZone demo_hw_failing True)))))"
  by (rule trustzone_stops_at_failure [OF _ prod.collapse [symmetric]])
     (simp add: demo_hw_failing_def demo_hw_def)

end
