(* ===== verification/Tz_Types.thy ===== *)
theory Tz_Types
  imports Go_Runtime
begin

text \<open>
  The messages between the nonsecure world, the trusted OS and the applets
  (\<open>src/tee/trusted_os/tz/types/types.go\<close>).
\<close>

text \<open>\<open>uint\<close> has 32 bits on the target.\<close>

type_synonym app_id = uint32

record Mail =
  AppID :: app_id
  Payload :: bytes

definition Mail_zero :: Mail where
  "Mail_zero = \<lparr>AppID = 0, Payload = []\<rparr>"

definition CopyFrom :: "Mail \<Rightarrow> Mail \<Rightarrow> Mail" where
  "CopyFrom m x = m\<lparr>AppID := AppID x, Payload := Payload x\<rparr>"

end
