(* ===== verification/Json_Roundtrip.thy ===== *)
theory Json_Roundtrip
  imports Json_Codec
begin

text \<open>
  \<open>json.Unmarshal\<close> inverts \<open>json.Marshal\<close>: on any well-typed value whose strings are valid UTF-8 the text
  is accepted and gives the value back, whatever the target held before.
\<close>

section \<open>Numbers\<close>

lemma of_char_digit: "d < 10 \<Longrightarrow> (of_char (char_of (48 + d) :: char) :: byte) = of_nat (48 + d)"
proof -
  assume "d < 10"
  then have "(of_char (char_of (48 + d) :: char) :: nat) = 48 + d" by simp
  then show ?thesis by (metis of_nat_of_char)
qed

lemma ascii_decimal:
  "ascii (decimal n) =
     (if n < 10 then [of_nat (48 + n)] else ascii (decimal (n div 10)) @ [of_nat (48 + n mod 10)])"
proof -
  have "n mod 10 < 10" by simp
  from of_char_digit [OF this] show ?thesis
    using of_char_digit [of n] by (simp add: decimal.simps [of n] ascii_def)
qed

lemma digit_all: "list_all (\<lambda>d. is_digit (of_nat (48 + d)) \<and> unat (of_nat (48 + d) :: byte) - 48 = d) [0..<10]"
  by code_simp

lemma digit_byte: "d < 10 \<Longrightarrow> is_digit (of_nat (48 + d))" "d < 10 \<Longrightarrow> unat (of_nat (48 + d) :: byte) - 48 = d"
  using digit_all unfolding list_all_iff by simp_all

lemma digit19_all: "list_all (\<lambda>d. is_digit19 (of_nat (48 + d))) [1..<10]"
  by code_simp

lemma digit19_byte: "0 < d \<Longrightarrow> d < 10 \<Longrightarrow> is_digit19 (of_nat (48 + d))"
  using digit19_all unfolding list_all_iff by simp

lemma decimal_digits: "list_all is_digit (ascii (decimal n)) \<and> digits_value (ascii (decimal n)) = n \<and> ascii (decimal n) \<noteq> []"
proof (induction n rule: less_induct)
  case (less n)
  show ?case
  proof (cases "n < 10")
    case True
    with digit_byte [of n] show ?thesis by (subst (1 2 3) ascii_decimal) (simp add: digits_value_def)
  next
    case False
    then have "n div 10 < n" by simp
    from less [OF this] False digit_byte [of "n mod 10"] show ?thesis
      by (subst (1 2 3) ascii_decimal) (simp add: digits_value_def del: of_nat_add)
  qed
qed

lemma decimal_nat_lit: "nat_lit (ascii (decimal n))"
proof (cases "n = 0")
  case True
  then show ?thesis by (simp add: ascii_decimal nat_lit_def)
next
  case False
  then show ?thesis
  proof (induction n rule: less_induct)
    case (less n)
    show ?case
    proof (cases "n < 10")
      case True
      with less.prems digit19_byte [of n] show ?thesis by (subst ascii_decimal) (simp add: nat_lit_def)
    next
      case False
      then have q: "n div 10 < n" "n div 10 \<noteq> 0" by auto
      from less.IH [OF q] have "nat_lit (ascii (decimal (n div 10)))" .
      moreover have "ascii (decimal (n div 10)) \<noteq> [0x30]"
      proof
        assume "ascii (decimal (n div 10)) = [0x30]"
        then have "digits_value (ascii (decimal (n div 10))) = 0" by (simp add: digits_value_def)
        with decimal_digits [of "n div 10"] q(2) show False by simp
      qed
      ultimately obtain d ds where d: "ascii (decimal (n div 10)) = d # ds" "is_digit19 d" "list_all is_digit ds"
        by (auto simp: nat_lit_def)
      then have "ascii (decimal n) = d # (ds @ [of_nat (48 + n mod 10)])"
        using False by (simp add: ascii_decimal [of n] del: of_nat_add)
      with d digit_byte(1) [of "n mod 10"] show ?thesis
        unfolding nat_lit_def by auto
    qed
  qed
qed

lemma ParseUint_decimal: "n < 2 ^ 64 \<Longrightarrow> ParseUint (ascii (decimal n)) = Some n"
  using decimal_digits [of n] by (simp add: ParseUint_def)

section \<open>Literals of the encoder\<close>

lemma symbol_safe_all: "list_all (\<lambda>n. b64_symbol n < 0x80 \<and> htmlSafe (b64_symbol n)) [0..<64]"
  by code_simp

lemma symbol_safe: "n < 64 \<Longrightarrow> b64_symbol n < 0x80 \<and> htmlSafe (b64_symbol n)"
  using symbol_safe_all unfolding list_all_iff by simp

lemma base64_plain: "list_all (\<lambda>c. c < 0x80 \<and> htmlSafe c) (base64_encode bs)"
proof -
  have pad: "padChar < 0x80" "htmlSafe padChar" by (simp_all add: padChar_def htmlSafe_def)
  show ?thesis
    by (induction bs rule: base64_encode.induct) (simp_all add: Let_def symbol_safe sextet_bounds pad)
qed

lemma base64_literal: "0x22 # base64_encode bs @ [0x22] = quote_string (base64_encode bs)"
  by (simp add: quote_string_def quote_plain [OF base64_plain])

lemma base64_unquote: "unquoteBytes (0x22 # base64_encode bs @ [0x22]) = Some (base64_encode bs)"
proof -
  have "list_all (\<lambda>c. c < 0x80) (base64_encode bs)"
    using base64_plain [of bs] by (simp add: list_all_iff)
  then show ?thesis
    using unquote_quote_string [OF valid_utf8_ascii] base64_literal by metis
qed

lemma marshal_printed:
  "json_printed (marshal_value t v)"
  "\<forall>j \<in> set (marshal_elems e xs). json_printed j"
  "\<forall>(k, j) \<in> set (marshal_fields fs vs). string_lit k \<and> json_printed j"
  by (induction t v and e xs and fs vs rule: marshal_value_marshal_elems_marshal_fields.induct)
     (auto simp: printed_lit_def decimal_nat_lit quote_string_lit base64_literal)

section \<open>The round trip\<close>

fun texts_ok :: "go_val \<Rightarrow> bool" where
  "texts_ok (StringV s) = valid_utf8 s"
| "texts_ok (SliceV xs sp) = (\<forall>x \<in> set xs. texts_ok x)"
| "texts_ok (StructV vs) = (\<forall>v \<in> set vs. texts_ok v)"
| "texts_ok _ = True"

fun type_ok :: "go_type \<Rightarrow> bool" where
  "type_ok (UintT w) = (w \<le> 64)"
| "type_ok StringT = True"
| "type_ok (SliceT e) = type_ok e"
| "type_ok (StructT fs) =
     (distinct (map (\<lambda>f. ascii (fst f)) fs) \<and> (\<forall>(n, t) \<in> set fs. valid_utf8 (ascii n) \<and> type_ok t))"

fun type_depth :: "go_type \<Rightarrow> nat" where
  "type_depth (SliceT e) = Suc (type_depth e)"
| "type_depth (StructT fs) = Suc (sum_list (map (\<lambda>(n, t). type_depth t) fs))"
| "type_depth _ = 0"

text \<open>What a program can see of a value without re-slicing.\<close>

fun visible :: "go_val \<Rightarrow> go_val" where
  "visible (SliceV xs sp) = SliceV (map visible xs) []"
| "visible (StructV vs) = StructV (map visible vs)"
| "visible v = v"

lemma marshal_depth:
  "json_depth (marshal_value t v) \<le> type_depth t"
  "\<forall>j \<in> set (marshal_elems e xs). json_depth j \<le> type_depth e"
  "\<forall>(k, j) \<in> set (marshal_fields fs vs). json_depth j \<le> sum_list (map (\<lambda>(n, t). type_depth t) fs)"
  by (induction t v and e xs and fs vs rule: marshal_value_marshal_elems_marshal_fields.induct)
     (auto simp: case_prod_unfold intro: trans_le_add2 le_SucI)

lemma byte_vals_bytes: "all_typed (UintT 8) xs \<Longrightarrow> byte_vals (vals_bytes xs) = xs"
proof (induction xs)
  case Nil
  then show ?case by (simp add: byte_vals_def vals_bytes_def)
next
  case (Cons x xs)
  then obtain n where n: "x = UintV n" "n < 256" by (cases x) auto
  then have "unat (of_nat n :: byte) = n" by (simp add: unat_of_nat)
  with Cons n show ?case by (simp add: byte_vals_def vals_bytes_def)
qed

lemma visible_bytes: "all_typed (UintT 8) xs \<Longrightarrow> map visible xs = xs"
proof (induction xs)
  case (Cons x xs)
  then show ?case by (cases x) auto
qed simp

lemma find_index_first:
  "P x \<Longrightarrow> \<forall>y \<in> set xs. \<not> P y \<Longrightarrow> find_index P (xs @ x # ys) = Some (length xs)"
  by (induction xs) auto

lemma find_field_exact:
  assumes "distinct (map (\<lambda>f. ascii (fst f)) (fs1 @ (n, t) # fs))"
  shows "find_field (fs1 @ (n, t) # fs) (ascii n) = Some (length fs1)"
proof -
  have "find_index (\<lambda>f. ascii (fst f) = ascii n) (fs1 @ (n, t) # fs) = Some (length fs1)"
  proof (intro find_index_first ballI)
    fix f
    assume "f \<in> set fs1"
    then have "ascii (fst f) \<in> set (map (\<lambda>f. ascii (fst f)) fs1)" by simp
    with assms show "ascii (fst f) \<noteq> ascii n" by fastforce
  qed simp
  then show ?thesis by (simp add: find_field_def)
qed

lemma literalStore_number:
  assumes "n < 2 ^ w" "w \<le> 64"
  shows "literalStore (ascii (decimal n)) (UintT w) z None = Ret (UintV n, None)"
proof -
  have "n < 2 ^ 64" using assms by (meson le_less_trans less_imp_le one_le_numeral order.strict_trans2 power_increasing)
  from decimal_digits [of n] obtain c cs where c: "ascii (decimal n) = c # cs" "is_digit c"
    by (cases "ascii (decimal n)") auto
  then have "c \<notin> {0x6e, 0x74, 0x66, 0x22}" by (auto simp: is_digit_def)
  with c ParseUint_decimal [OF \<open>n < 2 ^ 64\<close>] assms(1) show ?thesis
    by (simp add: literalStore_def)
qed

lemma literalStore_string:
  "valid_utf8 s \<Longrightarrow> literalStore (quote_string s) StringT z None = Ret (StringV s, None)"
  using unquote_quote_string [of s] by (simp add: literalStore_def quote_string_def)

lemma literalStore_bytes:
  "\<exists>sp. literalStore (0x22 # base64_encode bs @ [0x22]) (SliceT (UintT 8)) z None = Ret (SliceV (byte_vals bs) sp, None)"
  using base64_unquote [of bs] by (simp add: literalStore_def base64_decode_encode)

lemma literalStore_null: "literalStore null_lit (SliceT e) z None = Ret (NilV, None)"
  by (simp add: literalStore_def null_lit_def)

lemma decode_marshal:
  "has_type t v \<Longrightarrow> type_ok t \<Longrightarrow> texts_ok v \<Longrightarrow> has_type t z \<Longrightarrow>
     \<exists>u. decode_value (marshal_value t v) t z None = Ret (u, None) \<and> visible u = visible v"
  "all_typed e xs \<Longrightarrow> type_ok e \<Longrightarrow> \<forall>x \<in> set xs. texts_ok x \<Longrightarrow> all_typed e pool \<Longrightarrow>
     \<exists>ys sp. decode_elems (marshal_elems e xs) e pre pool None = Ret (SliceV (pre @ ys) sp, None) \<and>
       map visible ys = map visible xs"
  "fields_typed fs vs \<Longrightarrow> type_ok (StructT (fs1 @ fs)) \<Longrightarrow> \<forall>v \<in> set vs. texts_ok v \<Longrightarrow> fields_typed fs zs \<Longrightarrow>
     length us1 = length fs1 \<Longrightarrow>
     \<exists>us. decode_members (marshal_fields fs vs) (fs1 @ fs) (us1 @ zs) None = Ret (StructV (us1 @ us), None) \<and>
       map visible us = map visible vs"
proof (induction t v and e xs and fs vs arbitrary: z and pre pool and fs1 us1 zs
    rule: marshal_value_marshal_elems_marshal_fields.induct)
  case (1 w n)
  then show ?case by (simp add: literalStore_number)
next
  case (2 s)
  then show ?case by (simp add: literalStore_string)
next
  case (3 e)
  then show ?case by (simp add: literalStore_null)
next
  case (4 e xs sp)
  show ?case
  proof (cases "e = UintT 8")
    case True
    with 4 literalStore_bytes [of "vals_bytes xs" z] show ?thesis
      by (auto simp: byte_vals_bytes visible_bytes)
  next
    case False
    with 4(1) [OF False, of "slice_pool z" "[]"] 4(2-) slice_pool_typed [of e z] show ?thesis by auto
  qed
next
  case (5 fs vs)
  with 5(1) [of "[]" "struct_vals z" "[]"] struct_vals_typed [of fs z] show ?case by auto
next
  case (8 e x xs)
  obtain h p where g: "grow e (length pre) pool = h # p" using grow_Cons by blast
  with all_typed_grow [OF 8(6), of "length pre"] have hp: "has_type e h" "all_typed e p" by auto
  from 8(1) [of h] 8(3-) hp(1) obtain u where u: "decode_value (marshal_value e x) e h None = Ret (u, None)"
    "visible u = visible x" by auto
  from 8(2) [of p "pre @ [u]"] 8(3-) hp(2) obtain ys sp where
    ys: "decode_elems (marshal_elems e xs) e (pre @ [u]) p None = Ret (SliceV (pre @ u # ys) sp, None)"
      "map visible ys = map visible xs" by auto
  with g u show ?case by (auto simp: Let_def intro!: exI [of _ "u # ys"])
next
  case (9 n t fs v vs)
  then obtain z1 zs1 where zs: "zs = z1 # zs1" "has_type t z1" "fields_typed fs zs1" by (cases zs) auto
  from 9(4) have ok: "type_ok t" "valid_utf8 (ascii n)" and
    dist: "distinct (map (\<lambda>f. ascii (fst f)) (fs1 @ (n, t) # fs))" by auto
  from 9(1) [of z1] 9(3-) ok zs(2) obtain u where u: "decode_value (marshal_value t v) t z1 None = Ret (u, None)"
    "visible u = visible v" by auto
  from 9(2) [of "fs1 @ [(n, t)]" zs1 "us1 @ [u]"] 9(3-) zs(3) obtain us where
    us: "decode_members (marshal_fields fs vs) (fs1 @ (n, t) # fs) (us1 @ u # zs1) None = Ret (StructV (us1 @ u # us), None)"
      "map visible us = map visible vs" by auto
  have "(us1 @ z1 # zs1)[length fs1 := u] = us1 @ u # zs1" using 9(7) by (metis list_update_length)
  moreover have "(us1 @ z1 # zs1) ! length fs1 = z1" "(fs1 @ (n, t) # fs) ! length fs1 = (n, t)"
    using 9(7) by (metis nth_append_length)+
  ultimately show ?case
    using u us zs(1) find_field_exact [OF dist] unquote_quote_string [OF ok(2)]
    by (auto intro!: exI [of _ "u # us"])
qed (auto simp: fields_typed_iff)

text \<open>Unmarshalling what was marshalled gives the value back, whatever the target held.\<close>

lemma json_roundtrip:
  assumes "has_type t v" "type_ok t" "texts_ok v" "type_depth t \<le> maxNestingDepth" "has_type t z"
  shows "\<exists>u. json_Unmarshal t z (json_Marshal t v) = Ret (u, None) \<and> visible u = visible v \<and> has_type t u"
proof -
  have p: "json_printed (marshal_value t v)" "json_depth (marshal_value t v) \<le> maxNestingDepth"
    using marshal_printed(1) marshal_depth(1) [of t v] assms(4) by auto
  from decode_marshal(1) [OF assms(1-3,5)] obtain u where
    "decode_value (marshal_value t v) t z None = Ret (u, None)" "visible u = visible v" by blast
  with json_parse_text [OF p] json_valid_text [OF p] decode_typed(1) [OF assms(5)] show ?thesis
    by (auto simp: json_Unmarshal_def json_Marshal_def)
qed

lemma json_Marshal_valid: "type_depth t \<le> maxNestingDepth \<Longrightarrow> json_valid (json_Marshal t v)"
  using marshal_printed(1) marshal_depth(1) [of t v] by (auto simp: json_Marshal_def intro: json_valid_text)

end
