(* ===== verification/Json_Values.thy ===== *)
theory Json_Values
  imports Json_Roundtrip
begin

text \<open>
  Between the structs of the model and the values of the JSON codec: writers for words, byte slices and
  lists of strings, readers for the fields of a decoded struct, and what they keep of a value.
\<close>

section \<open>Writers and readers\<close>

text \<open>\<open>uint\<close> has 32 bits on the target.\<close>

definition uintT :: go_type where "uintT = UintT 32"

definition bytes_val :: "bytes \<Rightarrow> go_val" where "bytes_val b = SliceV (byte_vals b) []"
definition word_val :: "'a :: len word \<Rightarrow> go_val" where "word_val n = UintV (unat n)"
definition strings_val :: "string list \<Rightarrow> go_val" where "strings_val ws = SliceV (map (\<lambda>s. StringV (ascii s)) ws) []"

definition val_word :: "go_val \<Rightarrow> 'a :: len word" where
  "val_word v = (case v of UintV n \<Rightarrow> of_nat n | _ \<Rightarrow> 0)"

definition val_string :: "go_val \<Rightarrow> bytes" where
  "val_string v = (case v of StringV s \<Rightarrow> s | _ \<Rightarrow> [])"

definition val_elems :: "go_val \<Rightarrow> go_val list" where
  "val_elems v = (case v of SliceV xs sp \<Rightarrow> xs | _ \<Rightarrow> [])"

definition val_bytes :: "go_val \<Rightarrow> bytes" where
  "val_bytes v = vals_bytes (val_elems v)"

definition field :: "go_val \<Rightarrow> nat \<Rightarrow> go_val" where
  "field v i = (if i < length (struct_vals v) then struct_vals v ! i else NilV)"

text \<open>A Go string as a list of characters: the byte codes.\<close>

definition chars :: "bytes \<Rightarrow> string" where
  "chars b = map (\<lambda>c. char_of (unat c)) b"

section \<open>Lemmas\<close>

lemma Unmarshal_Marshal:
  "type_depth s \<le> maxNestingDepth \<Longrightarrow>
   json_Unmarshal t z (json_Marshal s v) = decode_value (marshal_value s v) t z None"
  using marshal_printed(1) [of s v] marshal_depth(1) [of s v] json_parse_text [of "marshal_value s v"]
    json_Marshal_valid [of s v]
  by (simp add: json_Unmarshal_def json_Marshal_def)

lemma decode_member:
  "valid_utf8 (ascii n) \<Longrightarrow>
   decode_members ((quote_string (ascii n), x) # kvs) fs vs saved =
     (case find_field fs (ascii n) of
        None \<Rightarrow> decode_members kvs fs vs saved
      | Some i \<Rightarrow>
          go_bind (decode_value x (snd (fs ! i)) (vs ! i) saved) (\<lambda>(v, saved').
            decode_members kvs fs (vs[i := v]) saved'))"
  by (simp add: unquote_quote_string split: option.split)

lemma uint32_bound: "unat (x :: uint32) < 4294967296"
  using unsigned_less [of x] by simp

lemma uint64_bound: "unat (x :: uint64) < 18446744073709551616"
  using unsigned_less [of x] by simp

lemma decode_uint32: "decode_value (marshal_value (UintT 32) (word_val (x :: uint32))) (UintT 32) z None = Ret (word_val x, None)"
  using literalStore_number [of "unat x" 32 z] uint32_bound [of x] by (simp add: word_val_def)

lemma decode_uint64: "decode_value (marshal_value (UintT 64) (word_val (x :: uint64))) (UintT 64) z None = Ret (word_val x, None)"
  using literalStore_number [of "unat x" 64 z] uint64_bound [of x] by (simp add: word_val_def)

lemma val_word_val [simp]: "val_word (word_val x) = x"
  by (simp add: val_word_def word_val_def)

lemma visible_uints: "map visible us = map (\<lambda>n. UintV (f n)) ns \<Longrightarrow> us = map (\<lambda>n. UintV (f n)) ns"
proof (induction us arbitrary: ns)
  case (Cons u us)
  then show ?case by (cases u; cases ns) auto
qed simp

lemma field_simps_struct: "field (StructV vs) i = (if i < length vs then vs ! i else NilV)"
  by (simp add: field_def struct_vals_def)

lemma struct_vals_visible: "struct_vals (visible v) = map visible (struct_vals v)"
  by (cases v) (simp_all add: struct_vals_def)

lemma field_visible: "field (visible v) i = visible (field v i)"
  by (simp add: field_def struct_vals_visible)

lemma readers_visible:
  "val_word (visible v) = val_word v" "val_string (visible v) = val_string v"
  "val_elems (visible v) = map visible (val_elems v)"
  by (cases v; simp add: val_word_def val_string_def val_elems_def)+

lemma vals_bytes_visible: "vals_bytes (map visible vs) = vals_bytes vs"
  unfolding vals_bytes_def
proof (induction vs)
  case (Cons v vs)
  then show ?case by (cases v) simp_all
qed simp

lemma vals_byte_vals: "vals_bytes (byte_vals b) = b"
  by (induction b) (simp_all add: vals_bytes_def byte_vals_def)

lemma char_of_byte: "char_of (unat (of_char c :: byte)) = (c :: char)"
proof -
  have "(of_char c :: nat) < 256" by simp
  then have "unat (of_nat (of_char c) :: byte) = of_char c" by (simp add: unat_of_nat)
  then show ?thesis by (metis of_nat_of_char char_of_char)
qed

lemma chars_ascii: "chars (ascii s) = s"
  by (simp add: chars_def ascii_def comp_def char_of_byte)

end
