(* ===== verification/Tz_Client.thy ===== *)
theory Tz_Client
  imports Tz_Types Json_Values
begin

text \<open>
  The client package (\<open>src/tee/trusted_os/tz/client/client.go\<close>): the stubs through which the applets and
  the nonsecure world call the trusted OS, and the report of a panic in an applet.  The two call functions
  (the monitor's \<open>syscall.Call\<close> and \<open>nonsecuresyscall.Call\<close>) are arguments.
\<close>

section \<open>Remote calls\<close>

text \<open>The arguments the stubs pass, and the destinations of a reply.\<close>

datatype rpc_arg = AppIDArg app_id | MailArg Mail

datatype rpc_dest = NilDest | MailDest Mail

type_synonym 's rpcCallFunc =
  "string \<Rightarrow> rpc_arg \<Rightarrow> rpc_dest \<Rightarrow> 's \<Rightarrow> ((go_error option \<times> rpc_dest) \<times> 's) go"

text \<open>An unexpected end of the reply is not an error: the destination stays as the call left it.\<close>

definition callRPC :: "'s rpcCallFunc \<Rightarrow> 's rpcCallFunc" where
  "callRPC callFunc funcName arg dest s =
     go_bind (callFunc funcName arg dest s) (\<lambda>((err, dest'), s').
       case err of
         Some e \<Rightarrow> if \<not> errors_Is e io_ErrUnexpectedEOF then Ret ((Some e, dest'), s') else Ret ((None, dest'), s')
       | None \<Rightarrow> Ret ((None, dest'), s'))"

definition dest_mail :: "rpc_dest \<Rightarrow> Mail" where
  "dest_mail d = (case d of MailDest m \<Rightarrow> m | NilDest \<Rightarrow> Mail_zero)"

text \<open>The compiled code makes the call before it copies \<open>mail\<close> into the result.\<close>

definition client_RetrieveMail :: "'s rpcCallFunc \<Rightarrow> app_id \<Rightarrow> 's \<Rightarrow> ((Mail \<times> go_error option) \<times> 's) go" where
  "client_RetrieveMail syscall_Call i s =
     go_bind (callRPC syscall_Call ''SecureRPC.RetrieveMail'' (AppIDArg i) (MailDest Mail_zero) s) (\<lambda>((err, d), s').
       Ret ((dest_mail d, err), s'))"

definition client_WriteResponse :: "'s rpcCallFunc \<Rightarrow> Mail \<Rightarrow> 's \<Rightarrow> (go_error option \<times> 's) go" where
  "client_WriteResponse syscall_Call mail s =
     go_bind (callRPC syscall_Call ''SecureRPC.WriteResponse'' (MailArg mail) NilDest s) (\<lambda>((err, d), s').
       Ret (err, s'))"

definition client_SendMail :: "'s rpcCallFunc \<Rightarrow> Mail \<Rightarrow> 's \<Rightarrow> (go_error option \<times> 's) go" where
  "client_SendMail nonsecure_Call mail s =
     go_bind (callRPC nonsecure_Call ''NonsecureRPC.SendMail'' (MailArg mail) NilDest s) (\<lambda>((err, d), s').
       Ret (err, s'))"

definition client_RetrieveResult :: "'s rpcCallFunc \<Rightarrow> app_id \<Rightarrow> 's \<Rightarrow> ((Mail \<times> go_error option) \<times> 's) go" where
  "client_RetrieveResult nonsecure_Call i s =
     go_bind (callRPC nonsecure_Call ''NonsecureRPC.RetrieveResult'' (AppIDArg i) (MailDest Mail_zero) s)
       (\<lambda>((err, d), s'). Ret ((dest_mail d, err), s'))"

section \<open>Reporting a panic\<close>

record ClientPanic =
  Msg :: bytes
  Stacktrace :: bytes

definition ClientPanic_Error :: "ClientPanic \<Rightarrow> string" where
  "ClientPanic_Error cp = chars (Msg cp) @ [CHR 0x0a, CHR 0x0a] @ chars (Stacktrace cp)"

definition ClientPanic_error :: "ClientPanic \<Rightarrow> go_error" where
  "ClientPanic_error cp = Errorf (ClientPanic_Error cp) []"

definition ClientPanicT :: go_type where
  "ClientPanicT = StructT [(''Msg'', StringT), (''Stacktrace'', StringT)]"

definition ClientPanic_val :: "ClientPanic \<Rightarrow> go_val" where
  "ClientPanic_val cp = StructV [StringV (Msg cp), StringV (Stacktrace cp)]"

definition val_ClientPanic :: "go_val \<Rightarrow> ClientPanic" where
  "val_ClientPanic v = \<lparr>Msg = val_string (field v 0), Stacktrace = val_string (field v 1)\<rparr>"

text \<open>
  The buffer of the system call 666 that reports an error; \<open>trace\<close> is \<open>debug.Stack()\<close>.  Marshalling two
  strings cannot fail.
\<close>

definition ExitWithError :: "string \<Rightarrow> bytes \<Rightarrow> bytes" where
  "ExitWithError err trace = json_Marshal ClientPanicT (ClientPanic_val \<lparr>Msg = ascii err, Stacktrace = trace\<rparr>)"

text \<open>A report that is valid UTF-8 is read back as it was written.\<close>

lemma ClientPanic_field_names: "valid_utf8 (ascii ''Msg'')" "valid_utf8 (ascii ''Stacktrace'')"
  by code_simp+

lemma ExitWithError_read:
  assumes "valid_utf8 (ascii err)" "valid_utf8 trace"
  shows "\<exists>v. json_Unmarshal ClientPanicT (zero_value ClientPanicT) (ExitWithError err trace) = Ret (v, None) \<and>
    val_ClientPanic v = \<lparr>Msg = ascii err, Stacktrace = trace\<rparr>"
proof -
  let ?v = "ClientPanic_val \<lparr>Msg = ascii err, Stacktrace = trace\<rparr>"
  have "type_ok ClientPanicT"
    by (simp add: ClientPanicT_def ClientPanic_field_names) (simp add: ascii_def)
  moreover have "has_type ClientPanicT ?v" "texts_ok ?v" "type_depth ClientPanicT \<le> maxNestingDepth"
    using assms by (simp_all add: ClientPanicT_def ClientPanic_val_def maxNestingDepth_def)
  ultimately obtain u where u: "json_Unmarshal ClientPanicT (zero_value ClientPanicT) (json_Marshal ClientPanicT ?v) = Ret (u, None)"
    "visible u = visible ?v" using json_roundtrip zero_typed by blast
  have "val_ClientPanic (visible x) = val_ClientPanic x" for x
    by (simp add: val_ClientPanic_def field_visible readers_visible)
  with u(2) have "val_ClientPanic u = val_ClientPanic ?v" by metis
  with u(1) show ?thesis
    by (simp add: ExitWithError_def val_ClientPanic_def ClientPanic_val_def field_simps_struct val_string_def)
qed

text \<open>The stubs change nothing but the errors the code ignores.\<close>

lemma callRPC_ok: "callFunc m a d s = Ret ((None, d'), s') \<Longrightarrow> callRPC callFunc m a d s = Ret ((None, d'), s')"
  by (simp add: callRPC_def)

lemma callRPC_error:
  "callFunc m a d s = Ret ((Some e, d'), s') \<Longrightarrow> \<not> errors_Is e io_ErrUnexpectedEOF \<Longrightarrow>
   callRPC callFunc m a d s = Ret ((Some e, d'), s')"
  by (simp add: callRPC_def)

lemma callRPC_cut:
  "callFunc m a d s = Ret ((Some io_ErrUnexpectedEOF, d'), s') \<Longrightarrow> callRPC callFunc m a d s = Ret ((None, d'), s')"
  by (simp add: callRPC_def io_ErrUnexpectedEOF_def)

lemma callRPC_panic: "callFunc m a d s = Panic p \<Longrightarrow> callRPC callFunc m a d s = Panic p"
  by (simp add: callRPC_def)

end
