(* ===== verification/Tz.thy ===== *)
theory Tz
  imports Trust_Zone Tz_Client "HOL-Library.Sublist"
begin

text \<open>
  The trusted OS of \<open>src/tee/trusted_os/tz/\<close>: the mailbox and the result box through which the nonsecure
  world and the trusted applets exchange messages, the registration, loading and running of applets,
  and the system-call handlers.  The monitor, the ELF loader and the board are parameters.
\<close>

section \<open>Errors and the context\<close>

definition ErrAppNotFound :: go_error where "ErrAppNotFound = Errorf ''app not found'' []"
definition ErrNoMail :: go_error where "ErrNoMail = Errorf ''no mail'' []"
definition ErrNoResult :: go_error where "ErrNoResult = Errorf ''no result'' []"
definition ErrMailboxFull :: go_error where "ErrMailboxFull = Errorf ''mailbox full'' []"
definition ErrResultBoxFull :: go_error where "ErrResultBoxFull = Errorf ''result box full'' []"
definition ErrTAExit :: go_error where "ErrTAExit = Errorf ''ta exit'' []"
definition ErrNonsecureExit :: go_error where "ErrNonsecureExit = Errorf ''nonsecure exit'' []"

record ELFImage =
  img_Region :: Region
  img_ELF :: bytes

datatype rpc_receiver = NoReceiver | SecureReceiver | NonsecureReceiver

datatype syscall_handler = DefaultHandler | LogHandler | NonsecureWorldHandler

text \<open>The part of the monitor's execution context the trusted OS reads and writes.\<close>

record ExecCtx =
  ex_R0 :: uint32
  ex_R1 :: uint32
  ex_R2 :: uint32
  ex_R13 :: uint32
  ex_Memory :: Region
  ex_NonSecure :: bool
  ex_Debug :: bool
  ex_Server :: rpc_receiver
  ex_Handler :: syscall_handler

definition ExecCtx_zero :: ExecCtx where
  "ExecCtx_zero = \<lparr>ex_R0 = 0, ex_R1 = 0, ex_R2 = 0, ex_R13 = 0, ex_Memory = \<lparr>rg_Start = 0, rg_Size = 0\<rparr>,
     ex_NonSecure = False, ex_Debug = False, ex_Server = NoReceiver, ex_Handler = DefaultHandler\<rparr>"

text \<open>The two line buffers of \<open>log.go\<close> and what has been written to standard output.\<close>

record tz_log =
  secureOutput :: bytes
  nonSecureOutput :: bytes
  Stdout :: bytes

definition outputLimit :: nat where "outputLimit = 1024"
definition flushChr :: byte where "flushChr = 0x0a"

definition bufferedStdoutLog :: "byte \<Rightarrow> bool \<Rightarrow> tz_log \<Rightarrow> tz_log" where
  "bufferedStdoutLog ch ns l =
     (let buf = (if ns then nonSecureOutput l else secureOutput l) @ [ch];
          flush = (ch = flushChr \<or> length buf > outputLimit);
          buf' = (if flush then [] else buf);
          l1 = (if ns then l\<lparr>nonSecureOutput := buf'\<rparr> else l\<lparr>secureOutput := buf'\<rparr>)
      in if flush then l1\<lparr>Stdout := Stdout l1 @ buf\<rparr> else l1)"

text \<open>
  The context, with the package's log buffers.  Only byte slices are stored in the two concurrent maps
  and only app IDs are used as keys, so the type assertions of the code succeed.
\<close>

record Context =
  Apps :: "app_id \<rightharpoonup> ELFImage"
  NonsecureWorld :: ExecCtx
  mailbox :: "app_id \<rightharpoonup> bytes"
  resultBox :: "app_id \<rightharpoonup> bytes"
  pkg_log :: tz_log

definition NewContext :: Context where
  "NewContext = \<lparr>Apps = Map.empty, NonsecureWorld = ExecCtx_zero, mailbox = Map.empty, resultBox = Map.empty,
     pkg_log = \<lparr>secureOutput = [], nonSecureOutput = [], Stdout = []\<rparr>\<rparr>"

section \<open>Mailbox and result box\<close>

definition RetrieveMail :: "Context \<Rightarrow> app_id \<Rightarrow> (go_error + Mail) \<times> Context" where
  "RetrieveMail c i =
     (case mailbox c i of
        None \<Rightarrow> (Inl ErrNoMail, c)
      | Some mail \<Rightarrow> (Inr \<lparr>AppID = i, Payload = mail\<rparr>, c\<lparr>mailbox := (mailbox c)(i := None)\<rparr>))"

definition WriteResponse :: "Context \<Rightarrow> Mail \<Rightarrow> go_error option \<times> Context" where
  "WriteResponse c result =
     (let found = (resultBox c (AppID result) \<noteq> None);
          c1 = c\<lparr>resultBox := (resultBox c)(AppID result := None)\<rparr>
      in if found then (Some ErrResultBoxFull, c1)
         else (None, c1\<lparr>resultBox := (resultBox c1)(AppID result \<mapsto> Payload result)\<rparr>))"

definition ReadResponse :: "Context \<Rightarrow> app_id \<Rightarrow> (go_error + Mail) \<times> Context" where
  "ReadResponse c i =
     (case resultBox c i of
        None \<Rightarrow> (Inl ErrNoResult, c)
      | Some mail \<Rightarrow> (Inr \<lparr>AppID = i, Payload = mail\<rparr>, c\<lparr>resultBox := (resultBox c)(i := None)\<rparr>))"

definition SendMail :: "Context \<Rightarrow> Mail \<Rightarrow> go_error option \<times> Context" where
  "SendMail c mail =
     (if mailbox c (AppID mail) \<noteq> None
      then (Some (Wrap (''cannot deliver mail for app '' @ format_int (int (unat (AppID mail)))) ErrMailboxFull), c)
      else (None, c\<lparr>mailbox := (mailbox c)(AppID mail \<mapsto> Payload mail)\<rparr>))"

text \<open>The RPC receivers: the out parameter is returned with the error.\<close>

definition SecureRPC_RetrieveMail :: "Context \<Rightarrow> app_id \<Rightarrow> Mail \<Rightarrow> (go_error option \<times> Mail) \<times> Context" where
  "SecureRPC_RetrieveMail c i out =
     (case RetrieveMail c i of
        (Inl err, c') \<Rightarrow> ((Some err, out), c')
      | (Inr mail, c') \<Rightarrow> ((None, CopyFrom out mail), c'))"

definition SecureRPC_WriteResponse :: "Context \<Rightarrow> Mail \<Rightarrow> go_error option \<times> Context" where
  "SecureRPC_WriteResponse c response =
     (case WriteResponse c response of
        (Some err, c') \<Rightarrow> (Some err, c')
      | (None, c') \<Rightarrow> (None, c'))"

definition NonsecureRPC_SendMail :: "Context \<Rightarrow> Mail \<Rightarrow> go_error option \<times> Context" where
  "NonsecureRPC_SendMail c mail = SendMail c mail"

definition NonsecureRPC_RetrieveResult :: "Context \<Rightarrow> app_id \<Rightarrow> Mail \<Rightarrow> (go_error option \<times> Mail) \<times> Context" where
  "NonsecureRPC_RetrieveResult c i out =
     (case ReadResponse c i of
        (Inl err, c') \<Rightarrow> ((Some err, out), c')
      | (Inr mail, c') \<Rightarrow> ((None, CopyFrom out mail), c'))"

section \<open>One-place slots\<close>

text \<open>
  Both boxes are used as one place per application: \<open>put\<close> fills an empty place and refuses a full one,
  \<open>get\<close> empties a place.  What happens to the content when \<open>put\<close> refuses is left open here.
\<close>

locale mail_slot =
  fixes put :: "'s \<Rightarrow> app_id \<Rightarrow> bytes \<Rightarrow> go_error option \<times> 's"
    and get :: "'s \<Rightarrow> app_id \<Rightarrow> (go_error + bytes) \<times> 's"
    and slot :: "'s \<Rightarrow> app_id \<Rightarrow> bytes option"
  assumes put_empty: "slot s k = None \<Longrightarrow> fst (put s k v) = None \<and> slot (snd (put s k v)) = (slot s)(k \<mapsto> v)"
    and put_full: "slot s k = Some u \<Longrightarrow>
      fst (put s k v) \<noteq> None \<and> (\<exists>x \<in> {None, Some u}. slot (snd (put s k v)) = (slot s)(k := x))"
    and get_full: "slot s k = Some v \<Longrightarrow> fst (get s k) = Inr v \<and> slot (snd (get s k)) = (slot s)(k := None)"
    and get_empty: "slot s k = None \<Longrightarrow> \<exists>e. get s k = (Inl e, s)"

text \<open>A place whose content survives a refused \<open>put\<close>.\<close>

locale durable_slot = mail_slot put get slot
  for put :: "'s \<Rightarrow> app_id \<Rightarrow> bytes \<Rightarrow> go_error option \<times> 's"
    and get :: "'s \<Rightarrow> app_id \<Rightarrow> (go_error + bytes) \<times> 's"
    and slot :: "'s \<Rightarrow> app_id \<Rightarrow> bytes option" +
  assumes put_full_keeps: "slot s k = Some u \<Longrightarrow> slot (snd (put s k v)) = slot s"

text \<open>Any sequence of operations: what was accepted, what was handed out, and the final state.\<close>

datatype slot_op = Put app_id bytes | Get app_id

fun slot_run ::
  "('s \<Rightarrow> app_id \<Rightarrow> bytes \<Rightarrow> go_error option \<times> 's) \<Rightarrow> ('s \<Rightarrow> app_id \<Rightarrow> (go_error + bytes) \<times> 's) \<Rightarrow>
   's \<Rightarrow> slot_op list \<Rightarrow> (app_id \<times> bytes) list \<times> (app_id \<times> bytes) list \<times> 's" where
  "slot_run put get s [] = ([], [], s)"
| "slot_run put get s (Put k v # ops) =
     (let (err, s1) = put s k v; (acc, got, s2) = slot_run put get s1 ops
      in ((if err = None then (k, v) # acc else acc), got, s2))"
| "slot_run put get s (Get k # ops) =
     (let (r, s1) = get s k; (acc, got, s2) = slot_run put get s1 ops
      in (acc, (case r of Inl _ \<Rightarrow> got | Inr v \<Rightarrow> (k, v) # got), s2))"

definition for_app :: "app_id \<Rightarrow> (app_id \<times> bytes) list \<Rightarrow> bytes list" where
  "for_app k xs = map snd (filter (\<lambda>x. fst x = k) xs)"

definition held :: "bytes option \<Rightarrow> bytes list" where
  "held x = (case x of None \<Rightarrow> [] | Some v \<Rightarrow> [v])"

lemma for_app_simps [simp]:
  "for_app k [] = []" "for_app k ((k', v) # xs) = (if k' = k then v # for_app k xs else for_app k xs)"
  by (simp_all add: for_app_def)

lemma held_simps [simp]: "held None = []" "held (Some v) = [v]"
  by (simp_all add: held_def)

context mail_slot
begin

text \<open>Nothing is handed out that was not accepted, in the order of acceptance and at most once.\<close>

lemma at_most_once:
  "slot_run put get s ops = (acc, got, s') \<Longrightarrow>
   subseq (for_app k got @ held (slot s' k)) (held (slot s k) @ for_app k acc)"
proof (induction ops arbitrary: s acc got)
  case Nil
  then show ?case by simp
next
  case (Cons opn ops)
  show ?case
  proof (cases opn)
    case (Put j v)
    with Cons.prems obtain acc1 where run: "slot_run put get (snd (put s j v)) ops = (acc1, got, s')"
      and acc: "acc = (if fst (put s j v) = None then (j, v) # acc1 else acc1)"
      by (auto simp: Let_def split: prod.split_asm)
    note IH = Cons.IH [OF run]
    show ?thesis
    proof (cases "slot s j")
      case None
      with put_empty [OF None, of v] IH acc show ?thesis by (auto split: if_split_asm)
    next
      case (Some u)
      with put_full [OF Some, of v] IH acc show ?thesis
        by (auto split: if_split_asm intro: subseq_order.trans)
    qed
  next
    case (Get j)
    with Cons.prems obtain got1 where run: "slot_run put get (snd (get s j)) ops = (acc, got1, s')"
      and got: "got = (case fst (get s j) of Inl _ \<Rightarrow> got1 | Inr v \<Rightarrow> (j, v) # got1)"
      by (auto simp: Let_def split: prod.split_asm)
    note IH = Cons.IH [OF run]
    show ?thesis
    proof (cases "slot s j")
      case None
      with get_empty [OF None] IH got show ?thesis by auto
    next
      case (Some u)
      with get_full [OF Some] IH got show ?thesis by (auto split: if_split_asm)
    qed
  qed
qed

end

context durable_slot
begin

text \<open>Everything accepted is handed out or still there.\<close>

lemma no_loss:
  "slot_run put get s ops = (acc, got, s') \<Longrightarrow>
   held (slot s k) @ for_app k acc = for_app k got @ held (slot s' k)"
proof (induction ops arbitrary: s acc got)
  case Nil
  then show ?case by simp
next
  case (Cons opn ops)
  show ?case
  proof (cases opn)
    case (Put j v)
    with Cons.prems obtain acc1 where run: "slot_run put get (snd (put s j v)) ops = (acc1, got, s')"
      and acc: "acc = (if fst (put s j v) = None then (j, v) # acc1 else acc1)"
      by (auto simp: Let_def split: prod.split_asm)
    note IH = Cons.IH [OF run]
    show ?thesis
    proof (cases "slot s j")
      case None
      with put_empty [OF None, of v] IH acc show ?thesis by (auto split: if_split_asm)
    next
      case (Some u)
      with put_full [OF Some, of v] put_full_keeps [OF Some, of v] IH acc show ?thesis by auto
    qed
  next
    case (Get j)
    with Cons.prems obtain got1 where run: "slot_run put get (snd (get s j)) ops = (acc, got1, s')"
      and got: "got = (case fst (get s j) of Inl _ \<Rightarrow> got1 | Inr v \<Rightarrow> (j, v) # got1)"
      by (auto simp: Let_def split: prod.split_asm)
    note IH = Cons.IH [OF run]
    show ?thesis
    proof (cases "slot s j")
      case None
      with get_empty [OF None] IH got show ?thesis by auto
    next
      case (Some u)
      with get_full [OF Some] IH got show ?thesis by (auto split: if_split_asm)
    qed
  qed
qed

end

text \<open>The mailbox, written by the nonsecure world and emptied by the applets.\<close>

definition mailbox_put :: "Context \<Rightarrow> app_id \<Rightarrow> bytes \<Rightarrow> go_error option \<times> Context" where
  "mailbox_put c k v = NonsecureRPC_SendMail c \<lparr>AppID = k, Payload = v\<rparr>"

definition mailbox_get :: "Context \<Rightarrow> app_id \<Rightarrow> (go_error + bytes) \<times> Context" where
  "mailbox_get c k =
     (case SecureRPC_RetrieveMail c k Mail_zero of
        ((Some e, _), c') \<Rightarrow> (Inl e, c')
      | ((None, m), c') \<Rightarrow> (Inr (Payload m), c'))"

text \<open>The result box, written by the applets and emptied by the nonsecure world.\<close>

definition results_put :: "Context \<Rightarrow> app_id \<Rightarrow> bytes \<Rightarrow> go_error option \<times> Context" where
  "results_put c k v = SecureRPC_WriteResponse c \<lparr>AppID = k, Payload = v\<rparr>"

definition results_get :: "Context \<Rightarrow> app_id \<Rightarrow> (go_error + bytes) \<times> Context" where
  "results_get c k =
     (case NonsecureRPC_RetrieveResult c k Mail_zero of
        ((Some e, _), c') \<Rightarrow> (Inl e, c')
      | ((None, m), c') \<Rightarrow> (Inr (Payload m), c'))"

lemmas mailbox_ops = mailbox_put_def mailbox_get_def NonsecureRPC_SendMail_def SecureRPC_RetrieveMail_def
  SendMail_def RetrieveMail_def CopyFrom_def

lemmas results_ops = results_put_def results_get_def SecureRPC_WriteResponse_def NonsecureRPC_RetrieveResult_def
  WriteResponse_def ReadResponse_def CopyFrom_def

interpretation mail: durable_slot mailbox_put mailbox_get mailbox
  by unfold_locales (auto simp: mailbox_ops)

interpretation result: mail_slot results_put results_get resultBox
  by unfold_locales (auto simp: results_ops Let_def)

section \<open>Applets and the nonsecure world\<close>

text \<open>
  The ELF loader, the monitor and the board.  \<open>exec_Run\<close> runs a context until it stops; the system calls
  it makes on the way reach the handlers below and may change the trusted OS.  The numbers of the
  system calls are those of the monitor.
\<close>

record 'w teelib =
  elf_Load :: "ELFImage \<Rightarrow> 'w \<Rightarrow> go_error option \<times> 'w"
  elf_Entry :: "ELFImage \<Rightarrow> uint32"
  monitor_Load :: "uint32 \<Rightarrow> Region \<Rightarrow> bool \<Rightarrow> 'w \<Rightarrow> (go_error + ExecCtx) \<times> 'w"
  exec_Run :: "ExecCtx \<Rightarrow> Context \<Rightarrow> 'w \<Rightarrow> (go_error option \<times> ExecCtx \<times> Context \<times> 'w) go"
  monitor_SecureHandler :: "ExecCtx \<Rightarrow> Context \<Rightarrow> 'w \<Rightarrow> (go_error option \<times> Context \<times> 'w) go"
  hw_lib :: hwlib
  hw_exec :: "hw_call list \<Rightarrow> 'w \<Rightarrow> 'w"
  SYS_WRITE :: uint32
  SYS_EXIT :: uint32
  SYS_RPC_REQ :: uint32
  SYS_RPC_RES :: uint32
  tz_rand :: "nat \<Rightarrow> 'w \<Rightarrow> (go_error option \<times> nat) \<times> 'w"
  region_Read :: "uint32 \<Rightarrow> nat \<Rightarrow> nat \<Rightarrow> 'w \<Rightarrow> bytes"
  tz_maxAlloc :: nat

definition RegisterApp ::
  "'w teelib \<Rightarrow> Context \<Rightarrow> bytes \<Rightarrow> app_id \<Rightarrow> 'w \<Rightarrow> go_error option \<times> Context \<times> 'w" where
  "RegisterApp lib c appContent i w =
     (let img = \<lparr>img_Region = AppletRegion, img_ELF = appContent\<rparr>
      in case elf_Load lib img w of
           (Some err, w1) \<Rightarrow> (Some err, c, w1)
         | (None, w1) \<Rightarrow> (None, c\<lparr>Apps := (Apps c)(i \<mapsto> img)\<rparr>, w1))"

definition loadTA :: "'w teelib \<Rightarrow> Context \<Rightarrow> app_id \<Rightarrow> 'w \<Rightarrow> (go_error + ExecCtx) \<times> 'w" where
  "loadTA lib c i w =
     (case Apps c i of
        None \<Rightarrow> (Inl (Wrap (''cannot load app '' @ format_int (int (unat i))) ErrAppNotFound), w)
      | Some img \<Rightarrow>
          (case elf_Load lib img w of
             (Some err, w1) \<Rightarrow> (Inl err, w1)
           | (None, w1) \<Rightarrow>
               (case monitor_Load lib (elf_Entry lib img) (img_Region img) True w1 of
                  (Inl err, w2) \<Rightarrow> (Inl (Wrap ''cannot load app'' err), w2)
                | (Inr ta, w2) \<Rightarrow>
                    (Inr (ta\<lparr>ex_Server := SecureReceiver, ex_R13 := AppletStart + AppletSize,
                             ex_Handler := LogHandler, ex_Debug := True\<rparr>), w2))))"

text \<open>\<open>run\<close> panics unless the context stopped with the exit error of its world.\<close>

definition run :: "'w teelib \<Rightarrow> ExecCtx \<Rightarrow> Context \<Rightarrow> 'w \<Rightarrow> (Context \<times> 'w) go" where
  "run lib x c w =
     go_bind (exec_Run lib x c w) (\<lambda>(err, x', c', w').
       let errTemplate = (if ex_NonSecure x' then ErrNonsecureExit else ErrTAExit)
       in case err of
            None \<Rightarrow> Ret (c', w')
          | Some e \<Rightarrow>
              if errors_Is e errTemplate then Ret (c', w')
              else Panic (ExplicitPanic ''run''))"

definition LoadNonsecureWorld ::
  "'w teelib \<Rightarrow> Context \<Rightarrow> bytes \<Rightarrow> 'w \<Rightarrow> go_error option \<times> Context \<times> 'w" where
  "LoadNonsecureWorld lib c appContent w =
     (let img = \<lparr>img_Region = NonSecureRegion, img_ELF = appContent\<rparr>
      in case elf_Load lib img w of
           (Some err, w1) \<Rightarrow> (Some err, c, w1)
         | (None, w1) \<Rightarrow>
             (case monitor_Load lib (elf_Entry lib img) (img_Region img) False w1 of
                (Inl err, w2) \<Rightarrow> (Some (Wrap ''cannot load nonsecure world'' err), c, w2)
              | (Inr os, w2) \<Rightarrow>
                  (let lock = imx6_Native (hw_lib lib);
                       (calls, err) = configureTrustZone (hw_lib lib) lock;
                       w3 = hw_exec lib calls w2
                   in case err of
                        Some err \<Rightarrow> (Some (Wrap ''could not configure trustzone'' err), c, w3)
                      | None \<Rightarrow>
                          (None, c\<lparr>NonsecureWorld := os\<lparr>ex_Server := NonsecureReceiver,
                             ex_Handler := NonsecureWorldHandler, ex_Debug := True\<rparr>\<rparr>, w3))))"

text \<open>The outcomes of loading: the image, the monitor or the partition fails, or everything succeeds.\<close>

abbreviation nonsecure_image :: "bytes \<Rightarrow> ELFImage" where
  "nonsecure_image elf \<equiv> \<lparr>img_Region = NonSecureRegion, img_ELF = elf\<rparr>"

lemma LoadNonsecureWorld_cases:
  assumes "LoadNonsecureWorld lib c appContent w = (err, c', w')"
  obtains (image) e where "elf_Load lib (nonsecure_image appContent) w = (Some e, w')" "err = Some e" "c' = c"
  | (monitor) e w1 where "elf_Load lib (nonsecure_image appContent) w = (None, w1)" "monitor_Load lib (elf_Entry lib (nonsecure_image appContent)) NonSecureRegion False w1 = (Inl e, w')"
      "err = Some (Wrap ''cannot load nonsecure world'' e)" "c' = c"
  | (partition) w1 os w2 calls e where "elf_Load lib (nonsecure_image appContent) w = (None, w1)"
      "monitor_Load lib (elf_Entry lib (nonsecure_image appContent)) NonSecureRegion False w1 = (Inr os, w2)"
      "configureTrustZone (hw_lib lib) (imx6_Native (hw_lib lib)) = (calls, Some e)"
      "err = Some (Wrap ''could not configure trustzone'' e)" "c' = c" "w' = hw_exec lib calls w2"
  | (loaded) w1 os w2 calls where "elf_Load lib (nonsecure_image appContent) w = (None, w1)"
      "monitor_Load lib (elf_Entry lib (nonsecure_image appContent)) NonSecureRegion False w1 = (Inr os, w2)"
      "configureTrustZone (hw_lib lib) (imx6_Native (hw_lib lib)) = (calls, None)" "err = None"
      "c' = c\<lparr>NonsecureWorld := os\<lparr>ex_Server := NonsecureReceiver, ex_Handler := NonsecureWorldHandler, ex_Debug := True\<rparr>\<rparr>"
      "w' = hw_exec lib calls w2"
  using assms(1) unfolding LoadNonsecureWorld_def
  by (auto simp: Let_def split: prod.split_asm option.split_asm sum.split_asm)

definition RunNonsecureWorld :: "'w teelib \<Rightarrow> Context \<Rightarrow> 'w \<Rightarrow> (Context \<times> 'w) go" where
  "RunNonsecureWorld lib c w = run lib (NonsecureWorld c) c w"

text \<open>
  \<open>Range\<close> visits the keys present when it starts in some order, each at most once, and skips those that
  are gone by then; the order is an argument.
\<close>

fun dispatchAppsCalls :: "'w teelib \<Rightarrow> app_id list \<Rightarrow> Context \<Rightarrow> 'w \<Rightarrow> (Context \<times> 'w) go" where
  "dispatchAppsCalls lib [] c w = Ret (c, w)"
| "dispatchAppsCalls lib (key # keys) c w =
     (if mailbox c key = None then dispatchAppsCalls lib keys c w
      else case loadTA lib c key w of
             (Inl err, w1) \<Rightarrow> Panic (ExplicitPanic ''cannot load ta'')
           | (Inr ta, w1) \<Rightarrow>
               go_bind (run lib ta c w1) (\<lambda>(c2, w2). dispatchAppsCalls lib keys c2 w2))"

text \<open>
  The handler of system calls: the branch for call 666 fills the buffer with random bytes, reads it from
  the applet's memory and decodes a panic report; the offset is a signed 32-bit number.
\<close>

definition logHandler :: "'w teelib \<Rightarrow> ExecCtx \<Rightarrow> Context \<Rightarrow> 'w \<Rightarrow> (go_error option \<times> Context \<times> 'w) go" where
  "logHandler lib x c w =
     (if ex_R0 x = SYS_WRITE lib then
        Ret (None, c\<lparr>pkg_log := bufferedStdoutLog (ucast (ex_R1 x)) (ex_NonSecure x) (pkg_log c)\<rparr>, w)
      else if ex_NonSecure x \<and> ex_R0 x = SYS_EXIT lib then Ret (Some ErrNonsecureExit, c, w)
      else if ex_R0 x = SYS_EXIT lib then Ret (Some ErrTAExit, c, w)
      else if ex_R0 x = 666 then
        (let off = sint (ex_R1 x - rg_Start (ex_Memory x)); n = unat (ex_R2 x)
         in if n > tz_maxAlloc lib then Panic (ExplicitPanic ''makeslice: len out of range'')
            else if \<not> (0 \<le> off \<and> off < int (unat (rg_Size (ex_Memory x))) - int n)
            then Ret (Some (Errorf ''invalid read offset'' []), c, w)
            else let ((err, got), w1) = tz_rand lib n w
                 in if err \<noteq> None \<or> got \<noteq> n then Ret (Some (Errorf ''internal error'' []), c, w1)
                    else let buf = region_Read lib (rg_Start (ex_Memory x)) (nat off) n w1
                         in go_bind (json_Unmarshal ClientPanicT (zero_value ClientPanicT) buf) (\<lambda>(ce, uerr).
                              case uerr of
                                Some e \<Rightarrow> Ret (Some (Wrap ''cannot unmarshal TA error'' e), c, w1)
                              | None \<Rightarrow> Ret (Some (ClientPanic_error (val_ClientPanic ce)), c, w1)))
      else monitor_SecureHandler lib x c w)"

text \<open>
  Two variants that nothing calls: the log on a terminal, with the escape codes of the terminal as arguments,
  and the handler before it knew exits and panic reports.
\<close>

record term_escapes =
  Escape_Red :: bytes
  Escape_Green :: bytes
  Escape_Reset :: bytes

definition bufferedTermLog :: "term_escapes \<Rightarrow> byte \<Rightarrow> bool \<Rightarrow> tz_log \<times> bytes \<Rightarrow> tz_log \<times> bytes" where
  "bufferedTermLog esc ch ns lt =
     (let (l, term) = lt;
          color = (if ns then Escape_Red esc else Escape_Green esc);
          buf = (if ns then nonSecureOutput l else secureOutput l) @ [ch];
          put = (\<lambda>b l. if ns then l\<lparr>nonSecureOutput := b\<rparr> else l\<lparr>secureOutput := b\<rparr>)
      in if ch = flushChr \<or> length buf > outputLimit
         then ((put [] l)\<lparr>Stdout := Stdout l @ buf\<rparr>, term @ color @ buf @ Escape_Reset esc)
         else (put buf l, term))"

lemma bufferedTermLog_Stdout: "fst (bufferedTermLog esc ch ns (l, t)) = bufferedStdoutLog ch ns l"
  by (simp add: bufferedTermLog_def bufferedStdoutLog_def Let_def)

definition logHandlerCopy ::
  "'w teelib \<Rightarrow> (ExecCtx \<Rightarrow> Context \<Rightarrow> 'w \<Rightarrow> (go_error option \<times> Context \<times> 'w) go) \<Rightarrow>
   ExecCtx \<Rightarrow> Context \<Rightarrow> 'w \<Rightarrow> (go_error option \<times> Context \<times> 'w) go" where
  "logHandlerCopy lib monitor_NonSecureHandler x c w =
     (let defaultHandler = (if ex_NonSecure x then monitor_NonSecureHandler else monitor_SecureHandler lib)
      in if ex_R0 x = SYS_WRITE lib then
           Ret (None, c\<lparr>pkg_log := bufferedStdoutLog (ucast (ex_R1 x)) (ex_NonSecure x) (pkg_log c)\<rparr>, w)
         else if ex_NonSecure x \<and> ex_R0 x = SYS_EXIT lib then Ret (Some (Errorf ''exit'' []), c, w)
         else defaultHandler x c w)"

lemma logHandlerCopy_write:
  "ex_R0 x = SYS_WRITE lib \<Longrightarrow> logHandlerCopy lib nsh x c w = logHandler lib x c w"
  by (simp add: logHandlerCopy_def logHandler_def)

definition nonsecureWorldHandler ::
  "'w teelib \<Rightarrow> app_id list \<Rightarrow> ExecCtx \<Rightarrow> Context \<Rightarrow> 'w \<Rightarrow> (go_error option \<times> Context \<times> 'w) go" where
  "nonsecureWorldHandler lib keys x c w =
     (if \<not> (ex_R0 x = SYS_RPC_REQ lib \<or> ex_R0 x = SYS_RPC_RES lib) then logHandler lib x c w
      else go_bind (monitor_SecureHandler lib x c w) (\<lambda>(err, c1, w1).
             case err of
               Some e \<Rightarrow> Ret (Some e, c1, w1)
             | None \<Rightarrow> go_bind (dispatchAppsCalls lib keys c1 w1) (\<lambda>(c2, w2). Ret (None, c2, w2))))"

section \<open>The trusted OS\<close>

definition AppletID :: app_id where "AppletID = 42"

text \<open>\<open>main\<close>: any error panics, which the deferred handler turns into a reset of the board.\<close>

definition trusted_os_main :: "'w teelib \<Rightarrow> bytes \<Rightarrow> bytes \<Rightarrow> 'w \<Rightarrow> (Context \<times> 'w) go" where
  "trusted_os_main lib taELF osELF w =
     (case RegisterApp lib NewContext taELF AppletID w of
        (Some err, c1, w1) \<Rightarrow> Panic (ExplicitPanic ''RegisterApp'')
      | (None, c1, w1) \<Rightarrow>
          (case LoadNonsecureWorld lib c1 osELF w1 of
             (Some err, c2, w2) \<Rightarrow> Panic (ExplicitPanic ''LoadNonsecureWorld'')
           | (None, c2, w2) \<Rightarrow> RunNonsecureWorld lib c2 w2))"

section \<open>Console output\<close>

definition log_run :: "(byte \<times> bool) list \<Rightarrow> tz_log \<Rightarrow> tz_log" where
  "log_run ws l = fold (\<lambda>(ch, ns). bufferedStdoutLog ch ns) ws l"

definition world_buffer :: "bool \<Rightarrow> tz_log \<Rightarrow> bytes" where
  "world_buffer ns l = (if ns then nonSecureOutput l else secureOutput l)"

text \<open>\<open>l\<close> is what a sequence of writes leaves: whole pieces of one world each, and the two open buffers.\<close>

definition log_inv :: "(byte \<times> bool) list \<Rightarrow> tz_log \<Rightarrow> bool" where
  "log_inv ws l \<longleftrightarrow>
     (\<exists>pieces. Stdout l = concat (map snd pieces) \<and>
        (\<forall>ns. concat (map snd (filter (\<lambda>p. fst p = ns) pieces)) @ world_buffer ns l =
              map fst (filter (\<lambda>x. snd x = ns) ws))) \<and>
     (\<forall>ns. length (world_buffer ns l) \<le> outputLimit)"

lemma log_inv_step: "log_inv ws l \<Longrightarrow> log_inv (ws @ [(ch, ns)]) (bufferedStdoutLog ch ns l)"
proof -
  assume inv: "log_inv ws l"
  then obtain pieces where out: "Stdout l = concat (map snd pieces)"
    and buf: "\<And>v. concat (map snd (filter (\<lambda>p. fst p = v) pieces)) @ world_buffer v l =
      map fst (filter (\<lambda>x. snd x = v) ws)"
    and lim: "\<And>v. length (world_buffer v l) \<le> outputLimit"
    by (auto simp: log_inv_def)
  let ?b = "world_buffer ns l @ [ch]"
  let ?flush = "ch = flushChr \<or> length ?b > outputLimit"
  let ?ps = "if ?flush then pieces @ [(ns, ?b)] else pieces"
  have new: "world_buffer v (bufferedStdoutLog ch ns l) =
      (if v = ns then (if ?flush then [] else ?b) else world_buffer v l)" for v
    by (auto simp: world_buffer_def bufferedStdoutLog_def Let_def)
  have "Stdout (bufferedStdoutLog ch ns l) = concat (map snd ?ps)"
    by (auto simp: bufferedStdoutLog_def Let_def world_buffer_def out)
  moreover have "concat (map snd (filter (\<lambda>p. fst p = v) ?ps)) @ world_buffer v (bufferedStdoutLog ch ns l) =
      map fst (filter (\<lambda>x. snd x = v) (ws @ [(ch, ns)]))" for v
    using buf [of ns] buf [of "\<not> ns"] by (cases "v = ns") (simp_all add: new flip: append_assoc)
  moreover have "length (world_buffer v (bufferedStdoutLog ch ns l)) \<le> outputLimit" for v
    using lim [of "\<not> ns"] by (cases "v = ns") (simp_all add: new)
  ultimately show ?thesis
    unfolding log_inv_def by (intro conjI exI [of _ ?ps] allI)
qed

lemma log_inv_run: "log_inv vs l \<Longrightarrow> log_inv (vs @ ws) (log_run ws l)"
proof (induction ws arbitrary: vs l)
  case Nil
  then show ?case by (simp add: log_run_def)
next
  case (Cons x ws)
  from log_inv_step [OF Cons.prems, of "fst x" "snd x"] Cons.IH
  have "log_inv ((vs @ [x]) @ ws) (log_run ws (bufferedStdoutLog (fst x) (snd x) l))"
    by (metis prod.collapse)
  then show ?case by (simp add: log_run_def case_prod_unfold)
qed

section \<open>Properties of the trusted OS\<close>

text \<open>
  C20. The mailbox loses, duplicates and reorders nothing: after any sequence of deliveries by the
  nonsecure world and retrievals by applets, the payloads accepted for an application are those
  retrieved for it, in order, followed by the one still in the box.
\<close>

theorem mailbox_no_loss:
  "let (accepted, retrieved, c) = slot_run mailbox_put mailbox_get NewContext ops
   in for_app k accepted = for_app k retrieved @ held (mailbox c k)"
  using mail.no_loss [of NewContext ops _ _ _ k] by (auto simp: NewContext_def split: prod.split)

text \<open>
  C32. Results are handed out at most once, in order and only if an applet wrote them: what was read for
  an application, and what is still there, is a subsequence of what was accepted for it.
\<close>

theorem results_at_most_once:
  "let (accepted, read, c) = slot_run results_put results_get NewContext ops
   in subseq (for_app k read @ held (resultBox c k)) (for_app k accepted)"
  using result.at_most_once [of NewContext ops _ _ _ k] by (auto simp: NewContext_def split: prod.split)

text \<open>
  A result written while another is waiting destroys both: the error says the box is full, the
  waiting result has been removed, and the next read finds nothing.
\<close>

lemma full_result_box_loses:
  assumes "resultBox c k = Some waiting"
  shows "\<exists>c'. SecureRPC_WriteResponse c \<lparr>AppID = k, Payload = new\<rparr> = (Some ErrResultBoxFull, c') \<and>
           NonsecureRPC_RetrieveResult c' k out = ((Some ErrNoResult, out), c')"
  using assms by (simp add: SecureRPC_WriteResponse_def WriteResponse_def NonsecureRPC_RetrieveResult_def
      ReadResponse_def Let_def)

lemma full_result_box_loses_witness:
  "\<exists>c'. SecureRPC_WriteResponse (NewContext\<lparr>resultBox := [42 \<mapsto> [1]]\<rparr>) \<lparr>AppID = 42, Payload = [2]\<rparr> =
      (Some ErrResultBoxFull, c') \<and>
    NonsecureRPC_RetrieveResult c' 42 Mail_zero = ((Some ErrNoResult, Mail_zero), c')"
  by (rule full_result_box_loses) simp

text \<open>An applet that answers its mail once and exits, whatever the state it is run in.\<close>

definition answers_mail :: "'w teelib \<Rightarrow> app_id \<Rightarrow> (bytes \<Rightarrow> bytes) \<Rightarrow> bool" where
  "answers_mail lib k f \<longleftrightarrow>
     (\<forall>x c w req. ex_Server x = SecureReceiver \<longrightarrow> mailbox c k = Some req \<longrightarrow>
        (\<exists>x' w'. exec_Run lib x c w =
           Ret (Some ErrTAExit, x', snd (results_put (snd (mailbox_get c k)) k (f req)), w') \<and>
           \<not> ex_NonSecure x'))"

text \<open>
  A call from the nonsecure world to an applet and back: with both places of the application empty,
  sending a request succeeds, the dispatcher loads and runs the applet, and reading the result returns
  exactly the applet's answer and leaves the trusted OS as it was.
\<close>

lemma rpc_roundtrip:
  assumes "mailbox c k = None" and "resultBox c k = None" and "Apps c k = Some img"
    and "elf_Load lib img w = (None, w1)"
    and "monitor_Load lib (elf_Entry lib img) (img_Region img) True w1 = (Inr ta, w2)"
    and "answers_mail lib k f"
  shows "\<exists>c1 c2 w'. NonsecureRPC_SendMail c \<lparr>AppID = k, Payload = req\<rparr> = (None, c1) \<and>
    dispatchAppsCalls lib [k] c1 w = Ret (c2, w') \<and>
    NonsecureRPC_RetrieveResult c2 k Mail_zero = ((None, \<lparr>AppID = k, Payload = f req\<rparr>), c)"
proof -
  let ?c1 = "c\<lparr>mailbox := (mailbox c)(k \<mapsto> req)\<rparr>"
  let ?ta = "ta\<lparr>ex_Server := SecureReceiver, ex_R13 := AppletStart + AppletSize,
       ex_Handler := LogHandler, ex_Debug := True\<rparr>"
  let ?c2 = "c\<lparr>resultBox := (resultBox c)(k \<mapsto> f req)\<rparr>"
  have send: "NonsecureRPC_SendMail c \<lparr>AppID = k, Payload = req\<rparr> = (None, ?c1)"
    using assms(1) by (simp add: NonsecureRPC_SendMail_def SendMail_def)
  have load: "loadTA lib ?c1 k w = (Inr ?ta, w2)"
    using assms(3,4,5) by (simp add: loadTA_def)
  have "snd (results_put (snd (mailbox_get ?c1 k)) k (f req)) = ?c2"
    using assms(1,2) by (cases c) (simp add: mailbox_ops results_ops Let_def fun_upd_idem)
  then obtain x' w' where "exec_Run lib ?ta ?c1 w2 = Ret (Some ErrTAExit, x', ?c2, w')" "\<not> ex_NonSecure x'"
    using assms(6) [unfolded answers_mail_def, rule_format, of ?ta ?c1 req w2] by auto
  then have "run lib ?ta ?c1 w2 = Ret (?c2, w')"
    by (simp add: run_def ErrTAExit_def)
  then have disp: "dispatchAppsCalls lib [k] ?c1 w = Ret (?c2, w')"
    by (simp add: load)
  have "NonsecureRPC_RetrieveResult ?c2 k Mail_zero = ((None, \<lparr>AppID = k, Payload = f req\<rparr>), c)"
    using assms(2) by (cases c) (simp add: NonsecureRPC_RetrieveResult_def ReadResponse_def CopyFrom_def
        Mail_zero_def fun_upd_idem)
  with send disp show ?thesis by blast
qed

text \<open>A monitor that runs every applet as one that echoes its mail with a byte in front.\<close>

definition demo_tee :: "unit teelib" where
  "demo_tee = \<lparr>elf_Load = (\<lambda>i w. (None, w)), elf_Entry = (\<lambda>i. rg_Start (img_Region i)),
     monitor_Load = (\<lambda>e r s w. (Inr (ExecCtx_zero\<lparr>ex_Memory := r, ex_NonSecure := \<not> s\<rparr>), w)),
     exec_Run = (\<lambda>x c w. case mailbox c 42 of
        None \<Rightarrow> Ret (Some ErrNoMail, x, c, w)
      | Some req \<Rightarrow> Ret (Some ErrTAExit, x\<lparr>ex_NonSecure := False\<rparr>,
          snd (results_put (snd (mailbox_get c 42)) 42 (7 # req)), w)),
     monitor_SecureHandler = (\<lambda>x c w. Ret (None, c, w)),
     hw_lib = demo_hw, hw_exec = (\<lambda>calls w. w), SYS_WRITE = 1, SYS_EXIT = 0, SYS_RPC_REQ = 3, SYS_RPC_RES = 4,
     tz_rand = (\<lambda>n w. ((None, n), w)), region_Read = (\<lambda>s p n w. replicate n 0),
     tz_maxAlloc = 1000\<rparr>"

definition demo_context :: Context where
  "demo_context = NewContext\<lparr>Apps := [42 \<mapsto> \<lparr>img_Region = AppletRegion, img_ELF = []\<rparr>]\<rparr>"

lemma demo_answers: "answers_mail demo_tee 42 ((#) 7)"
  by (simp add: answers_mail_def demo_tee_def)

lemma rpc_roundtrip_witness:
  "\<exists>c1 c2 w'. NonsecureRPC_SendMail demo_context \<lparr>AppID = 42, Payload = [1, 2]\<rparr> = (None, c1) \<and>
    dispatchAppsCalls demo_tee [42] c1 () = Ret (c2, w') \<and>
    NonsecureRPC_RetrieveResult c2 42 Mail_zero = ((None, \<lparr>AppID = 42, Payload = (#) 7 [1, 2]\<rparr>), demo_context)"
  by (rule rpc_roundtrip [OF _ _ _ _ _ demo_answers])
     (simp_all add: demo_context_def NewContext_def demo_tee_def)

text \<open>
  C37. A message for an application that is not registered is accepted, and the dispatch that follows
  panics the trusted OS.
\<close>

theorem unknown_app_panics:
  assumes "mailbox c = Map.empty" and "Apps c k = None" and "k \<in> set keys"
  shows "\<exists>c1. NonsecureRPC_SendMail c \<lparr>AppID = k, Payload = req\<rparr> = (None, c1) \<and>
    dispatchAppsCalls lib keys c1 w = Panic (ExplicitPanic ''cannot load ta'')"
proof -
  let ?c1 = "c\<lparr>mailbox := (mailbox c)(k \<mapsto> req)\<rparr>"
  have "dispatchAppsCalls lib keys ?c1 w = Panic (ExplicitPanic ''cannot load ta'')"
    using assms(3)
  proof (induction keys)
    case Nil
    then show ?case by simp
  next
    case (Cons j keys)
    then show ?case using assms(1,2) by (auto simp: loadTA_def)
  qed
  moreover have "NonsecureRPC_SendMail c \<lparr>AppID = k, Payload = req\<rparr> = (None, ?c1)"
    using assms(1) by (simp add: NonsecureRPC_SendMail_def SendMail_def)
  ultimately show ?thesis by blast
qed

theorem unknown_app_panics_witness:
  "\<exists>c1. NonsecureRPC_SendMail demo_context \<lparr>AppID = 7, Payload = []\<rparr> = (None, c1) \<and>
    dispatchAppsCalls demo_tee [42, 7] c1 () = Panic (ExplicitPanic ''cannot load ta'')"
  by (rule unknown_app_panics) (simp_all add: demo_context_def NewContext_def)

text \<open>
  C19. The nonsecure world is only installed behind a complete partition.  When loading it succeeds on the board, the hardware
  has made every call of the partition, in order and after the image was loaded; every secure address has the
  secure-world attributes only and every other address those of the nonsecure world; and its system calls go to the
  dispatching handler.  When loading fails on the board no nonsecure world is installed and the context is as it was, but
  memory and hardware need not be: the loader or the monitor has failed before any call to the hardware, or the calls
  made so far, a prefix of the partition that ends with the failing one, have taken effect.
\<close>

theorem nonsecure_world_isolated:
  assumes "LoadNonsecureWorld lib c os w = (err, c', w')" and "imx6_Native (hw_lib lib)" and "tzc_semantics perm"
  shows "if err = None
         then (\<exists>calls x w1 w2. configureTrustZone (hw_lib lib) True = (calls, None) \<and> calls = trustzone_calls (hw_lib lib) True \<and>
                 elf_Load lib (nonsecure_image os) w = (None, w1) \<and> monitor_Load lib (elf_Entry lib (nonsecure_image os)) NonSecureRegion False w1 = (Inr x, w2) \<and>
                 w' = hw_exec lib calls w2 \<and>
                 (if inside SecureStart SecureSize a \<or> inside SecureDMAStart SecureDMASize a \<or>
                     inside AppletStart AppletSize a
                  then perm calls a = sw_attr (hw_lib lib) else perm calls a = nw_attr (hw_lib lib))) \<and>
              ex_Handler (NonsecureWorld c') = NonsecureWorldHandler \<and>
              ex_Server (NonsecureWorld c') = NonsecureReceiver \<and>
              c' = c\<lparr>NonsecureWorld := NonsecureWorld c'\<rparr>
         else c' = c \<and>
           ((\<exists>e. elf_Load lib (nonsecure_image os) w = (Some e, w')) \<or>
            (\<exists>w1. elf_Load lib (nonsecure_image os) w = (None, w1) \<and>
               ((\<exists>e. monitor_Load lib (elf_Entry lib (nonsecure_image os)) NonSecureRegion False w1 = (Inl e, w')) \<or>
                (\<exists>x w2 calls rest e. monitor_Load lib (elf_Entry lib (nonsecure_image os)) NonSecureRegion False w1 = (Inr x, w2) \<and>
                   w' = hw_exec lib calls w2 \<and> trustzone_calls (hw_lib lib) True = calls @ rest \<and>
                   hw_result (hw_lib lib) (last calls) = Some e \<and> err = Some (Wrap ''could not configure trustzone'' e)))))"
  using assms(1)
proof (cases rule: LoadNonsecureWorld_cases)
  case (partition w1 x w2 calls e)
  with configureTrustZone_stops [OF assms(2), of True calls "Some e"] assms(2) show ?thesis
    by (simp, blast)
next
  case (loaded w1 x w2 calls)
  with assms(2) have conf: "configureTrustZone (hw_lib lib) True = (calls, None)" by simp
  from configureTrustZone_stops [OF assms(2) conf] have calls: "calls = trustzone_calls (hw_lib lib) True" by simp
  have "perm calls a = (if inside SecureStart SecureSize a \<or>
      inside SecureDMAStart SecureDMASize a \<or> inside AppletStart AppletSize a then sw_attr (hw_lib lib) else nw_attr (hw_lib lib))"
    using perm_trustzone [OF assms(3), of "hw_lib lib" True a] by (simp add: calls)
  with loaded conf calls show ?thesis by simp
qed simp_all

theorem nonsecure_world_isolated_witness:
  "\<exists>calls. configureTrustZone demo_hw True = (calls, None) \<and>
     snd (the (attr_of calls 0x98000000)) = sw_attr demo_hw \<and>
     ex_Handler (NonsecureWorld (fst (snd (LoadNonsecureWorld demo_tee demo_context [] ())))) = NonsecureWorldHandler"
proof -
  have lib: "imx6_Native (hw_lib demo_tee)" "hw_lib demo_tee = demo_hw"
    by (simp_all add: demo_tee_def demo_hw_def)
  have cfg: "snd (configureTrustZone demo_hw True) = None"
    using configureTrustZone_succeeds [of demo_hw True] by (simp add: demo_hw_def hw_succeeds_def)
  have ok: "fst (LoadNonsecureWorld demo_tee demo_context [] ()) = None"
    using cfg lib by (simp add: LoadNonsecureWorld_def Let_def) (auto simp: demo_tee_def split: prod.split)
  have sem: "tzc_semantics (\<lambda>calls a. snd (the (attr_of calls a)))"
    by (simp add: tzc_semantics_def)
  obtain err c' w' where run: "LoadNonsecureWorld demo_tee demo_context [] () = (err, c', w')"
    by (cases "LoadNonsecureWorld demo_tee demo_context [] ()") blast
  have "inside SecureStart SecureSize 0x98000000" by (simp add: inside_regions)
  with nonsecure_world_isolated [OF run lib(1) sem, of "0x98000000"] ok run lib(2) show ?thesis
    by auto
qed

text \<open>
  The console never mixes the two worlds inside a piece of output: standard output is a sequence of
  pieces of one world each; for each world its pieces followed by its open buffer are exactly the bytes
  it has written, in order, and an open buffer never exceeds 1024 bytes.
\<close>

lemma console_not_interleaved:
  "\<exists>pieces. Stdout (log_run ws (pkg_log NewContext)) = concat (map snd pieces) \<and>
     (\<forall>ns. concat (map snd (filter (\<lambda>p. fst p = ns) pieces)) @ world_buffer ns (log_run ws (pkg_log NewContext)) =
           map fst (filter (\<lambda>x. snd x = ns) ws) \<and>
           length (world_buffer ns (log_run ws (pkg_log NewContext))) \<le> 1024)"
proof -
  have "log_inv [] (pkg_log NewContext)"
    by (auto simp: log_inv_def NewContext_def world_buffer_def intro: exI [of _ "[]"])
  from log_inv_run [OF this, of ws] show ?thesis
    by (auto simp: log_inv_def outputLimit_def)
qed

end
