(* ===== verification/Boot.thy ===== *)
theory Boot
  imports Usb_Config Firmware Tz
begin

text \<open>
  How the programs start and stop: \<open>init\<close>, \<open>main\<close> and the deferred panic handlers of the firmware
  (\<open>src/firmware/main.go\<close>), of the trusted OS (\<open>src/tee/trusted_os/main.go\<close>) and of the demo OS, and the reboot
  watcher of the debug build.  A program is the sequence of calls it makes into the board support package.
\<close>

datatype board_event =
    SetARMFreq nat
  | DebugAccessory
  | DmaInit uint32 uint32
  | DcpUsesDma
  | FatalExit
  | BoardReset
  | SemihostingShutdown
  | SocInit
  | SerialInit

datatype run_end = Returned | Crashed panic

section \<open>Firmware\<close>

text \<open>
  What differs between the builds: the TEE build has no debug accessory.  Both reset the board.
\<close>

definition loadDebugAccessory :: "board_event list" where
  "loadDebugAccessory = [DebugAccessory]"

definition loadDebugAccessory_tee_enabled :: "board_event list" where
  "loadDebugAccessory_tee_enabled = []"

definition resetBoard :: "board_event list" where
  "resetBoard = [BoardReset]"

definition resetBoard_tee_enabled :: "board_event list" where
  "resetBoard_tee_enabled = [BoardReset]"

text \<open>
  \<open>init\<close>: on emulated hardware the program exits.  \<open>freqLow\<close> is the frequency the firmware sets; a failure is only
  logged.
\<close>

definition firmware_init :: "bool \<Rightarrow> bool \<Rightarrow> nat \<Rightarrow> board_event list" where
  "firmware_init native tee_enabled freqLow =
     (if \<not> native then [FatalExit]
      else (if tee_enabled then loadDebugAccessory_tee_enabled else loadDebugAccessory) @ [SetARMFreq freqLow])"

definition catchPanic :: "bool \<Rightarrow> run_end \<Rightarrow> board_event list" where
  "catchPanic tee_enabled r =
     (case r of
        Crashed p \<Rightarrow> (if tee_enabled then resetBoard_tee_enabled else resetBoard)
      | Returned \<Rightarrow> [])"

text \<open>
  \<open>main\<close>: an error of \<open>startUSB\<close> panics.  Otherwise the device is served and \<open>main\<close> does not get beyond
  \<open>startUSB\<close> (\<open>Inr\<close>).
\<close>

definition firmware_start ::
  "bool \<Rightarrow> ('d, 'f) usb_driver \<Rightarrow> 'f HIDHandler \<Rightarrow> board_event list + ('d Device \<times> 'f usb_heap)" where
  "firmware_start tee_enabled drv hh =
     (case startUSB drv hh of
        Inl err \<Rightarrow> Inl (catchPanic tee_enabled (Crashed (ExplicitPanic (error_text err))))
      | Inr served \<Rightarrow> Inr served)"

lemma firmware_start_resets: "firmware_start tee_enabled drv hh = Inl es \<longleftrightarrow> es = [BoardReset] \<and> (\<exists>e. startUSB drv hh = Inl e)"
  by (auto simp: firmware_start_def catchPanic_def resetBoard_def resetBoard_tee_enabled_def split: sum.splits)

text \<open>
  The reboot watcher of the debug build: one read of the serial port per round; a read that returns nothing
  leaves the buffer as it is.
\<close>

fun rebootWatcher :: "byte \<Rightarrow> byte option list \<Rightarrow> board_event list" where
  "rebootWatcher buf [] = []"
| "rebootWatcher buf (r # rs) =
     (let buf = (case r of Some b \<Rightarrow> b | None \<Rightarrow> buf)
      in if buf = 0 then rebootWatcher buf rs
         else if buf = 0x72 then BoardReset # rebootWatcher 0 rs
         else rebootWatcher 0 rs)"

text \<open>Every \<open>r\<close> received reboots the board once, and nothing else does.\<close>

lemma rebootWatcher_resets: "rebootWatcher 0 rs = replicate (count_list rs (Some 0x72)) BoardReset"
  by (induction rs) (auto split: option.splits)

section \<open>Trusted OS\<close>

definition panicHandler :: "bool \<Rightarrow> run_end \<Rightarrow> board_event list" where
  "panicHandler native r =
     (case r of
        Crashed p \<Rightarrow> (if native then [] else [SemihostingShutdown]) @ [BoardReset]
      | Returned \<Rightarrow> [])"

text \<open>A panic of \<open>init\<close> is not recovered: the handler is only installed by \<open>main\<close>.\<close>

definition trusted_os_init :: "bool \<Rightarrow> go_error option \<Rightarrow> board_event list \<times> run_end" where
  "trusted_os_init native freqErr =
     (case (native, freqErr) of
        (True, Some err) \<Rightarrow>
          ([SetARMFreq 900], Crashed (ExplicitPanic (''WARNING: error setting ARM frequency: '' @ error_text err)))
      | _ \<Rightarrow>
          ((if native then [SetARMFreq 900, DebugAccessory] else []) @
           [DmaInit SecureDMAStart SecureDMASize, DcpUsesDma], Returned))"

definition trusted_os_process :: "'w teelib \<Rightarrow> bytes \<Rightarrow> bytes \<Rightarrow> 'w \<Rightarrow> board_event list \<times> run_end" where
  "trusted_os_process lib taELF osELF w =
     (let native = imx6_Native (hw_lib lib)
      in case trusted_os_main lib taELF osELF w of
           Ret _ \<Rightarrow>
             ((if native then [] else [SemihostingShutdown]) @ [BoardReset] @ panicHandler native Returned, Returned)
         | Panic p \<Rightarrow> (panicHandler native (Crashed p), Returned))"

text \<open>However the trusted OS ends, the board is reset exactly once, after the emulator was asked to stop.\<close>

lemma trusted_os_process_resets:
  "trusted_os_process lib taELF osELF w =
     (if imx6_Native (hw_lib lib) then [BoardReset] else [SemihostingShutdown, BoardReset], Returned)"
  by (simp add: trusted_os_process_def panicHandler_def Let_def split: go.split)

text \<open>On the board the DMA memory of the trusted OS is moved out of the reach of the nonsecure world before \<open>main\<close> runs.\<close>

lemma trusted_os_init_dma:
  "snd (trusted_os_init native e) = Returned \<Longrightarrow>
     DmaInit SecureDMAStart SecureDMASize \<in> set (fst (trusted_os_init native e))"
  by (auto simp: trusted_os_init_def split: option.splits if_splits bool.splits)

lemma trusted_os_init_crashes:
  "snd (trusted_os_init native e) \<noteq> Returned \<longleftrightarrow> native \<and> e \<noteq> None"
  by (auto simp: trusted_os_init_def split: option.splits)

section \<open>Demo OS\<close>

definition hwinit :: "board_event list" where
  "hwinit = [SocInit, SerialInit]"

definition demo_os_init :: "bool \<Rightarrow> go_error option \<Rightarrow> board_event list \<times> run_end" where
  "demo_os_init native freqErr =
     (if \<not> native then ([], Returned)
      else case freqErr of
             Some err \<Rightarrow>
               ([SetARMFreq 900], Crashed (ExplicitPanic (''WARNING: error setting ARM frequency: '' @ error_text err)))
           | None \<Rightarrow> ([SetARMFreq 900], Returned))"

text \<open>
  The serial port is set up before anything that prints runs, and a program of the nonsecure world that gets through its
  \<open>init\<close> has set the clock at most once.
\<close>

definition nonsecure_boot :: "bool \<Rightarrow> go_error option \<Rightarrow> board_event list \<times> run_end" where
  "nonsecure_boot native freqErr = (let (es, r) = demo_os_init native freqErr in (hwinit @ es, r))"

lemma nonsecure_boot_events:
  "nonsecure_boot native e =
     (SocInit # SerialInit # (if native then [SetARMFreq 900] else []),
      case (native, e) of
        (True, Some err) \<Rightarrow> Crashed (ExplicitPanic (''WARNING: error setting ARM frequency: '' @ error_text err))
      | _ \<Rightarrow> Returned)"
  by (simp add: nonsecure_boot_def hwinit_def demo_os_init_def split: option.split)

end
