(* ===== verification/Json_Stream.thy ===== *)
theory Json_Stream
  imports Json_Print
begin

text \<open>
  \<open>json.Decoder\<close> on a reader that gives all it has at once together with \<open>io.EOF\<close>: the first value of the
  bytes, a request for more when they end inside a value, or a syntax error.
\<close>

datatype stream_result = StreamValue json | StreamMore | StreamBad

fun stream_from :: "scanner \<Rightarrow> builder \<Rightarrow> bytes \<Rightarrow> stream_result" where
  "stream_from s b [] =
     (case json_run s b [0x20] of
        Some (s', b') \<Rightarrow>
          (if sc_endTop s' then (case bd_top b' of Some v \<Rightarrow> StreamValue v | None \<Rightarrow> StreamMore) else StreamMore)
      | None \<Rightarrow> StreamMore)"
| "stream_from s b (c # cs) =
     (case scan_step s c of
        None \<Rightarrow> StreamBad
      | Some (opc, s') \<Rightarrow>
          (case build opc c b of
             None \<Rightarrow> StreamBad
           | Some b' \<Rightarrow>
               if sc_endTop s' then (case bd_top b' of Some v \<Rightarrow> StreamValue v | None \<Rightarrow> StreamBad)
               else stream_from s' b' cs))"

definition stream_value :: "bytes \<Rightarrow> stream_result" where
  "stream_value bs = stream_from scan_start builder_start bs"

section \<open>A complete value\<close>

text \<open>Behind the top-level value only blanks are accepted and the value stays.\<close>

lemma after_top:
  "in_phase s b \<Longrightarrow> sc_endTop s \<Longrightarrow> json_run s b cs = Some (s', b') \<Longrightarrow> list_all is_space cs \<and> s' = s \<and> b' = b"
proof (induction cs arbitrary: s b)
  case Nil
  then show ?case by simp
next
  case (Cons c cs)
  then have "sc_step s = StateEndTop" "bd_lit b = None" by (auto simp: in_phase_def split: if_splits)
  with Cons show ?case
    by (auto simp: scan_step_def build_skip split: if_splits option.splits)
qed

lemma stream_from_run:
  "in_phase s b \<Longrightarrow> \<not> sc_endTop s \<Longrightarrow> json_run s b xs = Some (s', b') \<Longrightarrow> sc_endTop s' \<Longrightarrow>
   \<exists>v. bd_top b' = Some v \<and> stream_from s b (xs @ rest) = StreamValue v"
proof (induction xs arbitrary: s b)
  case Nil
  then show ?case by simp
next
  case (Cons c xs)
  then obtain opc s1 b1 where step: "scan_step s c = Some (opc, s1)" "build opc c b = Some b1"
    and run: "json_run s1 b1 xs = Some (s', b')" by (auto split: option.splits)
  from in_phase_step [OF Cons.prems(1) step(1)] step(2) have phase: "in_phase s1 b1" by auto
  show ?case
  proof (cases "sc_endTop s1")
    case True
    with after_top [OF phase True run] in_phase_endTop [OF phase] step show ?thesis by auto
  next
    case False
    from Cons.IH [OF phase False run Cons.prems(4)] step False show ?thesis by auto
  qed
qed

lemma json_run_text_newline:
  assumes "json_printed v" "json_depth v \<le> maxNestingDepth"
  shows "\<exists>s b. json_run scan_start builder_start (json_text v @ [0x0a]) = Some (s, b) \<and> sc_endTop s \<and> bd_top b = Some v"
proof -
  have "deliver v builder_start = Some (builder_start\<lparr>bd_top := Some v\<rparr>)"
    by (simp add: deliver_def builder_start_def)
  then have "json_run scan_start builder_start (json_text v @ [0x0a]) =
      json_run (scan_start\<lparr>sc_step := StateEndValue\<rparr>) (builder_start\<lparr>bd_top := Some v\<rparr>) [0x0a]"
    using assms by (intro reads_backD [OF printed_reads_back])
      (auto simp: scan_start_def builder_start_def delimiter_def)
  then show ?thesis
    by (simp add: scan_step_def state_end_value_def scan_start_def is_space_def build_def flush_lit_def
        punctuate_def builder_start_def)
qed

lemma stream_value_text:
  assumes "json_printed v" "json_depth v \<le> maxNestingDepth"
  shows "stream_value (json_text v @ [0x0a]) = StreamValue v"
proof -
  from json_run_text_newline [OF assms] obtain s b where
    "json_run scan_start builder_start (json_text v @ [0x0a]) = Some (s, b)" "sc_endTop s" "bd_top b = Some v" by blast
  from stream_from_run [OF in_phase_start _ this(1,2), of "[]"] this(3) show ?thesis
    by (simp add: stream_value_def scan_start_def)
qed

text \<open>The end of the input ends a value that stands there on its own.\<close>

lemma json_run_text_blank:
  assumes "json_printed v" "json_depth v \<le> maxNestingDepth"
  shows "\<exists>s b. json_run scan_start builder_start (json_text v @ [0x20]) = Some (s, b) \<and> sc_endTop s \<and> bd_top b = Some v"
proof -
  have "deliver v builder_start = Some (builder_start\<lparr>bd_top := Some v\<rparr>)"
    by (simp add: deliver_def builder_start_def)
  then have "json_run scan_start builder_start (json_text v @ [0x20]) =
      json_run (scan_start\<lparr>sc_step := StateEndValue\<rparr>) (builder_start\<lparr>bd_top := Some v\<rparr>) [0x20]"
    using assms by (intro reads_backD [OF printed_reads_back])
      (auto simp: scan_start_def builder_start_def delimiter_def)
  then show ?thesis
    by (simp add: scan_step_def state_end_value_def scan_start_def is_space_def build_def flush_lit_def
        punctuate_def builder_start_def)
qed

lemma stream_from_end:
  "in_phase s b \<Longrightarrow> \<not> sc_endTop s \<Longrightarrow> json_run s b (xs @ [0x20]) = Some (s', b') \<Longrightarrow> sc_endTop s' \<Longrightarrow> bd_top b' = Some v \<Longrightarrow>
   stream_from s b xs = StreamValue v"
proof (induction xs arbitrary: s b)
  case Nil
  then show ?case by simp
next
  case (Cons c xs)
  then obtain opc s1 b1 where step: "scan_step s c = Some (opc, s1)" "build opc c b = Some b1"
    and run: "json_run s1 b1 (xs @ [0x20]) = Some (s', b')" by (auto split: option.splits)
  from in_phase_step [OF Cons.prems(1) step(1)] step(2) have phase: "in_phase s1 b1" by auto
  show ?case
  proof (cases "sc_endTop s1")
    case True
    with after_top [OF phase True run] Cons.prems(5) step show ?thesis by auto
  next
    case False
    from Cons.IH [OF phase False run Cons.prems(4,5)] step False show ?thesis by auto
  qed
qed

text \<open>A buffer that holds the text, with or without the newline behind it.\<close>

lemma stream_value_take:
  assumes "json_printed v" "json_depth v \<le> maxNestingDepth" "length (json_text v) \<le> n"
  shows "stream_value (take n (json_text v @ [0x0a])) = StreamValue v"
proof (cases "n = length (json_text v)")
  case True
  from json_run_text_blank [OF assms(1,2)] stream_from_end [OF in_phase_start, of "json_text v"] True show ?thesis
    by (auto simp: stream_value_def scan_start_def)
next
  case False
  with assms(3) have "take n (json_text v @ [0x0a]) = json_text v @ [0x0a]" by simp
  with stream_value_text [OF assms(1,2)] show ?thesis by simp
qed

section \<open>A value that is cut off\<close>

lemma open_step:
  assumes "scan_step s c = Some (opc, s')" "sc_parseState s \<noteq> []"
  shows "sc_parseState s' \<noteq> [] \<or> sc_endTop s'"
  using assms
  by (auto simp: scan_step_def state_begin_value_def state_begin_string_def state_end_value_def state_int0_def
      state_esign_def push_parse_def pop_parse_def go_to_def Let_def
      split: scan_state.splits if_splits list.splits parse_state.splits)

lemma open_blank:
  assumes "scan_step s 0x20 = Some (opc, s')" "sc_parseState s \<noteq> []" "\<not> sc_endTop s"
  shows "\<not> sc_endTop s'"
  using assms
  by (auto simp: scan_step_def state_begin_value_def state_begin_string_def state_end_value_def state_int0_def
      state_esign_def push_parse_def go_to_def is_space_def Let_def
      split: scan_state.splits if_splits list.splits parse_state.splits)

text \<open>Inside an open array or object, a text that goes on to something other than blanks has no value yet.\<close>

lemma stream_from_cut:
  "in_phase s b \<Longrightarrow> \<not> sc_endTop s \<Longrightarrow> sc_parseState s \<noteq> [] \<Longrightarrow> json_run s b (xs @ ys) = Some (s', b') \<Longrightarrow>
   \<not> list_all is_space ys \<Longrightarrow> stream_from s b xs = StreamMore"
proof (induction xs arbitrary: s b)
  case Nil
  then show ?case
    using open_blank [of s] by (auto split: option.split)
next
  case (Cons c xs)
  then obtain opc s1 b1 where step: "scan_step s c = Some (opc, s1)" "build opc c b = Some b1"
    and run: "json_run s1 b1 (xs @ ys) = Some (s', b')" by (auto split: option.splits)
  from in_phase_step [OF Cons.prems(1) step(1)] step(2) have phase: "in_phase s1 b1" by auto
  have "\<not> sc_endTop s1" using after_top [OF phase _ run] Cons.prems(5) by auto
  with Cons.IH [OF phase _ _ run Cons.prems(5)] open_step [OF step(1) Cons.prems(3)] step show ?case by auto
qed

lemma stream_value_cut:
  assumes "json_printed (JObj kvs)" "json_depth (JObj kvs) \<le> maxNestingDepth"
    and "n < length (json_text (JObj kvs))" "0 < n"
  shows "stream_value (take n (json_text (JObj kvs) @ [0x0a])) = StreamMore"
proof -
  let ?t = "json_text (JObj kvs)"
  obtain cs where t: "?t = 0x7b # cs @ [0x7d]" by simp
  obtain m where m: "n = Suc m" using assms(4) by (cases n) auto
  let ?s = "scan_start\<lparr>sc_step := StateBeginStringOrEmpty, sc_parseState := [ParseObjectKey]\<rparr>"
  let ?b = "builder_start\<lparr>bd_frames := [FObj [] None]\<rparr>"
  have step: "scan_step scan_start 0x7b = Some (ScanBeginObject, ?s)" "build ScanBeginObject 0x7b builder_start = Some ?b"
    by (simp_all add: scan_step_def scan_start_def state_begin_value_def is_space_def push_parse_def maxNestingDepth_def
        build_def flush_lit_def builder_start_def punctuate_def)
  from in_phase_step [OF in_phase_start step(1)] step(2) have phase: "in_phase ?s ?b" by auto
  let ?xs = "take m (cs @ [0x7d])"
  let ?ys = "drop m (cs @ [0x7d]) @ [0x0a]"
  from json_run_text_newline [OF assms(1,2)] t step obtain s b where
    "json_run ?s ?b (cs @ [0x7d, 0x0a]) = Some (s, b)" by auto
  moreover have "?xs @ ?ys = cs @ [0x7d, 0x0a]"
    by (metis append_assoc append_take_drop_id append_Cons append_Nil)
  ultimately have run: "json_run ?s ?b (?xs @ ?ys) = Some (s, b)" by (simp only:)
  have "m \<le> length cs" using assms(3) t m by simp
  then have "0x7d \<in> set ?ys" by (simp add: drop_append)
  moreover have "\<not> is_space 0x7d" by (simp add: is_space_def)
  ultimately have "\<not> list_all is_space ?ys" unfolding list_all_iff by blast
  from stream_from_cut [OF phase _ _ run this] have "stream_from ?s ?b ?xs = StreamMore" by (simp add: scan_start_def)
  moreover have "take n (?t @ [0x0a]) = 0x7b # ?xs" using t m \<open>m \<le> length cs\<close> by simp
  ultimately show ?thesis
    using step by (simp add: stream_value_def scan_start_def)
qed

end
