(* ===== verification/Json_Rpc.thy ===== *)
theory Json_Rpc
  imports Json_Stream Json_Values
begin

text \<open>
  The standard library's \<open>net/rpc\<close> with the codec of \<open>net/rpc/jsonrpc\<close>, as far as the sources use it: the
  text of a request and of a response, how the server finds the method and reads its argument, and how
  the client reads the response.
\<close>

section \<open>Headers\<close>

definition quoted :: "string \<Rightarrow> bytes" where
  "quoted n = quote_string (ascii n)"

definition null_json :: json where
  "null_json = JLit null_lit"

definition not_null :: "json \<Rightarrow> json option" where
  "not_null x = (if x = null_json then None else Some x)"

text \<open>
  Both headers have one typed member and two members that are kept as they are (\<open>*json.RawMessage\<close> and
  \<open>interface{}\<close>, which \<open>null\<close> makes nil).
\<close>

fun header_members ::
  "(string \<times> go_type) list \<Rightarrow> (bytes \<times> json) list \<Rightarrow> go_val \<Rightarrow> json option \<Rightarrow> json option \<Rightarrow> go_error option \<Rightarrow>
   ((go_val \<times> json option \<times> json option) \<times> go_error option) go" where
  "header_members fs [] v a b saved = Ret ((v, a, b), saved)"
| "header_members fs (kv # kvs) v a b saved =
     (case unquoteBytes (fst kv) of
        None \<Rightarrow> Panic phasePanic
      | Some key \<Rightarrow>
          (case find_field fs key of
             None \<Rightarrow> header_members fs kvs v a b saved
           | Some i \<Rightarrow>
               if i = 0 then
                 go_bind (decode_value (snd kv) (snd (fs ! 0)) v saved) (\<lambda>(v', saved').
                   header_members fs kvs v' a b saved')
               else if i = 1 then header_members fs kvs v (not_null (snd kv)) b saved
               else header_members fs kvs v a (not_null (snd kv)) saved))"

definition header ::
  "(string \<times> go_type) list \<Rightarrow> json \<Rightarrow> ((go_val \<times> json option \<times> json option) \<times> go_error option) go" where
  "header fs j =
     (let z = zero_value (snd (fs ! 0))
      in case j of
           JObj kvs \<Rightarrow> header_members fs kvs z None None None
         | _ \<Rightarrow> map_go (\<lambda>(_, err). ((z, None, None), err)) (decode_value j (StructT fs) (StructV []) None))"

definition serverRequest :: "(string \<times> go_type) list" where
  "serverRequest = [(''method'', StringT), (''params'', StringT), (''id'', StringT)]"

definition clientResponse :: "(string \<times> go_type) list" where
  "clientResponse = [(''id'', UintT 64), (''result'', StringT), (''error'', StringT)]"

section \<open>Texts\<close>

definition newline :: bytes where "newline = [0x0a]"

text \<open>A client makes one call, with the sequence number 0.\<close>

definition request_json :: "string \<Rightarrow> json \<Rightarrow> json" where
  "request_json method arg =
     JObj [(quoted ''method'', JLit (quoted method)), (quoted ''params'', JArr [arg]), (quoted ''id'', JLit (ascii (decimal 0)))]"

definition rpc_request_text :: "string \<Rightarrow> json \<Rightarrow> bytes" where
  "rpc_request_text method arg = json_text (request_json method arg) @ newline"

definition response_json :: "json option \<Rightarrow> string + json \<Rightarrow> json" where
  "response_json rid reply =
     JObj [(quoted ''id'', case rid of None \<Rightarrow> null_json | Some i \<Rightarrow> i),
           (quoted ''result'', case reply of Inl _ \<Rightarrow> null_json | Inr r \<Rightarrow> r),
           (quoted ''error'', case reply of Inl e \<Rightarrow> JLit (quoted e) | Inr _ \<Rightarrow> null_json)]"

definition rpc_response_text :: "json option \<Rightarrow> string + json \<Rightarrow> bytes" where
  "rpc_response_text rid reply = json_text (response_json rid reply) @ newline"

section \<open>The server\<close>

text \<open>The service and the method are what stands before and behind the last dot.\<close>

definition last_dot :: "string \<Rightarrow> (string \<times> string) option" where
  "last_dot s =
     (if CHR ''.'' \<in> set s
      then (let r = rev s; m = takeWhile (\<lambda>c. c \<noteq> CHR ''.'') r
            in Some (rev (drop (Suc (length m)) r), rev m))
      else None)"

definition find_method :: "string \<Rightarrow> string list \<Rightarrow> string \<Rightarrow> string + string" where
  "find_method service methods name =
     (case last_dot name of
        None \<Rightarrow> Inl (''rpc: service/method request ill-formed: '' @ name)
      | Some (svc, m) \<Rightarrow>
          if svc \<noteq> service then Inl (''rpc: can't find service '' @ name)
          else if m \<notin> set methods then Inl (''rpc: can't find method '' @ name)
          else Inr m)"

text \<open>The argument is the first element of \<open>params\<close>.\<close>

definition read_params :: "json option \<Rightarrow> go_type \<Rightarrow> (go_val \<times> go_error option) go" where
  "read_params params t =
     (case params of
        None \<Rightarrow> Ret (zero_value t, Some (Errorf ''jsonrpc: request body missing params'' []))
      | Some j \<Rightarrow>
          (case j of
             JArr (x # _) \<Rightarrow> decode_value x t (zero_value t) None
           | JArr [] \<Rightarrow> Ret (zero_value t, None)
           | JLit l \<Rightarrow> decode_value j (StructT []) (StructV []) None
           | JObj _ \<Rightarrow> Ret (zero_value t, Some (UnmarshalTypeError ''object''))))"

text \<open>
  One request: \<open>argT\<close> gives the type of a method's argument and \<open>call\<close> runs the method on the state, with
  the reply or the text of its error.  A text that is not a request is not answered.
\<close>

definition rpc_serve ::
  "string \<Rightarrow> string list \<Rightarrow> (string \<Rightarrow> go_type) \<Rightarrow> (string \<Rightarrow> go_val \<Rightarrow> 's \<Rightarrow> (string + json) \<times> 's) \<Rightarrow>
   bytes \<Rightarrow> 's \<Rightarrow> (bytes \<times> 's) go" where
  "rpc_serve service methods argT call request s =
     (case stream_value request of
        StreamMore \<Rightarrow> Ret ([], s)
      | StreamBad \<Rightarrow> Ret ([], s)
      | StreamValue j \<Rightarrow>
          go_bind (header serverRequest j) (\<lambda>((name, params, rid), err).
            case err of
              Some _ \<Rightarrow> Ret ([], s)
            | None \<Rightarrow>
                (case find_method service methods (chars (val_string name)) of
                   Inl e \<Rightarrow> Ret (rpc_response_text rid (Inl e), s)
                 | Inr m \<Rightarrow>
                     go_bind (read_params params (argT m)) (\<lambda>(arg, perr).
                       case perr of
                         Some e \<Rightarrow> Ret (rpc_response_text rid (Inl (error_text e)), s)
                       | None \<Rightarrow> let (reply, s') = call m arg s in Ret (rpc_response_text rid reply, s')))))"

section \<open>The client\<close>

text \<open>
  What a call returns for the bytes that were read, and what becomes of its destination: the input loop
  ends with \<open>io.ErrUnexpectedEOF\<close> when the bytes are not a whole response or the response is not for this
  call.  \<open>destT\<close> is \<^const>\<open>None\<close> for a destination that takes any value.
\<close>

definition rpc_result :: "bytes \<Rightarrow> go_type option \<Rightarrow> go_val \<Rightarrow> (go_error option \<times> go_val) go" where
  "rpc_result chunk destT dest =
     (case stream_value chunk of
        StreamMore \<Rightarrow> Ret (Some io_ErrUnexpectedEOF, dest)
      | StreamBad \<Rightarrow> Ret (Some SyntaxError, dest)
      | StreamValue j \<Rightarrow>
          go_bind (header clientResponse j) (\<lambda>((seq, res, err), derr).
            case derr of
              Some e \<Rightarrow> Ret (Some e, dest)
            | None \<Rightarrow>
                if err \<noteq> None \<or> res = None then
                  (case err of
                     Some (JLit l) \<Rightarrow>
                       (case unquoteBytes l of
                          None \<Rightarrow> Ret (Some (Errorf ''invalid error'' []), dest)
                        | Some x \<Rightarrow>
                            if seq \<noteq> UintV 0 then Ret (Some io_ErrUnexpectedEOF, dest)
                            else Ret (Some (ServerError (if x = [] then ''unspecified error'' else chars x)), dest))
                   | _ \<Rightarrow> Ret (Some (Errorf ''invalid error'' []), dest))
                else if seq \<noteq> UintV 0 then Ret (Some io_ErrUnexpectedEOF, dest)
                else
                  (case destT of
                     None \<Rightarrow> Ret (None, dest)
                   | Some t \<Rightarrow>
                       go_bind (decode_value (the res) t dest None) (\<lambda>(dest', berr).
                         case berr of
                           Some e \<Rightarrow> Ret (Some (Errorf (''reading body '' @ error_text e) []), dest')
                         | None \<Rightarrow> Ret (None, dest')))))"

section \<open>A request reaches its method, a reply reaches its caller\<close>

lemma header_names:
  "valid_utf8 (ascii ''method'')" "valid_utf8 (ascii ''params'')" "valid_utf8 (ascii ''id'')"
  "valid_utf8 (ascii ''result'')" "valid_utf8 (ascii ''error'')"
  by code_simp+

lemma serverRequest_fields:
  "find_field serverRequest (ascii ''method'') = Some 0" "find_field serverRequest (ascii ''params'') = Some 1"
  "find_field serverRequest (ascii ''id'') = Some 2"
  by code_simp+

lemma clientResponse_fields:
  "find_field clientResponse (ascii ''id'') = Some 0" "find_field clientResponse (ascii ''result'') = Some 1"
  "find_field clientResponse (ascii ''error'') = Some 2"
  by code_simp+

lemma header_member:
  "valid_utf8 (ascii n) \<Longrightarrow>
   header_members fs ((quoted n, x) # kvs) v a b saved =
     (case find_field fs (ascii n) of
        None \<Rightarrow> header_members fs kvs v a b saved
      | Some i \<Rightarrow>
          if i = 0 then
            go_bind (decode_value x (snd (fs ! 0)) v saved) (\<lambda>(v', saved'). header_members fs kvs v' a b saved')
          else if i = 1 then header_members fs kvs v (not_null x) b saved
          else header_members fs kvs v a (not_null x) saved)"
  by (simp add: unquote_quote_string quoted_def split: option.split)

lemma request_header:
  assumes "valid_utf8 (ascii method)"
  shows "header serverRequest (request_json method arg) =
    Ret ((StringV (ascii method), Some (JArr [arg]), Some (JLit (ascii (decimal 0)))), None)"
proof -
  have "decode_value (JLit (quoted method)) StringT (StringV []) None = Ret (StringV (ascii method), None)"
    using literalStore_string [OF assms] by (simp add: quoted_def)
  moreover have "JLit (ascii (decimal 0)) \<noteq> null_json" "snd (serverRequest ! 0) = StringT"
    by (simp_all add: null_json_def null_lit_def ascii_decimal serverRequest_def)
  ultimately show ?thesis
    by (simp add: header_def request_json_def header_member header_names serverRequest_fields not_null_def null_json_def
        del: header_members.simps(2) decode_value.simps(1))
qed

lemma response_header:
  assumes "rid = JLit (ascii (decimal 0))"
  shows "header clientResponse (response_json (Some rid) reply) =
    Ret ((UintV 0, (case reply of Inl _ \<Rightarrow> None | Inr r \<Rightarrow> not_null r),
          (case reply of Inl e \<Rightarrow> Some (JLit (quoted e)) | Inr _ \<Rightarrow> None)), None)"
proof -
  have "decode_value rid (UintT 64) (UintV 0) None = Ret (UintV 0, None)"
    using literalStore_number [of 0 64] assms by simp
  moreover have "JLit (quoted e) \<noteq> null_json" for e
    by (simp add: null_json_def null_lit_def quoted_def quote_string_def)
  moreover have "snd (clientResponse ! 0) = UintT 64" by (simp add: clientResponse_def)
  ultimately show ?thesis
    by (cases reply) (simp_all add: header_def response_json_def header_member header_names clientResponse_fields not_null_def
        del: header_members.simps(2) decode_value.simps(1))
qed

lemma quoted_lit: "string_lit (quoted n)"
  by (simp add: quoted_def quote_string_lit)

lemma request_printed: "json_printed arg \<Longrightarrow> json_printed (request_json method arg)"
  by (simp add: request_json_def quoted_lit printed_lit_def decimal_nat_lit)

lemma response_printed:
  "json_printed rid \<Longrightarrow> (\<And>r. reply = Inr r \<Longrightarrow> json_printed r) \<Longrightarrow> json_printed (response_json (Some rid) reply)"
  by (cases reply) (simp_all add: response_json_def quoted_lit printed_lit_def null_json_def)

lemma request_depth: "json_depth arg \<le> 9000 \<Longrightarrow> json_depth (request_json method arg) \<le> maxNestingDepth"
  by (simp add: request_json_def maxNestingDepth_def)

lemma response_depth:
  "json_depth rid = 0 \<Longrightarrow> (\<And>r. reply = Inr r \<Longrightarrow> json_depth r \<le> 9000) \<Longrightarrow>
   json_depth (response_json (Some rid) reply) \<le> maxNestingDepth"
  by (cases reply) (simp_all add: response_json_def maxNestingDepth_def null_json_def)

text \<open>The server carries out the request and answers with its id.\<close>

lemma rpc_serve_request:
  assumes "valid_utf8 (ascii name)" "find_method service methods name = Inr m" "json_printed arg" "json_depth arg \<le> 9000"
    and "decode_value arg (argT m) (zero_value (argT m)) None = Ret (v, None)" "call m v s = (reply, s')"
  shows "rpc_serve service methods argT call (rpc_request_text name arg) s =
    Ret (rpc_response_text (Some (JLit (ascii (decimal 0)))) reply, s')"
  using stream_value_text [OF request_printed [OF assms(3)] request_depth [OF assms(4)], of name]
    request_header [OF assms(1), of arg] assms(2,5,6)
  by (simp add: rpc_serve_def rpc_request_text_def newline_def val_string_def chars_ascii read_params_def)

text \<open>
  A client whose buffer has room for the response (the newline behind it may be cut off) reads it as the
  reply or as the error of the server.
\<close>

lemma rpc_result_response:
  assumes "\<And>r. reply = Inr r \<Longrightarrow> json_printed r \<and> json_depth r \<le> 9000 \<and> r \<noteq> null_json"
    and "\<And>e. reply = Inl e \<Longrightarrow> valid_utf8 (ascii e) \<and> e \<noteq> []"
    and "length (json_text (response_json (Some (JLit (ascii (decimal 0)))) reply)) \<le> n"
  shows "rpc_result (take n (rpc_response_text (Some (JLit (ascii (decimal 0)))) reply)) destT dest =
    (case reply of
       Inl e \<Rightarrow> Ret (Some (ServerError e), dest)
     | Inr r \<Rightarrow>
         (case destT of
            None \<Rightarrow> Ret (None, dest)
          | Some t \<Rightarrow>
              go_bind (decode_value r t dest None) (\<lambda>(dest', berr).
                case berr of
                  Some e \<Rightarrow> Ret (Some (Errorf (''reading body '' @ error_text e) []), dest')
                | None \<Rightarrow> Ret (None, dest'))))"
proof -
  let ?rid = "JLit (ascii (decimal 0))"
  have printed: "json_printed (response_json (Some ?rid) reply)"
    using assms(1) by (intro response_printed) (auto simp: printed_lit_def decimal_nat_lit)
  have depth: "json_depth (response_json (Some ?rid) reply) \<le> maxNestingDepth"
    using assms(1) by (intro response_depth) auto
  have stream: "stream_value (take n (rpc_response_text (Some ?rid) reply)) = StreamValue (response_json (Some ?rid) reply)"
    using stream_value_take [OF printed depth assms(3)] by (simp add: rpc_response_text_def newline_def)
  show ?thesis
  proof (cases reply)
    case (Inl e)
    with assms(2) [OF Inl] have "unquoteBytes (quoted e) = Some (ascii e)" "ascii e \<noteq> []"
      by (auto simp: quoted_def unquote_quote_string ascii_def)
    with Inl stream response_header [of ?rid reply] show ?thesis
      by (simp add: rpc_result_def chars_ascii)
  next
    case (Inr r)
    with assms(1) [OF Inr] stream response_header [of ?rid reply] show ?thesis
      by (simp add: rpc_result_def not_null_def cong: option.case_cong)
  qed
qed

text \<open>A response that does not fit the buffer is not recognised; the destination is untouched.\<close>

lemma rpc_result_cut:
  assumes "json_printed (response_json rid reply)" "json_depth (response_json rid reply) \<le> maxNestingDepth"
    and "n < length (json_text (response_json rid reply))" "0 < n"
  shows "rpc_result (take n (rpc_response_text rid reply)) destT dest = Ret (Some io_ErrUnexpectedEOF, dest)"
proof -
  obtain kvs where "response_json rid reply = JObj kvs" by (simp add: response_json_def)
  with stream_value_cut [of kvs n] assms show ?thesis
    by (simp add: rpc_result_def rpc_response_text_def newline_def)
qed

end
