(* ===== verification/Nonsecure_Syscall.thy ===== *)
theory Nonsecure_Syscall
  imports Tz Json_Rpc
begin

text \<open>
  The nonsecure world's side of a remote call (\<open>src/tee/trusted_os/nonsecuresyscall/\<close>): the stream over
  system calls, the disposable client on it, and how the system calls reach the trusted OS.  The
  JSON-RPC client and server are those of \<open>Json_Rpc\<close>.
\<close>

section \<open>System calls\<close>

definition ns_SYS_EXIT :: uint32 where "ns_SYS_EXIT = 0"
definition ns_SYS_WRITE :: uint32 where "ns_SYS_WRITE = 1"
definition ns_SYS_NANOTIME :: uint32 where "ns_SYS_NANOTIME = 2"
definition ns_SYS_GETRANDOM :: uint32 where "ns_SYS_GETRANDOM = 3"
definition ns_SYS_RPC_REQ :: uint32 where "ns_SYS_RPC_REQ = 4"
definition ns_SYS_RPC_RES :: uint32 where "ns_SYS_RPC_RES = 5"

text \<open>
  The two functions written in assembly: \<open>ns_Read trap n\<close> gives the bytes that were transferred into a
  buffer of \<open>n\<close> bytes, \<open>ns_Write trap p\<close> hands over \<open>p\<close>.
\<close>

record 's ns_syscalls =
  ns_Read :: "uint32 \<Rightarrow> nat \<Rightarrow> 's \<Rightarrow> (bytes \<times> 's) go"
  ns_Write :: "uint32 \<Rightarrow> bytes \<Rightarrow> 's \<Rightarrow> 's go"

definition ns_GetRandom :: "'s ns_syscalls \<Rightarrow> bytes \<Rightarrow> 's \<Rightarrow> 's go" where
  "ns_GetRandom sv b s = ns_Write sv ns_SYS_GETRANDOM b s"

section \<open>The stream and the client\<close>

record Stream =
  ReadSyscall :: uint32
  WriteSyscall :: uint32

definition Stream_Read :: "'s ns_syscalls \<Rightarrow> Stream \<Rightarrow> nat \<Rightarrow> 's \<Rightarrow> ((bytes \<times> go_error option) \<times> 's) go" where
  "Stream_Read sv st n s = go_bind (ns_Read sv (ReadSyscall st) n s) (\<lambda>(p, s'). Ret ((p, Some io_EOF), s'))"

definition Stream_Write :: "'s ns_syscalls \<Rightarrow> Stream \<Rightarrow> bytes \<Rightarrow> 's \<Rightarrow> ((nat \<times> go_error option) \<times> 's) go" where
  "Stream_Write sv st p s = go_bind (ns_Write sv (WriteSyscall st) p s) (\<lambda>s'. Ret ((length p, None), s'))"

definition Stream_Close :: "Stream \<Rightarrow> go_error option" where
  "Stream_Close st = None"

text \<open>The client is the JSON-RPC client over this stream.\<close>

definition NewClient :: Stream where
  "NewClient = \<lparr>ReadSyscall = ns_SYS_RPC_RES, WriteSyscall = ns_SYS_RPC_REQ\<rparr>"

text \<open>Arguments and destinations as JSON.\<close>

definition MailT :: go_type where
  "MailT = StructT [(''AppID'', uintT), (''Payload'', bytesT)]"

definition Mail_val :: "Mail \<Rightarrow> go_val" where
  "Mail_val m = StructV [word_val (AppID m), bytes_val (Payload m)]"

definition val_Mail :: "go_val \<Rightarrow> Mail" where
  "val_Mail v = \<lparr>AppID = val_word (field v 0), Payload = val_bytes (field v 1)\<rparr>"

fun arg_json :: "rpc_arg \<Rightarrow> json" where
  "arg_json (AppIDArg i) = marshal_value uintT (word_val i)"
| "arg_json (MailArg m) = marshal_value MailT (Mail_val m)"

fun dest_type :: "rpc_dest \<Rightarrow> go_type option" where
  "dest_type NilDest = None"
| "dest_type (MailDest m) = Some MailT"

fun dest_val :: "rpc_dest \<Rightarrow> go_val" where
  "dest_val NilDest = NilV"
| "dest_val (MailDest m) = Mail_val m"

fun filled_dest :: "rpc_dest \<Rightarrow> go_val \<Rightarrow> rpc_dest" where
  "filled_dest NilDest v = NilDest"
| "filled_dest (MailDest m) v = MailDest (val_Mail v)"

text \<open>
  A call writes the request, and the client's input loop reads once into the decoder's first buffer of
  512 bytes; the stream reports \<open>io.EOF\<close> with the data, so the decoder has to find a whole response there.
  Behind a response the loop reads a second time before it stops (a newline that is still buffered makes
  the decoder grow its buffer) and drops what it gets.  The target runs one thread: the request is written
  before the loop starts to read.
\<close>

definition minRead :: nat where "minRead = 512"

lemma minRead_small: "minRead < 2 ^ 32"
  by (simp add: minRead_def)

definition poll_size :: "bytes \<Rightarrow> nat" where
  "poll_size chunk = (if chunk \<noteq> [] \<and> last chunk = 0x0a then 1535 else 512)"

definition loop_goes_on :: "go_error option \<Rightarrow> bool" where
  "loop_goes_on err = (case err of None \<Rightarrow> True | Some e \<Rightarrow> (case e of ServerError m \<Rightarrow> True | _ \<Rightarrow> False))"

definition Call :: "'s ns_syscalls \<Rightarrow> 's rpcCallFunc" where
  "Call sv serviceMethod args reply s =
     go_bind (Stream_Write sv NewClient (rpc_request_text serviceMethod (arg_json args)) s) (\<lambda>(_, s1).
     go_bind (Stream_Read sv NewClient minRead s1) (\<lambda>((chunk, _), s2).
     go_bind (rpc_result chunk (dest_type reply) (dest_val reply)) (\<lambda>(err, v).
       if loop_goes_on err
       then go_bind (Stream_Read sv NewClient (poll_size chunk) s2) (\<lambda>(_, s3). Ret ((err, filled_dest reply v), s3))
       else Ret ((err, filled_dest reply v), s2))))"

section \<open>What a client relies on\<close>

text \<open>
  \<open>answers s req reply s'\<close>: in state \<open>s\<close> the supervisor answers the request with \<open>reply\<close>; once the reply has
  been taken the state is one with \<open>idle\<close>, related to \<open>s'\<close> by \<open>same\<close>.  \<open>holding s reply r\<close>: the reply waits,
  of which a read takes as much as fits; a rest that did not fit may be kept or dropped.
\<close>

locale rpc_supervisor =
  fixes sv :: "'s ns_syscalls"
    and answers :: "'s \<Rightarrow> bytes \<Rightarrow> bytes \<Rightarrow> 'c \<Rightarrow> bool"
    and holding :: "'s \<Rightarrow> bytes \<Rightarrow> 'c \<Rightarrow> bool"
  assumes request: "answers s req reply c \<Longrightarrow> \<exists>s1. ns_Write sv ns_SYS_RPC_REQ req s = Ret s1 \<and> holding s1 reply c"
    and response: "holding s reply c \<Longrightarrow> n < 2 ^ 32 \<Longrightarrow>
      \<exists>s1 rest. ns_Read sv ns_SYS_RPC_RES n s = Ret (take n reply, s1) \<and> holding s1 rest c \<and> rest \<in> {[], drop n reply}"
begin

text \<open>A reply that fits the first buffer reaches the caller, and nothing is left behind.\<close>

lemma Call_reply:
  assumes "answers s (rpc_request_text m (arg_json a)) (rpc_response_text rid reply) c"
    and "length (json_text (response_json rid reply)) \<le> minRead"
    and "rpc_result (take minRead (rpc_response_text rid reply)) (dest_type d) (dest_val d) = Ret (err, v)"
    and "loop_goes_on err"
  shows "\<exists>s'. Call sv m a d s = Ret ((err, filled_dest d v), s') \<and> holding s' [] c"
proof -
  let ?t = "rpc_response_text rid reply"
  from request [OF assms(1)] obtain s1 where s1: "ns_Write sv ns_SYS_RPC_REQ (rpc_request_text m (arg_json a)) s = Ret s1"
    "holding s1 ?t c" by blast
  from response [OF s1(2) minRead_small] obtain s2 rest where s2: "ns_Read sv ns_SYS_RPC_RES minRead s1 = Ret (take minRead ?t, s2)"
    "holding s2 rest c" "rest \<in> {[], drop minRead ?t}" by blast
  have "length rest \<le> 1"
    using s2(3) assms(2) by (auto simp: rpc_response_text_def newline_def)
  moreover have "1 \<le> poll_size (take minRead ?t)" by (simp add: poll_size_def)
  ultimately have gone: "drop (poll_size (take minRead ?t)) rest = []" by simp
  have "poll_size (take minRead ?t) < 2 ^ 32" by (simp add: poll_size_def)
  from response [OF s2(2) this] gone obtain s3 where
    "ns_Read sv ns_SYS_RPC_RES (poll_size (take minRead ?t)) s2 = Ret (take (poll_size (take minRead ?t)) rest, s3)"
    "holding s3 [] c" by auto
  with s1(1) s2(1) assms(3,4) show ?thesis
    by (simp add: Call_def NewClient_def Stream_Read_def Stream_Write_def)
qed

text \<open>A longer reply is taken from the supervisor and lost: the caller sees an unexpected end of file.\<close>

lemma Call_cut:
  assumes "answers s (rpc_request_text m (arg_json a)) (rpc_response_text rid reply) c"
    and "json_printed (response_json rid reply)" "json_depth (response_json rid reply) \<le> maxNestingDepth"
    and "minRead < length (json_text (response_json rid reply))"
  shows "\<exists>s' rest. Call sv m a d s = Ret ((Some io_ErrUnexpectedEOF, filled_dest d (dest_val d)), s') \<and> holding s' rest c"
proof -
  let ?t = "rpc_response_text rid reply"
  from request [OF assms(1)] obtain s1 where s1: "ns_Write sv ns_SYS_RPC_REQ (rpc_request_text m (arg_json a)) s = Ret s1"
    "holding s1 ?t c" by blast
  from response [OF s1(2) minRead_small] obtain s2 rest where s2: "ns_Read sv ns_SYS_RPC_RES minRead s1 = Ret (take minRead ?t, s2)"
    "holding s2 rest c" by blast
  have "rpc_result (take minRead ?t) (dest_type d) (dest_val d) = Ret (Some io_ErrUnexpectedEOF, dest_val d)"
    using assms(2,3,4) by (intro rpc_result_cut) (simp_all add: minRead_def)
  with s1(1) s2 show ?thesis
    by (auto simp: Call_def NewClient_def Stream_Read_def Stream_Write_def loop_goes_on_def io_ErrUnexpectedEOF_def)
qed

end

end
