(* ===== verification/Tz_Rpc.thy ===== *)
theory Tz_Rpc
  imports Nonsecure_Syscall
begin

text \<open>
  A remote call across the worlds: the system calls of the nonsecure world enter \<open>nonsecureWorldHandler\<close>,
  the monitor serves the request on the registered receiver, the applets are dispatched, and the reply
  waits for the next system call.
\<close>

section \<open>The receiver of the nonsecure world\<close>

definition nonsecure_methods :: "string list" where
  "nonsecure_methods = [''RetrieveResult'', ''SendMail'']"

definition nonsecure_argT :: "string \<Rightarrow> go_type" where
  "nonsecure_argT m = (if m = ''SendMail'' then MailT else uintT)"

text \<open>\<open>net/rpc\<close> gives \<open>SendMail\<close> an empty slice as its reply, which stays as it is.\<close>

definition nonsecure_call :: "string \<Rightarrow> go_val \<Rightarrow> Context \<Rightarrow> (string + json) \<times> Context" where
  "nonsecure_call m arg c =
     (if m = ''SendMail'' then
        (case NonsecureRPC_SendMail c (val_Mail arg) of
           (Some e, c') \<Rightarrow> (Inl (error_text e), c')
         | (None, c') \<Rightarrow> (Inr (marshal_value bytesT (bytes_val [])), c'))
      else
        (case NonsecureRPC_RetrieveResult c (val_word arg) Mail_zero of
           ((Some e, _), c') \<Rightarrow> (Inl (error_text e), c')
         | ((None, out), c') \<Rightarrow> (Inr (marshal_value MailT (Mail_val out)), c')))"

definition NonsecureRPC_serve :: "bytes \<Rightarrow> Context \<Rightarrow> (bytes \<times> Context) go" where
  "NonsecureRPC_serve req c = rpc_serve ''NonsecureRPC'' nonsecure_methods nonsecure_argT nonsecure_call req c"

abbreviation rid0 :: json where
  "rid0 \<equiv> JLit (ascii (decimal 0))"

definition reply_text :: "string + json \<Rightarrow> bytes" where
  "reply_text reply = rpc_response_text (Some rid0) reply"

text \<open>The length that counts for the client's buffer: without the newline.\<close>

definition reply_size :: "string + json \<Rightarrow> nat" where
  "reply_size reply = length (json_text (response_json (Some rid0) reply))"

lemma Mail_fields: "valid_utf8 (ascii ''AppID'')" "valid_utf8 (ascii ''Payload'')"
  by code_simp+

lemma MailT_ok: "type_ok MailT" "type_depth MailT = 2"
  by (simp_all add: MailT_def bytesT_def uintT_def Mail_fields) (simp add: ascii_def)

lemma Mail_typed: "has_type MailT (Mail_val m)" "texts_ok (Mail_val m)"
  using uint32_bound [of "AppID m"] byte_vals_typed
  by (auto simp: MailT_def Mail_val_def uintT_def bytesT_def word_val_def bytes_val_def byte_vals_def)

lemma val_Mail_val [simp]: "val_Mail (Mail_val m) = m"
  by (simp add: val_Mail_def Mail_val_def field_simps_struct val_bytes_def bytes_val_def val_elems_def vals_byte_vals)

lemma val_Mail_visible: "val_Mail (visible v) = val_Mail v"
  by (simp add: val_Mail_def field_visible readers_visible val_bytes_def vals_bytes_visible)

lemma decode_Mail:
  assumes "has_type MailT z"
  shows "\<exists>v. decode_value (marshal_value MailT (Mail_val m)) MailT z None = Ret (v, None) \<and> val_Mail v = m"
proof -
  from decode_marshal(1) [OF Mail_typed(1) MailT_ok(1) Mail_typed(2) assms] obtain u where
    u: "decode_value (marshal_value MailT (Mail_val m)) MailT z None = Ret (u, None)" "visible u = visible (Mail_val m)"
    by blast
  from u(2) have "val_Mail u = m" using val_Mail_visible [of u] val_Mail_visible [of "Mail_val m"] by simp
  with u(1) show ?thesis by blast
qed

lemma method_names:
  "valid_utf8 (ascii ''NonsecureRPC.SendMail'')" "valid_utf8 (ascii ''NonsecureRPC.RetrieveResult'')"
  "find_method ''NonsecureRPC'' nonsecure_methods ''NonsecureRPC.SendMail'' = Inr ''SendMail''"
  "find_method ''NonsecureRPC'' nonsecure_methods ''NonsecureRPC.RetrieveResult'' = Inr ''RetrieveResult''"
  by code_simp+

lemma arg_json_ok: "json_printed (arg_json a)" "json_depth (arg_json a) \<le> 9000"
proof -
  show "json_printed (arg_json a)" by (cases a) (simp_all add: marshal_printed(1))
  show "json_depth (arg_json a) \<le> 9000"
  proof (cases a)
    case (AppIDArg i)
    then show ?thesis by (simp add: uintT_def word_val_def)
  next
    case (MailArg m)
    with marshal_depth(1) [of MailT "Mail_val m"] show ?thesis by (simp add: MailT_ok(2))
  qed
qed

lemma serve_SendMail:
  assumes "NonsecureRPC_SendMail c m = (err, c')"
  shows "NonsecureRPC_serve (rpc_request_text ''NonsecureRPC.SendMail'' (arg_json (MailArg m))) c =
    Ret (reply_text (case err of Some e \<Rightarrow> Inl (error_text e) | None \<Rightarrow> Inr (marshal_value bytesT (bytes_val []))), c')"
proof -
  obtain v where v: "decode_value (arg_json (MailArg m)) MailT (zero_value MailT) None = Ret (v, None)" "val_Mail v = m"
    using decode_Mail [OF zero_typed] by auto
  then have "nonsecure_call ''SendMail'' v c =
      (case err of Some e \<Rightarrow> Inl (error_text e) | None \<Rightarrow> Inr (marshal_value bytesT (bytes_val [])), c')"
    using assms by (simp add: nonsecure_call_def split: option.split)
  with rpc_serve_request [where argT = nonsecure_argT, OF method_names(1,3) arg_json_ok] v show ?thesis
    by (simp add: NonsecureRPC_serve_def nonsecure_argT_def reply_text_def del: arg_json.simps)
qed

lemma serve_RetrieveResult:
  assumes "NonsecureRPC_RetrieveResult c i Mail_zero = ((err, out), c')"
  shows "NonsecureRPC_serve (rpc_request_text ''NonsecureRPC.RetrieveResult'' (arg_json (AppIDArg i))) c =
    Ret (reply_text (case err of Some e \<Rightarrow> Inl (error_text e) | None \<Rightarrow> Inr (marshal_value MailT (Mail_val out))), c')"
proof -
  have v: "decode_value (arg_json (AppIDArg i)) uintT (zero_value uintT) None = Ret (word_val i, None)"
    by (simp add: uintT_def decode_uint32)
  have "nonsecure_call ''RetrieveResult'' (word_val i) c =
      (case err of Some e \<Rightarrow> Inl (error_text e) | None \<Rightarrow> Inr (marshal_value MailT (Mail_val out)), c')"
    using assms by (simp add: nonsecure_call_def split: option.split)
  with rpc_serve_request [where argT = nonsecure_argT, OF method_names(2,4) arg_json_ok] v show ?thesis
    by (simp add: NonsecureRPC_serve_def nonsecure_argT_def reply_text_def del: arg_json.simps)
qed

section \<open>System calls reach the handler\<close>

text \<open>
  The machine below the nonsecure world: where a buffer is placed, what memory holds, the register \<open>R2\<close>
  after a call, and the reply the monitor keeps for the next read.
\<close>

record 'w ns_machine =
  ns_place :: "bytes \<Rightarrow> 'w \<Rightarrow> uint32 \<times> 'w"
  ns_load :: "uint32 \<Rightarrow> nat \<Rightarrow> 'w \<Rightarrow> bytes"
  ns_R2 :: "'w \<Rightarrow> uint32"
  ns_waiting :: "'w \<Rightarrow> bytes"

text \<open>
  \<open>smc\<close> with the registers the assembly loads; an error of the handler ends the run of the nonsecure world,
  which \<open>run\<close> turns into a panic.
\<close>

definition smc ::
  "'w teelib \<Rightarrow> 'w ns_machine \<Rightarrow> app_id list \<Rightarrow> uint32 \<Rightarrow> bytes \<Rightarrow> Context \<times> 'w \<Rightarrow> (uint32 \<times> Context \<times> 'w) go" where
  "smc lib M keys trap p s =
     (let (c, w) = s;
          (addr, w1) = ns_place M p w;
          x = (NonsecureWorld c)\<lparr>ex_R0 := trap, ex_R1 := addr, ex_R2 := of_nat (length p)\<rparr>
      in go_bind (nonsecureWorldHandler lib keys x c w1) (\<lambda>(err, c2, w2).
           if err = None then Ret (addr, c2, w2) else Panic (ExplicitPanic ''run'')))"

definition smc_syscalls :: "'w teelib \<Rightarrow> 'w ns_machine \<Rightarrow> app_id list \<Rightarrow> (Context \<times> 'w) ns_syscalls" where
  "smc_syscalls lib M keys = \<lparr>
     ns_Read = (\<lambda>trap n s.
       go_bind (smc lib M keys trap (replicate n 0) s) (\<lambda>(addr, c2, w2).
         Ret (take (unat (ns_R2 M w2)) (ns_load M addr n w2), c2, w2))),
     ns_Write = (\<lambda>trap p s. go_bind (smc lib M keys trap p s) (\<lambda>(_, s2). Ret s2))\<rparr>"

text \<open>
  What the code relies on of the monitor: the numbers of the two calls, that a request the client has written is
  served on the registered receiver and its reply kept, and that a read into a buffer the client has cleared takes
  what fits of the reply.  Memory keeps what is placed in it.
\<close>

definition client_request :: "bytes \<Rightarrow> bool" where
  "client_request req \<longleftrightarrow> (\<exists>m a. req = rpc_request_text m (arg_json a))"

definition monitor_rpc :: "'w teelib \<Rightarrow> 'w ns_machine \<Rightarrow> bool" where
  "monitor_rpc lib M \<longleftrightarrow>
     SYS_RPC_REQ lib = ns_SYS_RPC_REQ \<and> SYS_RPC_RES lib = ns_SYS_RPC_RES \<and>
     (\<forall>p w. length p < 2 ^ 32 \<longrightarrow>
        ns_load M (fst (ns_place M p w)) (length p) (snd (ns_place M p w)) = p \<and>
        ns_waiting M (snd (ns_place M p w)) = ns_waiting M w) \<and>
     (\<forall>x c w reply c1.
        ex_Server x = NonsecureReceiver \<longrightarrow> ex_R0 x = SYS_RPC_REQ lib \<longrightarrow> ns_waiting M w = [] \<longrightarrow>
        client_request (ns_load M (ex_R1 x) (unat (ex_R2 x)) w) \<longrightarrow>
        NonsecureRPC_serve (ns_load M (ex_R1 x) (unat (ex_R2 x)) w) c = Ret (reply, c1) \<longrightarrow>
        (\<exists>w1. monitor_SecureHandler lib x c w = Ret (None, c1, w1) \<and> ns_waiting M w1 = reply)) \<and>
     (\<forall>x c w.
        ex_Server x = NonsecureReceiver \<longrightarrow> ex_R0 x = SYS_RPC_RES lib \<longrightarrow>
        ns_load M (ex_R1 x) (unat (ex_R2 x)) w = replicate (unat (ex_R2 x)) 0 \<longrightarrow>
        (\<exists>w1. monitor_SecureHandler lib x c w = Ret (None, c, w1) \<and>
           take (unat (ns_R2 M w1)) (ns_load M (ex_R1 x) (unat (ex_R2 x)) w1) = take (unat (ex_R2 x)) (ns_waiting M w) \<and>
           ns_waiting M w1 \<in> {[], drop (unat (ex_R2 x)) (ns_waiting M w)}))"

lemma monitor_place:
  assumes "monitor_rpc lib M" "length p < 2 ^ 32" "ns_place M p w = (addr, w1)"
  shows "ns_load M addr (length p) w1 = p" "ns_waiting M w1 = ns_waiting M w"
proof -
  from assms(1,2) have "ns_load M (fst (ns_place M p w)) (length p) (snd (ns_place M p w)) = p \<and>
      ns_waiting M (snd (ns_place M p w)) = ns_waiting M w" unfolding monitor_rpc_def by blast
  with assms(3) show "ns_load M addr (length p) w1 = p" "ns_waiting M w1 = ns_waiting M w" by simp_all
qed

lemma monitor_request:
  assumes "monitor_rpc lib M" "ex_Server x = NonsecureReceiver" "ex_R0 x = SYS_RPC_REQ lib" "ns_waiting M w = []"
    and "client_request (ns_load M (ex_R1 x) (unat (ex_R2 x)) w)"
    and "NonsecureRPC_serve (ns_load M (ex_R1 x) (unat (ex_R2 x)) w) c = Ret (reply, c1)"
  shows "\<exists>w1. monitor_SecureHandler lib x c w = Ret (None, c1, w1) \<and> ns_waiting M w1 = reply"
  using assms unfolding monitor_rpc_def by blast

lemma monitor_response:
  assumes "monitor_rpc lib M" "ex_Server x = NonsecureReceiver" "ex_R0 x = SYS_RPC_RES lib"
    and "ns_load M (ex_R1 x) (unat (ex_R2 x)) w = replicate (unat (ex_R2 x)) 0"
  shows "\<exists>w1. monitor_SecureHandler lib x c w = Ret (None, c, w1) \<and>
    take (unat (ns_R2 M w1)) (ns_load M (ex_R1 x) (unat (ex_R2 x)) w1) = take (unat (ex_R2 x)) (ns_waiting M w) \<and>
    ns_waiting M w1 \<in> {[], drop (unat (ex_R2 x)) (ns_waiting M w)}"
  using assms unfolding monitor_rpc_def by blast

lemma monitor_numbers:
  "monitor_rpc lib M \<Longrightarrow> SYS_RPC_REQ lib = ns_SYS_RPC_REQ \<and> SYS_RPC_RES lib = ns_SYS_RPC_RES"
  by (simp add: monitor_rpc_def)

text \<open>Loading and running applets leaves the reply alone that waits for the nonsecure world.\<close>

definition applets_apart :: "'w teelib \<Rightarrow> 'w ns_machine \<Rightarrow> bool" where
  "applets_apart lib M \<longleftrightarrow>
     (\<forall>img w. ns_waiting M (snd (elf_Load lib img w)) = ns_waiting M w) \<and>
     (\<forall>e r w. ns_waiting M (snd (monitor_Load lib e r True w)) = ns_waiting M w) \<and>
     (\<forall>x c w err x' c' w'. ex_Server x = SecureReceiver \<longrightarrow>
        exec_Run lib x c w = Ret (err, x', c', w') \<longrightarrow> ns_waiting M w' = ns_waiting M w)"

lemma loadTA_apart:
  assumes "applets_apart lib M" "loadTA lib c i w = (r, w')"
  shows "ns_waiting M w' = ns_waiting M w" "r = Inr ta \<Longrightarrow> ex_Server ta = SecureReceiver"
  using assms
  by (auto simp: loadTA_def applets_apart_def split: option.splits prod.splits sum.splits) (metis snd_conv)+

lemma run_apart:
  assumes "applets_apart lib M" "ex_Server ta = SecureReceiver" "run lib ta c w = Ret (c', w')"
  shows "ns_waiting M w' = ns_waiting M w"
  using assms by (auto simp: run_def applets_apart_def Let_def split: option.splits if_splits elim!: go_bind_RetE)

lemma dispatch_apart:
  assumes "applets_apart lib M"
  shows "dispatchAppsCalls lib keys c w = Ret (c', w') \<Longrightarrow> ns_waiting M w' = ns_waiting M w"
proof (induction keys arbitrary: c w)
  case (Cons k keys)
  show ?case
  proof (cases "mailbox c k")
    case None
    with Cons show ?thesis by simp
  next
    case (Some m)
    with Cons.prems obtain ta w1 c2 w2 where load: "loadTA lib c k w = (Inr ta, w1)"
      and run: "run lib ta c w1 = Ret (c2, w2)" "dispatchAppsCalls lib keys c2 w2 = Ret (c', w')"
      by (auto split: prod.splits sum.splits elim!: go_bind_RetE)
    from loadTA_apart [OF assms load] run_apart [OF assms _ run(1)] Cons.IH [OF run(2)] show ?thesis by simp
  qed
qed simp

lemma dispatch_idle: "mailbox c = Map.empty \<Longrightarrow> dispatchAppsCalls lib keys c w = Ret (c, w)"
  by (induction keys) simp_all

text \<open>
  A request is answered when the monitor serves it and the dispatch that follows ends, in one of the
  contexts \<open>C\<close>, without mail left over.
\<close>

definition smc_holding :: "'w teelib \<Rightarrow> 'w ns_machine \<Rightarrow> Context \<times> 'w \<Rightarrow> bytes \<Rightarrow> Context set \<Rightarrow> bool" where
  "smc_holding lib M s reply C \<longleftrightarrow>
     monitor_rpc lib M \<and> fst s \<in> C \<and> mailbox (fst s) = Map.empty \<and>
     ex_Server (NonsecureWorld (fst s)) = NonsecureReceiver \<and> ns_waiting M (snd s) = reply"

definition smc_answers ::
  "'w teelib \<Rightarrow> 'w ns_machine \<Rightarrow> app_id list \<Rightarrow> Context \<times> 'w \<Rightarrow> bytes \<Rightarrow> bytes \<Rightarrow> Context set \<Rightarrow> bool" where
  "smc_answers lib M keys s req reply C \<longleftrightarrow>
     monitor_rpc lib M \<and> applets_apart lib M \<and> client_request req \<and> length req < 2 ^ 32 \<and> ns_waiting M (snd s) = [] \<and>
     ex_Server (NonsecureWorld (fst s)) = NonsecureReceiver \<and>
     (\<exists>c1. NonsecureRPC_serve req (fst s) = Ret (reply, c1) \<and>
        (\<forall>w1. \<exists>c2 w2. dispatchAppsCalls lib keys c1 w1 = Ret (c2, w2) \<and> c2 \<in> C \<and> mailbox c2 = Map.empty \<and>
           ex_Server (NonsecureWorld c2) = NonsecureReceiver))"

lemma unat_length: "length p < 2 ^ 32 \<Longrightarrow> unat (of_nat (length p) :: uint32) = length p"
  by (simp add: unat_of_nat)

lemma smc_request:
  assumes "smc_answers lib M keys s req reply C"
  shows "\<exists>addr s1. smc lib M keys ns_SYS_RPC_REQ req s = Ret (addr, s1) \<and> smc_holding lib M s1 reply C"
proof -
  obtain c w where s: "s = (c, w)" by (cases s)
  obtain addr w1 where p: "ns_place M req w = (addr, w1)" by (cases "ns_place M req w")
  let ?x = "(NonsecureWorld c)\<lparr>ex_R0 := ns_SYS_RPC_REQ, ex_R1 := addr, ex_R2 := of_nat (length req)\<rparr>"
  from assms s have mon: "monitor_rpc lib M" and apart: "applets_apart lib M" and req: "client_request req" and len: "length req < 2 ^ 32"
    and idle: "ns_waiting M w = []" and srv: "ex_Server (NonsecureWorld c) = NonsecureReceiver"
    by (simp_all add: smc_answers_def)
  from assms s obtain c1 where serve: "NonsecureRPC_serve req c = Ret (reply, c1)"
    and disp: "\<And>w1. \<exists>c2 w2. dispatchAppsCalls lib keys c1 w1 = Ret (c2, w2) \<and> c2 \<in> C \<and> mailbox c2 = Map.empty \<and>
      ex_Server (NonsecureWorld c2) = NonsecureReceiver"
    by (auto simp: smc_answers_def)
  have mem: "ns_load M addr (length req) w1 = req" "ns_waiting M w1 = []"
    using monitor_place [OF mon len p] idle by simp_all
  obtain w2 where w2: "monitor_SecureHandler lib ?x c w1 = Ret (None, c1, w2)" "ns_waiting M w2 = reply"
    using monitor_request [OF mon, of ?x w1 c reply c1] mem srv serve req unat_length [OF len] monitor_numbers [OF mon] by auto
  obtain c3 w3 where d: "dispatchAppsCalls lib keys c1 w2 = Ret (c3, w3)" "c3 \<in> C" "mailbox c3 = Map.empty"
    "ex_Server (NonsecureWorld c3) = NonsecureReceiver" using disp by blast
  have "smc lib M keys ns_SYS_RPC_REQ req s = Ret (addr, c3, w3)"
    using s p w2(1) d(1) monitor_numbers [OF mon] by (simp add: smc_def nonsecureWorldHandler_def)
  with d(2-) w2(2) mon dispatch_apart [OF apart d(1)] show ?thesis
    by (simp add: smc_holding_def)
qed

lemma smc_response:
  assumes "smc_holding lib M s reply C" "n < 2 ^ 32"
  shows "\<exists>s1 rest. ns_Read (smc_syscalls lib M keys) ns_SYS_RPC_RES n s = Ret (take n reply, s1) \<and>
    smc_holding lib M s1 rest C \<and> rest \<in> {[], drop n reply}"
proof -
  obtain c w where s: "s = (c, w)" by (cases s)
  obtain addr w1 where p: "ns_place M (replicate n 0) w = (addr, w1)" by (cases "ns_place M (replicate n 0) w")
  let ?x = "(NonsecureWorld c)\<lparr>ex_R0 := ns_SYS_RPC_RES, ex_R1 := addr, ex_R2 := of_nat n\<rparr>"
  from assms s have mon: "monitor_rpc lib M" and C: "c \<in> C" and empty: "mailbox c = Map.empty"
    and reply: "ns_waiting M w = reply" and srv: "ex_Server (NonsecureWorld c) = NonsecureReceiver"
    by (simp_all add: smc_holding_def)
  have w1: "ns_waiting M w1 = reply" "ns_load M addr n w1 = replicate n 0"
    using monitor_place [OF mon _ p] reply assms(2) by simp_all
  have n: "unat (of_nat n :: uint32) = n" using unat_length [of "replicate n ()"] assms(2) by simp
  obtain w2 where w2: "monitor_SecureHandler lib ?x c w1 = Ret (None, c, w2)"
    "take (unat (ns_R2 M w2)) (ns_load M addr n w2) = take n reply" "ns_waiting M w2 \<in> {[], drop n reply}"
    using monitor_response [OF mon, of ?x w1 c] srv n w1 monitor_numbers [OF mon] by auto
  have "smc lib M keys ns_SYS_RPC_RES (replicate n 0) s = Ret (addr, c, w2)"
    using s p w2(1) monitor_numbers [OF mon] dispatch_idle [OF empty, of lib keys w2] by (simp add: smc_def nonsecureWorldHandler_def)
  with w2 C empty srv mon show ?thesis
    by (simp add: smc_syscalls_def smc_holding_def)
qed

interpretation smc: rpc_supervisor "smc_syscalls lib M keys" "smc_answers lib M keys" "smc_holding lib M"
  for lib :: "'w teelib" and M :: "'w ns_machine" and keys :: "app_id list"
proof
  fix s req reply C
  assume "smc_answers lib M keys s req reply C"
  from smc_request [OF this] show "\<exists>s1. ns_Write (smc_syscalls lib M keys) ns_SYS_RPC_REQ req s = Ret s1 \<and>
      smc_holding lib M s1 reply C"
    by (auto simp: smc_syscalls_def)
qed (rule smc_response)

section \<open>The stubs over these calls\<close>

lemma text_lengths:
  "length (quoted ''id'') = 4" "length (quoted ''result'') = 8" "length (quoted ''error'') = 7"
  "length (quote_string (ascii ''AppID'')) = 7" "length (quote_string (ascii ''Payload'')) = 9"
  "length (ascii (decimal 0)) = 1" "length (ascii (decimal 42)) = 2" "length null_lit = 4"
  by code_simp+

text \<open>The sizes of the replies: \<open>SendMail\<close> has a fixed one, \<open>RetrieveResult\<close> carries the payload in base64.\<close>

lemma SendMail_reply_size: "reply_size (Inr (marshal_value bytesT (bytes_val []))) = 33"
  by (simp add: reply_size_def response_json_def text_lengths null_json_def bytesT_def bytes_val_def byte_vals_def vals_bytes_def)

lemma RetrieveResult_reply_size:
  "reply_size (Inr (marshal_value MailT (Mail_val \<lparr>AppID = 42, Payload = p\<rparr>))) = 56 + (length p + 2) div 3 * 4"
  by (simp add: reply_size_def response_json_def text_lengths null_json_def MailT_def uintT_def Mail_val_def bytesT_def
      bytes_val_def vals_byte_vals word_val_def length_base64_encode)

lemma bytes_reply_ok:
  "json_printed (marshal_value bytesT (bytes_val b)) \<and> json_depth (marshal_value bytesT (bytes_val b)) \<le> 9000 \<and>
   marshal_value bytesT (bytes_val b) \<noteq> null_json"
  using marshal_printed(1) [of bytesT "bytes_val b"] by (simp add: bytesT_def bytes_val_def null_json_def null_lit_def)

lemma Mail_reply_ok:
  "json_printed (marshal_value MailT (Mail_val m)) \<and> json_depth (marshal_value MailT (Mail_val m)) \<le> 9000 \<and>
   marshal_value MailT (Mail_val m) \<noteq> null_json"
  using marshal_printed(1) marshal_depth(1) [of MailT "Mail_val m"] MailT_ok(2)
  by (simp add: null_json_def) (simp add: MailT_def Mail_val_def)

definition ns_idle :: "'w ns_machine \<Rightarrow> Context \<times> 'w \<Rightarrow> bool" where
  "ns_idle M s \<longleftrightarrow> mailbox (fst s) = Map.empty \<and> ex_Server (NonsecureWorld (fst s)) = NonsecureReceiver \<and> ns_waiting M (snd s) = []"

lemma holding_idle: "smc_holding lib M s [] C \<Longrightarrow> ns_idle M s \<and> fst s \<in> C"
  by (simp add: smc_holding_def ns_idle_def)

lemma client_SendMail_ok:
  assumes "monitor_rpc lib M" "applets_apart lib M" "ns_idle M s" "NonsecureRPC_SendMail (fst s) m = (None, c1)"
    and "length (rpc_request_text ''NonsecureRPC.SendMail'' (arg_json (MailArg m))) < 2 ^ 32"
    and "\<And>w1. \<exists>c2 w2. dispatchAppsCalls lib keys c1 w1 = Ret (c2, w2) \<and> c2 \<in> C \<and> mailbox c2 = Map.empty \<and>
      ex_Server (NonsecureWorld c2) = NonsecureReceiver"
  shows "\<exists>s'. client_SendMail (Call (smc_syscalls lib M keys)) m s = Ret (None, s') \<and> ns_idle M s' \<and> fst s' \<in> C"
proof -
  let ?r = "Inr (marshal_value bytesT (bytes_val [])) :: string + json"
  have "smc_answers lib M keys s (rpc_request_text ''NonsecureRPC.SendMail'' (arg_json (MailArg m))) (reply_text ?r) C"
    using assms serve_SendMail [OF assms(4)]
    by (auto simp: smc_answers_def ns_idle_def client_request_def simp del: arg_json.simps)
  moreover have "rpc_result (take minRead (reply_text ?r)) (dest_type NilDest) (dest_val NilDest) = Ret (None, NilV)"
    unfolding reply_text_def
    by (subst rpc_result_response)
       (use bytes_reply_ok SendMail_reply_size in \<open>auto simp: reply_size_def minRead_def simp del: marshal_value.simps\<close>)
  ultimately have "\<exists>s'. Call (smc_syscalls lib M keys) ''NonsecureRPC.SendMail'' (MailArg m) NilDest s = Ret ((None, NilDest), s') \<and>
      smc_holding lib M s' [] C"
    using smc.Call_reply [of lib M keys s "''NonsecureRPC.SendMail''" "MailArg m" "Some rid0" ?r C NilDest None NilV]
      SendMail_reply_size by (simp add: reply_text_def reply_size_def minRead_def loop_goes_on_def)
  then show ?thesis
    using holding_idle by (fastforce simp: client_SendMail_def callRPC_def)
qed

text \<open>A result that fits the client's buffer is returned; a longer one is lost, without an error.\<close>

lemma client_RetrieveResult_ok:
  assumes "monitor_rpc lib M" "applets_apart lib M" "ns_idle M s"
    and "NonsecureRPC_RetrieveResult (fst s) i Mail_zero = ((None, out), c1)" "mailbox c1 = Map.empty"
    and "ex_Server (NonsecureWorld c1) = NonsecureReceiver"
    and "length (rpc_request_text ''NonsecureRPC.RetrieveResult'' (arg_json (AppIDArg i))) < 2 ^ 32"
  shows "if reply_size (Inr (marshal_value MailT (Mail_val out))) \<le> minRead
    then \<exists>s'. client_RetrieveResult (Call (smc_syscalls lib M keys)) i s = Ret ((out, None), s') \<and> ns_idle M s' \<and> fst s' = c1
    else \<exists>s'. client_RetrieveResult (Call (smc_syscalls lib M keys)) i s = Ret ((Mail_zero, None), s') \<and> fst s' = c1"
proof -
  let ?m = "''NonsecureRPC.RetrieveResult''"
  let ?r = "Inr (marshal_value MailT (Mail_val out)) :: string + json"
  let ?d = "MailDest Mail_zero"
  have ans: "smc_answers lib M keys s (rpc_request_text ?m (arg_json (AppIDArg i))) (reply_text ?r) {c1}"
    using assms serve_RetrieveResult [OF assms(4)] dispatch_idle [OF assms(5), of lib keys]
    by (auto simp: smc_answers_def ns_idle_def client_request_def simp del: arg_json.simps)
  show ?thesis
  proof (cases "reply_size ?r \<le> minRead")
    case True
    obtain v where v: "decode_value (marshal_value MailT (Mail_val out)) MailT (Mail_val Mail_zero) None = Ret (v, None)"
      "val_Mail v = out" using decode_Mail [OF Mail_typed(1)] by blast
    have "rpc_result (take minRead (reply_text ?r)) (dest_type ?d) (dest_val ?d) = Ret (None, v)"
      unfolding reply_text_def
      by (subst rpc_result_response)
         (use Mail_reply_ok True v(1) in \<open>auto simp: reply_size_def simp del: marshal_value.simps\<close>)
    with smc.Call_reply [of lib M keys s ?m "AppIDArg i" "Some rid0" ?r "{c1}" ?d None v] ans True v(2)
    obtain s' where "Call (smc_syscalls lib M keys) ?m (AppIDArg i) ?d s = Ret ((None, MailDest out), s')"
      "smc_holding lib M s' [] {c1}"
      by (auto simp: reply_text_def reply_size_def loop_goes_on_def simp del: arg_json.simps)
    with True holding_idle [of lib M s' "{c1}"] show ?thesis
      by (auto simp: client_RetrieveResult_def callRPC_def dest_mail_def)
  next
    case False
    have "json_printed (response_json (Some rid0) ?r)" "json_depth (response_json (Some rid0) ?r) \<le> maxNestingDepth"
      using Mail_reply_ok by (auto intro!: response_printed response_depth simp: printed_lit_def decimal_nat_lit)
    with smc.Call_cut [of lib M keys s ?m "AppIDArg i" "Some rid0" ?r "{c1}" ?d] ans False
    obtain s' rest where "Call (smc_syscalls lib M keys) ?m (AppIDArg i) ?d s =
        Ret ((Some io_ErrUnexpectedEOF, MailDest Mail_zero), s')" "smc_holding lib M s' rest {c1}"
      by (auto simp: reply_text_def reply_size_def simp del: arg_json.simps)
    with False show ?thesis
      by (auto simp: client_RetrieveResult_def callRPC_def dest_mail_def smc_holding_def io_ErrUnexpectedEOF_def)
  qed
qed

text \<open>A panic in the dispatch behind a request takes the trusted OS down before the call returns.\<close>

lemma client_SendMail_crash:
  assumes "monitor_rpc lib M" "ns_idle M s" "NonsecureRPC_SendMail (fst s) m = (None, c1)"
    and "length (rpc_request_text ''NonsecureRPC.SendMail'' (arg_json (MailArg m))) < 2 ^ 32"
    and "\<And>w1. \<exists>q. dispatchAppsCalls lib keys c1 w1 = Panic q"
  shows "\<exists>q. client_SendMail (Call (smc_syscalls lib M keys)) m s = Panic q"
proof -
  let ?req = "rpc_request_text ''NonsecureRPC.SendMail'' (arg_json (MailArg m))"
  obtain c w where s: "s = (c, w)" by (cases s)
  obtain addr w1 where p: "ns_place M ?req w = (addr, w1)" by (cases "ns_place M ?req w")
  let ?x = "(NonsecureWorld c)\<lparr>ex_R0 := ns_SYS_RPC_REQ, ex_R1 := addr, ex_R2 := of_nat (length ?req)\<rparr>"
  from assms(2) s have idle: "ns_waiting M w = []" "ex_Server (NonsecureWorld c) = NonsecureReceiver"
    by (simp_all add: ns_idle_def)
  obtain reply where serve: "NonsecureRPC_serve ?req c = Ret (reply, c1)"
    using serve_SendMail [OF assms(3)] s by simp
  obtain w2 where w2: "monitor_SecureHandler lib ?x c w1 = Ret (None, c1, w2)"
    using monitor_request [OF assms(1), of ?x w1 c reply c1] monitor_place [OF assms(1,4) p] idle serve
      unat_length [OF assms(4)] monitor_numbers [OF assms(1)] by (auto simp: client_request_def simp del: arg_json.simps)
  obtain q where q: "dispatchAppsCalls lib keys c1 w2 = Panic q" using assms(5) by blast
  have "smc lib M keys ns_SYS_RPC_REQ ?req s = Panic q"
    using s p w2 q monitor_numbers [OF assms(1)] by (simp add: smc_def nonsecureWorldHandler_def)
  then show ?thesis
    by (simp add: client_SendMail_def callRPC_def Call_def Stream_Write_def NewClient_def smc_syscalls_def)
qed

end
