(* ===== verification/Applet_Token.thy ===== *)
theory Applet_Token
  imports Crypto
begin

text \<open>
  The token of the cryptography applet (\<open>src/tee/cryptography_applet/token/token.go\<close>).  It is a second
  copy of the software token; the last section shows that the two behave alike.
\<close>

section \<open>The token\<close>

definition applet_defaultEntropy :: bytes where
  "applet_defaultEntropy =
    [118, 252, 209, 103, 94, 240, 60, 245, 18, 224, 156, 240, 11, 232, 52, 25,
     31, 134, 125, 135, 192, 2, 31, 206, 216, 100, 159, 234, 150, 9, 236, 57]"

record 'k AppletToken =
  ta_privKey :: "'k option"

definition NewToken :: "'k AppletToken" where
  "NewToken = \<lparr>ta_privKey = None\<rparr>"

definition AppletToken_RandomBytes ::
  "('k, 'sk, 'w) token_env \<Rightarrow> 'k AppletToken \<Rightarrow> uint64 \<Rightarrow> 'w \<Rightarrow> ((go_error + bytes) \<times> 'w) go" where
  "AppletToken_RandomBytes env dt amount w =
     (if amount = 0 then Ret (Inl (Errorf ''requested bytes amount is zero'' []), w)
      else if unat amount > env_maxAlloc env
        then Panic (ExplicitPanic ''makeslice: len out of range'')
      else Ret (env_rand env (unat amount) w))"

text \<open>As for the software token, writing to the HMAC cannot fail and its sum is never nil.\<close>

definition AppletToken_DeriveSecret :: "'k AppletToken \<Rightarrow> 'w \<Rightarrow> ((go_error + bytes) \<times> 'w) go" where
  "AppletToken_DeriveSecret dt w =
     Ret (Inr (copy_into (replicate 32 0) (hmac_sha256 Diversifier applet_defaultEntropy)), w)"

definition AppletToken_Initialize ::
  "('k, 'sk, 'w) token_env \<Rightarrow> 'k AppletToken \<Rightarrow> DerivationPath \<Rightarrow> 'w \<Rightarrow>
   (go_error option \<times> 'k AppletToken \<times> 'w) go" where
  "AppletToken_Initialize env dt path w =
     go_bind (AppletToken_DeriveSecret dt w) (\<lambda>(secret, w').
       case secret of
         Inl err \<Rightarrow> Ret (Some err, dt, w')
       | Inr s \<Rightarrow>
           (case hd_NewMaster (env_lib env) s (CoinType path) of
              Inl err \<Rightarrow> Ret (Some err, dt, w')
            | Inr sb \<Rightarrow>
                (case KeyFromPath (env_lib env) sb path of
                   Inl err \<Rightarrow> Ret (Some err, dt\<lparr>ta_privKey := None\<rparr>, w')
                 | Inr child \<Rightarrow> Ret (None, dt\<lparr>ta_privKey := child\<rparr>, w'))))"

definition AppletToken_Sign ::
  "('k, 'sk, 'w) token_env \<Rightarrow> 'k AppletToken \<Rightarrow> bytes \<Rightarrow> Algorithm \<Rightarrow> 'w \<Rightarrow> ((go_error + bytes) \<times> 'w) go" where
  "AppletToken_Sign env dt payload algorithm w =
     (case ta_privKey dt of
        None \<Rightarrow> Panic NilPointer
      | Some k \<Rightarrow>
          (case hd_ECPrivKey (env_lib env) k of
             Inl err \<Rightarrow> Ret (Inl err, w)
           | Inr pk \<Rightarrow> Ret (ec_Sign (env_lib env) pk payload, w)))"

definition AppletToken_PublicKey ::
  "('k, 'sk, 'w) token_env \<Rightarrow> 'k AppletToken \<Rightarrow> 'w \<Rightarrow> ((go_error + bytes) \<times> 'w) go" where
  "AppletToken_PublicKey env dt w =
     (case ta_privKey dt of
        None \<Rightarrow> Panic NilPointer
      | Some k \<Rightarrow>
          (case hd_Neuter (env_lib env) k of
             Inl err \<Rightarrow> Ret (Inl err, w)
           | Inr epubk \<Rightarrow> Ret (hd_ECPubKey (env_lib env) epubk, w)))"

definition AppletToken_Mnemonic ::
  "('k, 'sk, 'w) token_env \<Rightarrow> 'k AppletToken \<Rightarrow> 'w \<Rightarrow> ((go_error + string list) \<times> 'w) go" where
  "AppletToken_Mnemonic env dt w =
     go_bind (AppletToken_DeriveSecret dt w) (\<lambda>(secret, w').
       case secret of
         Inl err \<Rightarrow> Ret (Inl err, w')
       | Inr s \<Rightarrow>
           (case bip39_NewMnemonic (env_lib env) s of
              Inl err \<Rightarrow> Ret (Inl err, w')
            | Inr mnemonic \<Rightarrow> Ret (Inr (split_blank mnemonic), w')))"

definition AppletToken_SupportedSignAlgorithms :: "'k AppletToken \<Rightarrow> Algorithm list" where
  "AppletToken_SupportedSignAlgorithms dt = [AlgoSecp256K1]"

definition AppletToken_Clone :: "'k AppletToken \<Rightarrow> 'k AppletToken" where
  "AppletToken_Clone dt = dt"

definition AppletToken_impl :: "('k, 'sk, 'w) token_env \<Rightarrow> ('k AppletToken, 'w) Token" where
  "AppletToken_impl env = \<lparr>
     RandomBytes = AppletToken_RandomBytes env,
     DeriveSecret = AppletToken_DeriveSecret,
     Initialize = AppletToken_Initialize env,
     Sign = AppletToken_Sign env,
     PublicKey = AppletToken_PublicKey env,
     Mnemonic = AppletToken_Mnemonic env,
     Clone = AppletToken_Clone,
     SupportedSignAlgorithms = AppletToken_SupportedSignAlgorithms\<rparr>"

section \<open>The two software tokens agree\<close>

text \<open>
  A token implementation simulates another along a map of their states: every operation gives the same
  result, the same panic and the same effect on the world, and corresponding states stay so.
\<close>

definition token_simulates :: "('s \<Rightarrow> 't) \<Rightarrow> ('s, 'w) Token \<Rightarrow> ('t, 'w) Token \<Rightarrow> bool" where
  "token_simulates f S T \<longleftrightarrow>
     (\<forall>s w.
        (\<forall>n. RandomBytes S s n w = RandomBytes T (f s) n w) \<and>
        DeriveSecret S s w = DeriveSecret T (f s) w \<and>
        (\<forall>p. map_go (\<lambda>(e, s', w'). (e, f s', w')) (Initialize S s p w) = Initialize T (f s) p w) \<and>
        (\<forall>m a. Sign S s m a w = Sign T (f s) m a w) \<and>
        PublicKey S s w = PublicKey T (f s) w \<and>
        Mnemonic S s w = Mnemonic T (f s) w \<and>
        f (Clone S s) = Clone T (f s) \<and>
        SupportedSignAlgorithms S s = SupportedSignAlgorithms T (f s))"

definition as_dumbToken :: "'k AppletToken \<Rightarrow> 'k dumbToken" where
  "as_dumbToken dt = \<lparr>privKey = ta_privKey dt\<rparr>"

lemma applet_secret: "AppletToken_DeriveSecret dt w = Ret (Inr dumbToken_secret, w)"
  by (simp add: AppletToken_DeriveSecret_def dumbToken_secret_def applet_defaultEntropy_def defaultEntropy_def)

lemma AppletToken_Initialize_eq:
  "AppletToken_Initialize env dt path w =
     (case hd_NewMaster (env_lib env) dumbToken_secret (CoinType path) of
        Inl err \<Rightarrow> Ret (Some err, dt, w)
      | Inr sb \<Rightarrow>
          (case KeyFromPath (env_lib env) sb path of
             Inl err \<Rightarrow> Ret (Some err, \<lparr>ta_privKey = None\<rparr>, w)
           | Inr child \<Rightarrow> Ret (None, \<lparr>ta_privKey = child\<rparr>, w)))"
  by (cases dt) (simp add: AppletToken_Initialize_def applet_secret split: sum.split)

lemma as_dumbToken_simps [simp]:
  "privKey (as_dumbToken dt) = ta_privKey dt" "as_dumbToken \<lparr>ta_privKey = k\<rparr> = \<lparr>privKey = k\<rparr>"
  "as_dumbToken NewToken = NewDumbToken"
  by (simp_all add: as_dumbToken_def NewToken_def NewDumbToken_def)

lemma AppletToken_simulates: "token_simulates as_dumbToken (AppletToken_impl env) (dumbToken_impl env)"
  unfolding token_simulates_def
  by (simp add: AppletToken_impl_def dumbToken_impl_def AppletToken_RandomBytes_def dumbToken_RandomBytes_def
      applet_secret dumbToken_DeriveSecret_def AppletToken_Initialize_eq dumbToken_Initialize_eq
      AppletToken_Sign_def dumbToken_Sign_def AppletToken_PublicKey_def dumbToken_PublicKey_def
      AppletToken_Mnemonic_def dumbToken_Mnemonic_def AppletToken_Clone_def dumbToken_Clone_def
      AppletToken_SupportedSignAlgorithms_def dumbToken_SupportedSignAlgorithms_def split: sum.split)

text \<open>A token that was initialised has a key.\<close>

lemma AppletToken_Initialize_ready:
  "AppletToken_Initialize env dt path w = Ret (None, dt', w') \<Longrightarrow> \<exists>k. ta_privKey dt' = Some k"
  using KeyFromPath_not_nil [of "env_lib env" _ path]
  by (auto simp: AppletToken_Initialize_eq split: sum.splits) (metis option.exhaust)

interpretation applet: local_token "AppletToken_impl env" for env :: "('k, 'sk, 'w) token_env"
proof
  fix t u t' :: "'k AppletToken" and p w w' e m a v
  show "Clone (AppletToken_impl env) t = t"
    by (simp add: AppletToken_impl_def AppletToken_Clone_def)
  show "\<exists>e t'. Initialize (AppletToken_impl env) t p w = Ret (e, t', w)"
    by (auto simp: AppletToken_impl_def AppletToken_Initialize_eq split: sum.split)
  show "Initialize (AppletToken_impl env) t p w = Ret (None, t', w') \<Longrightarrow>
      Initialize (AppletToken_impl env) u p w = Ret (None, t', w')"
    by (auto simp: AppletToken_impl_def AppletToken_Initialize_eq split: sum.splits)
  show "Initialize (AppletToken_impl env) t p w = Ret (Some e, t', w') \<Longrightarrow>
      \<exists>u'. Initialize (AppletToken_impl env) u p w = Ret (Some e, u', w')"
    by (auto simp: AppletToken_impl_def AppletToken_Initialize_eq split: sum.splits)
  show "\<exists>r. Sign (AppletToken_impl env) t' m a v = Ret (r, v)"
    if "Initialize (AppletToken_impl env) t p w = Ret (None, t', w')"
    using AppletToken_Initialize_ready [of env t p w t' w'] that
    by (auto simp: AppletToken_impl_def AppletToken_Sign_def split: sum.split)
  show "\<exists>r. PublicKey (AppletToken_impl env) t' v = Ret (r, v)"
    if "Initialize (AppletToken_impl env) t p w = Ret (None, t', w')"
    using AppletToken_Initialize_ready [of env t p w t' w'] that
    by (auto simp: AppletToken_impl_def AppletToken_PublicKey_def split: sum.split)
qed

text \<open>
  C24. The applet's token and the software token are the same: from corresponding states every operation
  returns the same result or panic, changes the world alike and leads to corresponding states.
\<close>

theorem applet_token_is_dumbToken:
  "as_dumbToken NewToken = NewDumbToken \<and> token_simulates as_dumbToken (AppletToken_impl env) (dumbToken_impl env)"
  by (simp add: AppletToken_simulates)

end
