(* ===== verification/Token_Request.thy ===== *)
theory Token_Request
  imports Crypto Json_Values
begin

text \<open>
  The requests to the cryptography applet and its answers (\<open>src/tee/cryptography_applet/token/request.go\<close>):
  the messages as structs, their JSON form, and \<open>Dispatch\<close>, which carries a request out on a token.
\<close>

section \<open>Messages\<close>

definition RequestRandomBytes :: uint32 where "RequestRandomBytes = 0"
definition RequestSign :: uint32 where "RequestSign = 1"
definition RequestPublicKey :: uint32 where "RequestPublicKey = 2"
definition RequestMnemonic :: uint32 where "RequestMnemonic = 3"
definition RequestSupportedSignAlgorithms :: uint32 where "RequestSupportedSignAlgorithms = 4"

lemmas request_ids = RequestRandomBytes_def RequestSign_def RequestPublicKey_def RequestMnemonic_def
  RequestSupportedSignAlgorithms_def

record Request =
  Request_ID :: uint32

record RandomBytesRequest = Request +
  Amount :: uint64

record SignRequest = Request +
  SignRequest_Data :: bytes
  SignRequest_Path :: DerivationPath
  SignRequest_Algorithm :: Algorithm

record signRequestInternal =
  sri_Data :: bytes
  sri_Path :: DerivationPath
  sri_Algorithm :: Algorithm

record PublicKeyRequest = Request +
  PublicKeyRequest_Path :: DerivationPath

record MnemonicRequest = Request +
  MnemonicRequest_Path :: DerivationPath

record Response =
  Response_ID :: uint32

record RandomBytesResponse = Response +
  RandomBytesResponse_Data :: bytes

record SignResponse = Response +
  SignResponse_Data :: bytes

record PublicKeyResponse = Response +
  PublicKeyResponse_Data :: bytes

record MnemonicResponse = Response +
  Words :: "string list"

record SupportedSignAlgorithmsResponse = Response +
  Algorithms :: "Algorithm list"

definition Bytes :: "signRequestInternal \<Rightarrow> bytes go" where
  "Bytes sri =
     (case base64_decode (sri_Data sri) of
        Inl err \<Rightarrow> Panic (ExplicitPanic (error_text err))
      | Inr b \<Rightarrow> Ret b)"

section \<open>The Go types of the messages\<close>

text \<open>\<open>uint\<close> has 32 bits on the target; the fields of an embedded struct come first.\<close>

definition requestT :: go_type where "requestT = StructT [(''ID'', uintT)]"

definition pathT :: go_type where
  "pathT = StructT [(''Purpose'', UintT 32), (''CoinType'', UintT 32), (''Account'', UintT 32),
     (''Change'', UintT 32), (''AddressIndex'', UintT 32)]"

definition randomBytesRequestT :: go_type where
  "randomBytesRequestT = StructT [(''ID'', uintT), (''Amount'', UintT 64)]"

definition signRequestT :: go_type where
  "signRequestT = StructT [(''ID'', uintT), (''Data'', bytesT), (''DerivationPath'', pathT), (''Algorithm'', uintT)]"

definition signRequestInternalT :: go_type where
  "signRequestInternalT = StructT [(''Data'', StringT), (''DerivationPath'', pathT), (''Algorithm'', uintT)]"

definition pathRequestT :: go_type where
  "pathRequestT = StructT [(''ID'', uintT), (''DerivationPath'', pathT)]"

definition dataResponseT :: go_type where
  "dataResponseT = StructT [(''ID'', uintT), (''Data'', bytesT)]"

definition mnemonicResponseT :: go_type where
  "mnemonicResponseT = StructT [(''ID'', uintT), (''Words'', SliceT StringT)]"

definition algorithmsResponseT :: go_type where
  "algorithmsResponseT = StructT [(''ID'', uintT), (''Algorithms'', SliceT uintT)]"

lemmas messageT_defs = uintT_def requestT_def pathT_def randomBytesRequestT_def signRequestT_def
  signRequestInternalT_def pathRequestT_def dataResponseT_def mnemonicResponseT_def algorithmsResponseT_def bytesT_def

text \<open>From the structs to the values the encoder and the decoder work on, and back.\<close>

definition path_val :: "DerivationPath \<Rightarrow> go_val" where
  "path_val p = StructV [word_val (Purpose p), word_val (CoinType p), word_val (Account p), word_val (Change p),
     word_val (AddressIndex p)]"

definition val_path :: "go_val \<Rightarrow> DerivationPath" where
  "val_path v = \<lparr>Purpose = val_word (field v 0), CoinType = val_word (field v 1), Account = val_word (field v 2),
     Change = val_word (field v 3), AddressIndex = val_word (field v 4)\<rparr>"

definition RandomBytesRequest_val :: "RandomBytesRequest \<Rightarrow> go_val" where
  "RandomBytesRequest_val r = StructV [word_val (Request_ID r), word_val (Amount r)]"

definition val_RandomBytesRequest :: "go_val \<Rightarrow> RandomBytesRequest" where
  "val_RandomBytesRequest v = \<lparr>Request_ID = val_word (field v 0), Amount = val_word (field v 1)\<rparr>"

definition SignRequest_val :: "SignRequest \<Rightarrow> go_val" where
  "SignRequest_val r = StructV [word_val (Request_ID r), bytes_val (SignRequest_Data r), path_val (SignRequest_Path r),
     word_val (SignRequest_Algorithm r)]"

definition val_signRequestInternal :: "go_val \<Rightarrow> signRequestInternal" where
  "val_signRequestInternal v = \<lparr>sri_Data = val_string (field v 0), sri_Path = val_path (field v 1),
     sri_Algorithm = val_word (field v 2)\<rparr>"

definition PublicKeyRequest_val :: "PublicKeyRequest \<Rightarrow> go_val" where
  "PublicKeyRequest_val r = StructV [word_val (Request_ID r), path_val (PublicKeyRequest_Path r)]"

definition val_PublicKeyRequest :: "go_val \<Rightarrow> PublicKeyRequest" where
  "val_PublicKeyRequest v = \<lparr>Request_ID = val_word (field v 0), PublicKeyRequest_Path = val_path (field v 1)\<rparr>"

definition MnemonicRequest_val :: "MnemonicRequest \<Rightarrow> go_val" where
  "MnemonicRequest_val r = StructV [word_val (Request_ID r), path_val (MnemonicRequest_Path r)]"

definition val_MnemonicRequest :: "go_val \<Rightarrow> MnemonicRequest" where
  "val_MnemonicRequest v = \<lparr>Request_ID = val_word (field v 0), MnemonicRequest_Path = val_path (field v 1)\<rparr>"

text \<open>\<open>SupportedSignAlgorithmsRequest\<close> has the embedded \<open>Request\<close> only.\<close>

definition Request_val :: "Request \<Rightarrow> go_val" where
  "Request_val r = StructV [word_val (Request_ID r)]"

definition val_Request :: "go_val \<Rightarrow> Request" where
  "val_Request v = \<lparr>Request_ID = val_word (field v 0)\<rparr>"

definition RandomBytesResponse_val :: "RandomBytesResponse \<Rightarrow> go_val" where
  "RandomBytesResponse_val r = StructV [word_val (Response_ID r), bytes_val (RandomBytesResponse_Data r)]"

definition val_RandomBytesResponse :: "go_val \<Rightarrow> RandomBytesResponse" where
  "val_RandomBytesResponse v = \<lparr>Response_ID = val_word (field v 0), RandomBytesResponse_Data = val_bytes (field v 1)\<rparr>"

definition SignResponse_val :: "SignResponse \<Rightarrow> go_val" where
  "SignResponse_val r = StructV [word_val (Response_ID r), bytes_val (SignResponse_Data r)]"

definition val_SignResponse :: "go_val \<Rightarrow> SignResponse" where
  "val_SignResponse v = \<lparr>Response_ID = val_word (field v 0), SignResponse_Data = val_bytes (field v 1)\<rparr>"

definition PublicKeyResponse_val :: "PublicKeyResponse \<Rightarrow> go_val" where
  "PublicKeyResponse_val r = StructV [word_val (Response_ID r), bytes_val (PublicKeyResponse_Data r)]"

definition val_PublicKeyResponse :: "go_val \<Rightarrow> PublicKeyResponse" where
  "val_PublicKeyResponse v = \<lparr>Response_ID = val_word (field v 0), PublicKeyResponse_Data = val_bytes (field v 1)\<rparr>"

definition MnemonicResponse_val :: "MnemonicResponse \<Rightarrow> go_val" where
  "MnemonicResponse_val r = StructV [word_val (Response_ID r), strings_val (Words r)]"

definition val_MnemonicResponse :: "go_val \<Rightarrow> MnemonicResponse" where
  "val_MnemonicResponse v =
     \<lparr>Response_ID = val_word (field v 0), Words = map (\<lambda>x. chars (val_string x)) (val_elems (field v 1))\<rparr>"

definition SupportedSignAlgorithmsResponse_val :: "SupportedSignAlgorithmsResponse \<Rightarrow> go_val" where
  "SupportedSignAlgorithmsResponse_val r = StructV [word_val (Response_ID r), SliceV (map word_val (Algorithms r)) []]"

definition val_SupportedSignAlgorithmsResponse :: "go_val \<Rightarrow> SupportedSignAlgorithmsResponse" where
  "val_SupportedSignAlgorithmsResponse v =
     \<lparr>Response_ID = val_word (field v 0), Algorithms = map val_word (val_elems (field v 1))\<rparr>"

lemmas request_vals = RandomBytesRequest_val_def SignRequest_val_def PublicKeyRequest_val_def MnemonicRequest_val_def
  Request_val_def
lemmas val_requests = val_RandomBytesRequest_def val_signRequestInternal_def val_PublicKeyRequest_def
  val_MnemonicRequest_def val_Request_def
lemmas response_vals = RandomBytesResponse_val_def SignResponse_val_def PublicKeyResponse_val_def
  MnemonicResponse_val_def SupportedSignAlgorithmsResponse_val_def
lemmas val_responses = val_RandomBytesResponse_def val_SignResponse_def val_PublicKeyResponse_def
  val_MnemonicResponse_def val_SupportedSignAlgorithmsResponse_def

section \<open>Operations\<close>

definition unmarshal :: "go_type \<Rightarrow> go_val \<Rightarrow> bytes \<Rightarrow> (go_val \<times> go_error option) go" where
  "unmarshal t dest text = json_Unmarshal t dest text"

text \<open>Marshalling these types cannot fail.\<close>

definition marshal :: "go_type \<Rightarrow> go_val \<Rightarrow> go_error + bytes" where
  "marshal t v = Inr (json_Marshal t v)"

text \<open>The compiled code calls \<open>unmarshal\<close> before it copies \<open>req\<close> into the result.\<close>

definition ReadRequest :: "bytes \<Rightarrow> (Request \<times> go_error option) go" where
  "ReadRequest text =
     go_bind (unmarshal requestT (zero_value requestT) text) (\<lambda>(v, err).
       Ret (val_Request v, err))"

definition RequestedOp :: "bytes \<Rightarrow> (go_error + uint32) go" where
  "RequestedOp text =
     go_bind (unmarshal requestT (zero_value requestT) text) (\<lambda>(v, err).
       case err of Some e \<Rightarrow> Ret (Inl e) | None \<Rightarrow> Ret (Inr (Request_ID (val_Request v))))"

definition PackageRequest :: "go_type \<Rightarrow> go_val \<Rightarrow> go_error + bytes" where
  "PackageRequest t req = marshal t req"

definition UnpackResponse :: "bytes \<Rightarrow> go_type \<Rightarrow> go_val \<Rightarrow> (go_val \<times> go_error option) go" where
  "UnpackResponse resp t dest = unmarshal t dest resp"

text \<open>The branches of \<open>Dispatch\<close>, one per request.\<close>

definition dispatch_RandomBytes ::
  "bytes \<Rightarrow> uint32 \<Rightarrow> ('t, 'w) Token \<Rightarrow> 't \<Rightarrow> 'w \<Rightarrow> ((go_error + bytes) \<times> 'w) go" where
  "dispatch_RandomBytes text reqID T t w =
     go_bind (json_Unmarshal randomBytesRequestT (zero_value randomBytesRequestT) text) (\<lambda>(r, err).
       case err of
         Some e \<Rightarrow> Ret (Inl e, w)
       | None \<Rightarrow>
           go_bind (RandomBytes T t (Amount (val_RandomBytesRequest r)) w) (\<lambda>(rb, w1).
             case rb of
               Inl e \<Rightarrow> Ret (Inl e, w1)
             | Inr b \<Rightarrow> Ret (marshal dataResponseT
                 (RandomBytesResponse_val \<lparr>Response_ID = reqID, RandomBytesResponse_Data = b\<rparr>), w1)))"

definition dispatch_Sign ::
  "bytes \<Rightarrow> uint32 \<Rightarrow> ('t, 'w) Token \<Rightarrow> 't \<Rightarrow> 'w \<Rightarrow> ((go_error + bytes) \<times> 'w) go" where
  "dispatch_Sign text reqID T t w =
     go_bind (json_Unmarshal signRequestInternalT (zero_value signRequestInternalT) text) (\<lambda>(v, err).
       case err of
         Some e \<Rightarrow> Ret (Inl e, w)
       | None \<Rightarrow>
           let r = val_signRequestInternal v
           in go_bind (Initialize T (Clone T t) (sri_Path r) w) (\<lambda>(ierr, tt, w1).
                case ierr of
                  Some e \<Rightarrow> Ret (Inl e, w1)
                | None \<Rightarrow>
                    go_bind (Bytes r) (\<lambda>b.
                    go_bind (Sign T tt b (sri_Algorithm r) w1) (\<lambda>(sig, w2).
                      case sig of
                        Inl e \<Rightarrow> Ret (Inl e, w2)
                      | Inr s \<Rightarrow> Ret (marshal dataResponseT
                          (SignResponse_val \<lparr>Response_ID = reqID, SignResponse_Data = s\<rparr>), w2)))))"

definition dispatch_PublicKey ::
  "bytes \<Rightarrow> uint32 \<Rightarrow> ('t, 'w) Token \<Rightarrow> 't \<Rightarrow> 'w \<Rightarrow> ((go_error + bytes) \<times> 'w) go" where
  "dispatch_PublicKey text reqID T t w =
     go_bind (json_Unmarshal pathRequestT (zero_value pathRequestT) text) (\<lambda>(r, err).
       case err of
         Some e \<Rightarrow> Ret (Inl e, w)
       | None \<Rightarrow>
           go_bind (Initialize T (Clone T t) (PublicKeyRequest_Path (val_PublicKeyRequest r)) w) (\<lambda>(ierr, tt, w1).
             case ierr of
               Some e \<Rightarrow> Ret (Inl e, w1)
             | None \<Rightarrow>
                 go_bind (PublicKey T tt w1) (\<lambda>(pk, w2).
                   case pk of
                     Inl e \<Rightarrow> Ret (Inl e, w2)
                   | Inr k \<Rightarrow> Ret (marshal dataResponseT
                       (PublicKeyResponse_val \<lparr>Response_ID = reqID, PublicKeyResponse_Data = k\<rparr>), w2))))"

definition dispatch_Mnemonic ::
  "bytes \<Rightarrow> uint32 \<Rightarrow> ('t, 'w) Token \<Rightarrow> 't \<Rightarrow> 'w \<Rightarrow> ((go_error + bytes) \<times> 'w) go" where
  "dispatch_Mnemonic text reqID T t w =
     go_bind (json_Unmarshal pathRequestT (zero_value pathRequestT) text) (\<lambda>(r, err).
       case err of
         Some e \<Rightarrow> Ret (Inl e, w)
       | None \<Rightarrow>
           go_bind (Initialize T (Clone T t) (MnemonicRequest_Path (val_MnemonicRequest r)) w) (\<lambda>(ierr, tt, w1).
             case ierr of
               Some e \<Rightarrow> Ret (Inl e, w1)
             | None \<Rightarrow>
                 go_bind (Mnemonic T tt w1) (\<lambda>(mn, w2).
                   case mn of
                     Inl e \<Rightarrow> Ret (Inl e, w2)
                   | Inr ws \<Rightarrow> Ret (marshal mnemonicResponseT
                       (MnemonicResponse_val \<lparr>Response_ID = reqID, Words = ws\<rparr>), w2))))"

definition dispatch_SupportedSignAlgorithms ::
  "uint32 \<Rightarrow> ('t, 'w) Token \<Rightarrow> 't \<Rightarrow> 'w \<Rightarrow> ((go_error + bytes) \<times> 'w) go" where
  "dispatch_SupportedSignAlgorithms reqID T t w =
     Ret (marshal algorithmsResponseT
       (SupportedSignAlgorithmsResponse_val
          \<lparr>Response_ID = reqID, Algorithms = SupportedSignAlgorithms T t\<rparr>), w)"

definition Dispatch :: "bytes \<Rightarrow> ('t, 'w) Token \<Rightarrow> 't \<Rightarrow> 'w \<Rightarrow> ((go_error + bytes) \<times> 'w) go" where
  "Dispatch text T t w =
     go_bind (RequestedOp text) (\<lambda>opr.
       case opr of
         Inl err \<Rightarrow> Ret (Inl (Wrap ''cannot read op'' err), w)
       | Inr reqID \<Rightarrow>
           if reqID = RequestRandomBytes then dispatch_RandomBytes text reqID T t w
           else if reqID = RequestSign then dispatch_Sign text reqID T t w
           else if reqID = RequestPublicKey then dispatch_PublicKey text reqID T t w
           else if reqID = RequestMnemonic then dispatch_Mnemonic text reqID T t w
           else if reqID = RequestSupportedSignAlgorithms then dispatch_SupportedSignAlgorithms reqID T t w
           else Ret (Inl (Errorf ''cannot handle request'' []), w))"

section \<open>Reading a request at another type\<close>

text \<open>
  A request is read twice, first for its \<open>ID\<close> alone and then at the type of the request, which for a
  signature is not the type it was written with.
\<close>

lemma message_depths:
  "type_depth requestT \<le> maxNestingDepth" "type_depth randomBytesRequestT \<le> maxNestingDepth"
  "type_depth signRequestT \<le> maxNestingDepth" "type_depth pathRequestT \<le> maxNestingDepth"
  "type_depth dataResponseT \<le> maxNestingDepth" "type_depth mnemonicResponseT \<le> maxNestingDepth"
  "type_depth algorithmsResponseT \<le> maxNestingDepth"
  by (simp_all add: messageT_defs maxNestingDepth_def)

lemma field_names_valid:
  "valid_utf8 (ascii ''ID'')" "valid_utf8 (ascii ''Amount'')" "valid_utf8 (ascii ''Data'')"
  "valid_utf8 (ascii ''DerivationPath'')" "valid_utf8 (ascii ''Algorithm'')" "valid_utf8 (ascii ''Purpose'')"
  "valid_utf8 (ascii ''CoinType'')" "valid_utf8 (ascii ''Account'')" "valid_utf8 (ascii ''Change'')"
  "valid_utf8 (ascii ''AddressIndex'')" "valid_utf8 (ascii ''Words'')" "valid_utf8 (ascii ''Algorithms'')"
  by code_simp+

lemma request_field:
  "find_field [(''ID'', t)] (ascii ''ID'') = Some 0" "find_field [(''ID'', t)] (ascii ''Amount'') = None"
  "find_field [(''ID'', t)] (ascii ''Data'') = None" "find_field [(''ID'', t)] (ascii ''DerivationPath'') = None"
  "find_field [(''ID'', t)] (ascii ''Algorithm'') = None"
  by code_simp+

lemma randomBytes_field:
  "find_field [(''ID'', t), (''Amount'', u)] (ascii ''ID'') = Some 0"
  "find_field [(''ID'', t), (''Amount'', u)] (ascii ''Amount'') = Some 1"
  by code_simp+

lemma sign_field:
  "find_field [(''Data'', t), (''DerivationPath'', u), (''Algorithm'', v)] (ascii ''ID'') = None"
  "find_field [(''Data'', t), (''DerivationPath'', u), (''Algorithm'', v)] (ascii ''Data'') = Some 0"
  "find_field [(''Data'', t), (''DerivationPath'', u), (''Algorithm'', v)] (ascii ''DerivationPath'') = Some 1"
  "find_field [(''Data'', t), (''DerivationPath'', u), (''Algorithm'', v)] (ascii ''Algorithm'') = Some 2"
  by code_simp+

lemma pathRequest_field:
  "find_field [(''ID'', t), (''DerivationPath'', u)] (ascii ''ID'') = Some 0"
  "find_field [(''ID'', t), (''DerivationPath'', u)] (ascii ''DerivationPath'') = Some 1"
  by code_simp+

lemmas message_fields = request_field randomBytes_field sign_field pathRequest_field

lemma path_typed: "has_type pathT (path_val p)"
  using uint32_bound by (simp add: pathT_def path_val_def word_val_def)

lemma path_type_ok: "type_ok pathT"
  by (simp add: pathT_def field_names_valid) (simp add: ascii_def)

lemma decode_path:
  assumes "has_type pathT z"
  shows "decode_value (marshal_value pathT (path_val p)) pathT z None = Ret (path_val p, None)"
proof -
  have "texts_ok (path_val p)" by (simp add: path_val_def word_val_def)
  from decode_marshal(1) [OF path_typed path_type_ok this assms] obtain u where
    u: "decode_value (marshal_value pathT (path_val p)) pathT z None = Ret (u, None)" "visible u = visible (path_val p)"
    by blast
  let ?ns = "[Purpose p, CoinType p, Account p, Change p, AddressIndex p]"
  from u(2) obtain us where us: "u = StructV us" "map visible us = map (\<lambda>n. UintV (unat n)) ?ns"
    by (cases u) (auto simp: path_val_def word_val_def)
  from visible_uints [OF us(2)] us(1) have "u = path_val p" by (simp add: path_val_def word_val_def)
  with u(1) show ?thesis by simp
qed

lemma val_path_val [simp]: "val_path (path_val p) = p"
  by (simp add: val_path_def path_val_def field_def struct_vals_def)

section \<open>What Dispatch does\<close>

text \<open>
  The contract, without messages: a request is carried out on a clone of the token that is initialised at
  the path of the request; random bytes and the list of algorithms need no key.
\<close>

datatype token_request =
    RandomBytesRq uint64
  | SignRq bytes DerivationPath Algorithm
  | PublicKeyRq DerivationPath
  | MnemonicRq DerivationPath
  | AlgorithmsRq

datatype token_answer = DataA bytes | WordsA "string list" | AlgorithmsA "Algorithm list"

definition at_path ::
  "('t, 'w) Token \<Rightarrow> 't \<Rightarrow> DerivationPath \<Rightarrow> 'w \<Rightarrow> ('t \<Rightarrow> 'w \<Rightarrow> ((go_error + 'a) \<times> 'w) go) \<Rightarrow>
   ((go_error + 'a) \<times> 'w) go" where
  "at_path T t p w f =
     go_bind (Initialize T (Clone T t) p w) (\<lambda>(err, tt, w1).
       case err of Some e \<Rightarrow> Ret (Inl e, w1) | None \<Rightarrow> f tt w1)"

definition answered :: "('a \<Rightarrow> 'b) \<Rightarrow> ((go_error + 'a) \<times> 'w) go \<Rightarrow> ((go_error + 'b) \<times> 'w) go" where
  "answered f r = map_go (\<lambda>(x, w). (map_sum id f x, w)) r"

definition serve_request :: "('t, 'w) Token \<Rightarrow> 't \<Rightarrow> token_request \<Rightarrow> 'w \<Rightarrow> ((go_error + token_answer) \<times> 'w) go" where
  "serve_request T t q w =
     (case q of
        RandomBytesRq n \<Rightarrow> answered DataA (RandomBytes T t n w)
      | SignRq m p a \<Rightarrow> answered DataA (at_path T t p w (\<lambda>tt. Sign T tt m a))
      | PublicKeyRq p \<Rightarrow> answered DataA (at_path T t p w (PublicKey T))
      | MnemonicRq p \<Rightarrow> answered WordsA (at_path T t p w (Mnemonic T))
      | AlgorithmsRq \<Rightarrow> Ret (Inr (AlgorithmsA (SupportedSignAlgorithms T t)), w))"

fun request_id :: "token_request \<Rightarrow> uint32" where
  "request_id (RandomBytesRq n) = RequestRandomBytes"
| "request_id (SignRq m p a) = RequestSign"
| "request_id (PublicKeyRq p) = RequestPublicKey"
| "request_id (MnemonicRq p) = RequestMnemonic"
| "request_id AlgorithmsRq = RequestSupportedSignAlgorithms"

text \<open>The message of a request, as the clients build it, and of an answer.\<close>

fun request_text :: "token_request \<Rightarrow> bytes" where
  "request_text (RandomBytesRq n) =
     json_Marshal randomBytesRequestT (RandomBytesRequest_val \<lparr>Request_ID = RequestRandomBytes, Amount = n\<rparr>)"
| "request_text (SignRq m p a) =
     json_Marshal signRequestT (SignRequest_val \<lparr>Request_ID = RequestSign, SignRequest_Data = m,
       SignRequest_Path = p, SignRequest_Algorithm = a\<rparr>)"
| "request_text (PublicKeyRq p) =
     json_Marshal pathRequestT (PublicKeyRequest_val \<lparr>Request_ID = RequestPublicKey, PublicKeyRequest_Path = p\<rparr>)"
| "request_text (MnemonicRq p) =
     json_Marshal pathRequestT (MnemonicRequest_val \<lparr>Request_ID = RequestMnemonic, MnemonicRequest_Path = p\<rparr>)"
| "request_text AlgorithmsRq = json_Marshal requestT (Request_val \<lparr>Request_ID = RequestSupportedSignAlgorithms\<rparr>)"

fun answer_text :: "uint32 \<Rightarrow> token_answer \<Rightarrow> bytes" where
  "answer_text i (DataA b) = json_Marshal dataResponseT (StructV [word_val i, bytes_val b])"
| "answer_text i (WordsA ws) = json_Marshal mnemonicResponseT (StructV [word_val i, strings_val ws])"
| "answer_text i (AlgorithmsA as) = json_Marshal algorithmsResponseT (StructV [word_val i, SliceV (map word_val as) []])"

lemma zero_messages:
  "zero_value requestT = StructV [UintV 0]" "zero_value randomBytesRequestT = StructV [UintV 0, UintV 0]"
  "zero_value signRequestInternalT = StructV [StringV [], zero_value pathT, UintV 0]"
  "zero_value pathRequestT = StructV [UintV 0, zero_value pathT]"
  by (simp_all add: messageT_defs)

lemma Unmarshal_requestT:
  assumes "type_depth (StructT ((''ID'', uintT) # fs)) \<le> maxNestingDepth"
    and "fst ` set fs \<subseteq> {''Amount'', ''Data'', ''DerivationPath'', ''Algorithm''}"
  shows "json_Unmarshal requestT (zero_value requestT) (json_Marshal (StructT ((''ID'', uintT) # fs)) (StructV (word_val i # vs))) =
         Ret (StructV [word_val (i :: uint32)], None)"
proof -
  have skip: "decode_members (marshal_fields gs us) [(''ID'', uintT)] [word_val i] None = Ret (StructV [word_val i], None)"
    if "fst ` set gs \<subseteq> {''Amount'', ''Data'', ''DerivationPath'', ''Algorithm''}" for gs us
    using that
  proof (induction gs us rule: marshal_value_marshal_elems_marshal_fields.induct(3)
      [where P = "\<lambda>_ _. True" and Q = "\<lambda>_ _. True"])
    case (9 n t gs v us)
    then have "n \<in> {''Amount'', ''Data'', ''DerivationPath'', ''Algorithm''}" by auto
    with 9 show ?case
      by (auto simp: decode_member field_names_valid request_field simp del: decode_members.simps(2))
  qed simp_all
  have "json_Unmarshal requestT (zero_value requestT)
      (json_Marshal (StructT ((''ID'', uintT) # fs)) (StructV (word_val i # vs))) =
    decode_members (marshal_fields fs vs) [(''ID'', uintT)] [word_val i] None"
    unfolding Unmarshal_Marshal [OF assms(1)]
    by (simp add: requestT_def uintT_def struct_vals_def decode_member field_names_valid request_field decode_uint32
        del: decode_members.simps(2) decode_value.simps(1) marshal_value.simps(1))
  with skip [OF assms(2)] show ?thesis by simp
qed

lemma RequestedOp_request:
  "RequestedOp (request_text q) = Ret (Inr (request_id q))"
proof -
  note simps = RequestedOp_def unmarshal_def request_vals val_Request_def field_def struct_vals_def
  show ?thesis
  proof (cases q)
    case (RandomBytesRq n)
    then show ?thesis
      using Unmarshal_requestT [of "[(''Amount'', UintT 64)]" RequestRandomBytes "[word_val n]"]
      by (simp add: simps randomBytesRequestT_def uintT_def maxNestingDepth_def)
  next
    case (SignRq m p a)
    then show ?thesis
      using Unmarshal_requestT [of "[(''Data'', bytesT), (''DerivationPath'', pathT), (''Algorithm'', uintT)]"
          RequestSign "[bytes_val m, path_val p, word_val a]"]
      by (simp add: simps signRequestT_def uintT_def bytesT_def pathT_def maxNestingDepth_def)
  next
    case (PublicKeyRq p)
    then show ?thesis
      using Unmarshal_requestT [of "[(''DerivationPath'', pathT)]" RequestPublicKey "[path_val p]"]
      by (simp add: simps pathRequestT_def uintT_def pathT_def maxNestingDepth_def)
  next
    case (MnemonicRq p)
    then show ?thesis
      using Unmarshal_requestT [of "[(''DerivationPath'', pathT)]" RequestMnemonic "[path_val p]"]
      by (simp add: simps pathRequestT_def uintT_def pathT_def maxNestingDepth_def)
  next
    case AlgorithmsRq
    then show ?thesis
      using Unmarshal_requestT [of "[]" RequestSupportedSignAlgorithms "[]"]
      by (simp add: simps requestT_def uintT_def maxNestingDepth_def)
  qed
qed

lemma zero_path_typed: "has_type pathT (zero_value pathT)"
  by (rule zero_typed)

lemmas decode_steps = decode_member field_names_valid message_fields decode_uint32 decode_uint64
  decode_path [OF zero_path_typed] struct_vals_def

lemmas decode_raw = decode_members.simps(2) decode_value.simps(1) marshal_value.simps(1)

lemma Unmarshal_randomBytes:
  "json_Unmarshal randomBytesRequestT (zero_value randomBytesRequestT) (request_text (RandomBytesRq n)) =
     Ret (StructV [word_val RequestRandomBytes, word_val n], None)"
proof -
  have "request_text (RandomBytesRq n) = json_Marshal randomBytesRequestT (StructV [word_val RequestRandomBytes, word_val n])"
    by (simp add: RandomBytesRequest_val_def)
  then show ?thesis
    by (simp add: Unmarshal_Marshal message_depths del: request_text.simps)
       (simp add: randomBytesRequestT_def uintT_def decode_steps del: decode_raw)
qed

lemma Unmarshal_pathRequest:
  "json_Unmarshal pathRequestT (zero_value pathRequestT) (json_Marshal pathRequestT (StructV [word_val i, path_val p])) =
     Ret (StructV [word_val (i :: uint32), path_val p], None)"
  unfolding Unmarshal_Marshal [OF message_depths(4)]
  by (simp add: pathRequestT_def uintT_def decode_steps del: decode_raw)

lemma decode_base64_string:
  "decode_value (marshal_value bytesT (bytes_val m)) StringT z None = Ret (StringV (base64_encode m), None)"
proof -
  have "vals_bytes (byte_vals m) = m" by (induction m) (simp_all add: vals_bytes_def byte_vals_def)
  then show ?thesis
    using base64_unquote [of m] by (simp add: bytesT_def bytes_val_def literalStore_def)
qed

lemma Unmarshal_sign:
  "json_Unmarshal signRequestInternalT (zero_value signRequestInternalT) (request_text (SignRq m p a)) =
     Ret (StructV [StringV (base64_encode m), path_val p, word_val a], None)"
proof -
  have "request_text (SignRq m p a) =
      json_Marshal signRequestT (StructV [word_val RequestSign, bytes_val m, path_val p, word_val a])"
    by (simp add: SignRequest_val_def)
  then show ?thesis
    by (simp add: Unmarshal_Marshal message_depths del: request_text.simps)
       (simp add: signRequestT_def signRequestInternalT_def uintT_def decode_steps decode_base64_string numeral_2_eq_2
        del: decode_raw)
qed

lemma Bytes_base64: "sri_Data r = base64_encode m \<Longrightarrow> Bytes r = Ret m"
  by (simp add: Bytes_def base64_decode_encode)

text \<open>\<open>Dispatch\<close> on a request message is the request carried out, with the answer as a message.\<close>

lemma answer_step:
  "go_bind m (\<lambda>(x, w1). case x of Inl e \<Rightarrow> Ret (Inl e, w1) | Inr b \<Rightarrow> Ret (Inr (f b), w1)) = answered f m"
  by (cases m) (auto simp: answered_def split: sum.split)

lemma answered_answered: "answered f (answered g m) = answered (\<lambda>x. f (g x)) m"
  by (cases m) (auto simp: answered_def sum.map_comp comp_def id_def)

lemma answered_at_path: "answered f (at_path T t p w g) = at_path T t p w (\<lambda>tt w1. answered f (g tt w1))"
  by (cases "Initialize T (Clone T t) p w") (auto simp: at_path_def answered_def split: option.split)

lemma dispatch_RandomBytes_eq:
  assumes "json_Unmarshal randomBytesRequestT (zero_value randomBytesRequestT) text = Ret (v, None)"
  shows "dispatch_RandomBytes text i T t w =
    answered (\<lambda>b. answer_text i (DataA b)) (RandomBytes T t (Amount (val_RandomBytesRequest v)) w)"
  by (simp add: dispatch_RandomBytes_def assms marshal_def response_vals
      answer_step cong: sum.case_cong option.case_cong)

lemma dispatch_Sign_eq:
  assumes "json_Unmarshal signRequestInternalT (zero_value signRequestInternalT) text = Ret (v, None)"
    and "base64_decode (sri_Data (val_signRequestInternal v)) = Inr m"
  shows "dispatch_Sign text i T t w =
    at_path T t (sri_Path (val_signRequestInternal v)) w (\<lambda>tt w1.
      answered (\<lambda>b. answer_text i (DataA b)) (Sign T tt m (sri_Algorithm (val_signRequestInternal v)) w1))"
  using assms(2)
  by (simp add: dispatch_Sign_def assms(1) marshal_def response_vals at_path_def Let_def Bytes_def
      answer_step cong: sum.case_cong option.case_cong)

lemma dispatch_PublicKey_eq:
  assumes "json_Unmarshal pathRequestT (zero_value pathRequestT) text = Ret (v, None)"
  shows "dispatch_PublicKey text i T t w =
    at_path T t (PublicKeyRequest_Path (val_PublicKeyRequest v)) w (\<lambda>tt w1.
      answered (\<lambda>b. answer_text i (DataA b)) (PublicKey T tt w1))"
  by (simp add: dispatch_PublicKey_def assms(1) marshal_def response_vals at_path_def
      answer_step cong: sum.case_cong option.case_cong)

lemma dispatch_Mnemonic_eq:
  assumes "json_Unmarshal pathRequestT (zero_value pathRequestT) text = Ret (v, None)"
  shows "dispatch_Mnemonic text i T t w =
    at_path T t (MnemonicRequest_Path (val_MnemonicRequest v)) w (\<lambda>tt w1.
      answered (\<lambda>ws. answer_text i (WordsA ws)) (Mnemonic T tt w1))"
  by (simp add: dispatch_Mnemonic_def assms(1) marshal_def response_vals at_path_def
      answer_step cong: sum.case_cong option.case_cong)

lemma Dispatch_op:
  assumes "RequestedOp text = Ret (Inr i)"
  shows "Dispatch text T t w =
    (if i = 0 then dispatch_RandomBytes text i T t w else if i = 1 then dispatch_Sign text i T t w
     else if i = 2 then dispatch_PublicKey text i T t w else if i = 3 then dispatch_Mnemonic text i T t w
     else if i = 4 then dispatch_SupportedSignAlgorithms i T t w
     else Ret (Inl (Errorf ''cannot handle request'' []), w))"
  by (simp add: Dispatch_def assms request_ids)

lemma Dispatch_request:
  "Dispatch (request_text q) T t w = answered (answer_text (request_id q)) (serve_request T t q w)"
proof (cases q)
  case (RandomBytesRq n)
  then show ?thesis
    using Dispatch_op [OF RequestedOp_request, of q T t w] dispatch_RandomBytes_eq [OF Unmarshal_randomBytes, of n RequestRandomBytes T t w]
    by (simp add: serve_request_def answered_answered request_ids val_requests field_simps_struct del: request_text.simps)
next
  case (SignRq m p a)
  then show ?thesis
    using Dispatch_op [OF RequestedOp_request, of q T t w] dispatch_Sign_eq [OF Unmarshal_sign, of m p a m RequestSign T t w]
    by (simp add: serve_request_def answered_answered answered_at_path request_ids val_requests field_simps_struct
        val_string_def base64_decode_encode del: request_text.simps)
next
  case (PublicKeyRq p)
  then show ?thesis
    using Dispatch_op [OF RequestedOp_request, of q T t w]
      dispatch_PublicKey_eq [OF Unmarshal_pathRequest, of RequestPublicKey p RequestPublicKey T t w]
    by (simp add: serve_request_def answered_answered answered_at_path request_ids val_requests field_simps_struct
        PublicKeyRequest_val_def)
next
  case (MnemonicRq p)
  then show ?thesis
    using Dispatch_op [OF RequestedOp_request, of q T t w]
      dispatch_Mnemonic_eq [OF Unmarshal_pathRequest, of RequestMnemonic p RequestMnemonic T t w]
    by (simp add: serve_request_def answered_answered answered_at_path request_ids val_requests field_simps_struct
        MnemonicRequest_val_def)
next
  case AlgorithmsRq
  then show ?thesis
    using Dispatch_op [OF RequestedOp_request, of q T t w]
    by (simp add: serve_request_def answered_def dispatch_SupportedSignAlgorithms_def marshal_def response_vals request_ids)
qed

section \<open>Reading the answers\<close>

text \<open>What the readers see of a value does not depend on the capacity of its slices.\<close>

lemma val_responses_visible:
  "val_RandomBytesResponse (visible v) = val_RandomBytesResponse v"
  "val_SignResponse (visible v) = val_SignResponse v"
  "val_PublicKeyResponse (visible v) = val_PublicKeyResponse v"
  "val_MnemonicResponse (visible v) = val_MnemonicResponse v"
  "val_SupportedSignAlgorithmsResponse (visible v) = val_SupportedSignAlgorithmsResponse v"
  by (simp_all add: val_responses field_visible readers_visible val_bytes_def vals_bytes_visible comp_def)

lemma val_responses_val:
  "val_RandomBytesResponse (RandomBytesResponse_val r1) = r1" "val_SignResponse (SignResponse_val r2) = r2"
  "val_PublicKeyResponse (PublicKeyResponse_val r3) = r3" "val_MnemonicResponse (MnemonicResponse_val r4) = r4"
  "val_SupportedSignAlgorithmsResponse (SupportedSignAlgorithmsResponse_val r5) = r5"
  by (simp_all add: val_responses response_vals field_simps_struct val_bytes_def bytes_val_def val_elems_def
      vals_byte_vals strings_val_def val_string_def comp_def chars_ascii)

text \<open>The type of the answer to a request, and how the clients read it.\<close>

fun answerT :: "token_request \<Rightarrow> go_type" where
  "answerT (MnemonicRq p) = mnemonicResponseT"
| "answerT AlgorithmsRq = algorithmsResponseT"
| "answerT _ = dataResponseT"

fun read_answer :: "token_request \<Rightarrow> go_val \<Rightarrow> token_answer" where
  "read_answer (RandomBytesRq n) v = DataA (RandomBytesResponse_Data (val_RandomBytesResponse v))"
| "read_answer (SignRq m p a) v = DataA (SignResponse_Data (val_SignResponse v))"
| "read_answer (PublicKeyRq p) v = DataA (PublicKeyResponse_Data (val_PublicKeyResponse v))"
| "read_answer (MnemonicRq p) v = WordsA (Words (val_MnemonicResponse v))"
| "read_answer AlgorithmsRq v = AlgorithmsA (Algorithms (val_SupportedSignAlgorithmsResponse v))"

text \<open>An answer of the right kind that survives JSON: words in UTF-8 and algorithms within 32 bits.\<close>

fun answer_ok :: "token_request \<Rightarrow> token_answer \<Rightarrow> bool" where
  "answer_ok (MnemonicRq p) (WordsA ws) = (\<forall>x \<in> set ws. valid_utf8 (ascii x))"
| "answer_ok AlgorithmsRq (AlgorithmsA as) = True"
| "answer_ok (RandomBytesRq n) (DataA b) = True"
| "answer_ok (SignRq m p a) (DataA b) = True"
| "answer_ok (PublicKeyRq p) (DataA b) = True"
| "answer_ok _ _ = False"

lemma answer_types_ok: "type_ok (answerT q)" "type_depth (answerT q) \<le> maxNestingDepth"
  by (cases q; simp add: messageT_defs field_names_valid maxNestingDepth_def; simp add: ascii_def)+

definition answer_val :: "uint32 \<Rightarrow> token_answer \<Rightarrow> go_val" where
  "answer_val i a = StructV [word_val i, (case a of DataA b \<Rightarrow> bytes_val b | WordsA ws \<Rightarrow> strings_val ws
     | AlgorithmsA as \<Rightarrow> SliceV (map word_val as) [])]"

lemma answer_val_typed: "answer_ok q a \<Longrightarrow> has_type (answerT q) (answer_val i a) \<and> texts_ok (answer_val i a)"
  using uint32_bound byte_vals_typed
  by (cases "(q, a)" rule: answer_ok.cases)
     (auto simp: messageT_defs answer_val_def word_val_def bytes_val_def strings_val_def all_typed_iff byte_vals_def)

lemma answer_text_val: "answer_ok q a \<Longrightarrow> answer_text i a = json_Marshal (answerT q) (answer_val i a)"
  by (cases "(q, a)" rule: answer_ok.cases) (auto simp: answer_val_def)

lemma read_answer_val: "answer_ok q a \<Longrightarrow> read_answer q (answer_val i a) = a"
  using val_responses_val(1) [of "\<lparr>Response_ID = i, RandomBytesResponse_Data = b\<rparr>" for b]
    val_responses_val(2) [of "\<lparr>Response_ID = i, SignResponse_Data = b\<rparr>" for b]
    val_responses_val(3) [of "\<lparr>Response_ID = i, PublicKeyResponse_Data = b\<rparr>" for b]
    val_responses_val(4) [of "\<lparr>Response_ID = i, Words = ws\<rparr>" for ws]
    val_responses_val(5) [of "\<lparr>Response_ID = i, Algorithms = as\<rparr>" for as]
  by (cases "(q, a)" rule: answer_ok.cases) (auto simp: answer_val_def response_vals)

lemma read_answer_visible: "read_answer q (visible v) = read_answer q v"
  by (cases q) (simp_all add: val_responses_visible)

lemma UnpackResponse_answer:
  assumes "answer_ok q a"
  shows "\<exists>v. UnpackResponse (answer_text i a) (answerT q) (zero_value (answerT q)) = Ret (v, None) \<and> read_answer q v = a"
proof -
  from json_roundtrip [OF _ answer_types_ok(1) _ answer_types_ok(2) zero_typed] answer_val_typed [OF assms, of i]
  obtain u where "json_Unmarshal (answerT q) (zero_value (answerT q)) (json_Marshal (answerT q) (answer_val i a)) = Ret (u, None)"
    "visible u = visible (answer_val i a)" by blast
  note u = this
  from u(2) have "read_answer q u = a"
    using read_answer_visible [of q u] read_answer_visible [of q "answer_val i a"] read_answer_val [OF assms, of i] by simp
  with u(1) answer_text_val [OF assms, of i] show ?thesis
    by (simp add: UnpackResponse_def unmarshal_def)
qed

end
