(* ===== verification/Applet.thy ===== *)
theory Applet
  imports Tz_Rpc Applet_Token Token_Request
begin

text \<open>
  The cryptography applet (\<open>src/tee/cryptography_applet/main.go\<close>) and a request that runs it: the applet
  fetches its mail, dispatches it on a fresh token, writes the response and exits; a panic is reported to
  the trusted OS.  The calls into the trusted OS are the argument \<open>call\<close>.
\<close>

section \<open>The applet\<close>

text \<open>\<open>l.Fatalw\<close> ends the program with \<open>os.Exit(1)\<close>.\<close>

datatype applet_end = AppletExit | AppletFatal go_error

definition applet_body ::
  "('c \<times> 'w) rpcCallFunc \<Rightarrow> ('t, 'w) Token \<Rightarrow> 't \<Rightarrow> 'c \<times> 'w \<Rightarrow> (applet_end \<times> 'c \<times> 'w) go" where
  "applet_body call T t s =
     go_bind (client_RetrieveMail call AppletID s) (\<lambda>((mail, err), (c1, w1)).
       case err of
         Some e \<Rightarrow> Panic (ExplicitPanic (error_text e))
       | None \<Rightarrow>
           go_bind (Dispatch (Payload mail) T t w1) (\<lambda>(resp, w2).
             case resp of
               Inl e \<Rightarrow> Ret (AppletFatal e, c1, w2)
             | Inr r \<Rightarrow>
                 go_bind (client_WriteResponse call (mail\<lparr>Payload := r\<rparr>) (c1, w2)) (\<lambda>(err, s3).
                   case err of
                     Some e \<Rightarrow> Panic (ExplicitPanic (error_text e))
                   | None \<Rightarrow> Ret (AppletExit, s3))))"

text \<open>The deferred handler reports a panic with the system call 666; \<open>trace\<close> is the stack trace.\<close>

definition handlePanic :: "panic \<Rightarrow> bytes \<Rightarrow> bytes" where
  "handlePanic p trace = ExitWithError (panic_text p) trace"

datatype 's applet_outcome = Finished applet_end 's | Reported bytes

definition applet_main ::
  "('c \<times> 'w) rpcCallFunc \<Rightarrow> ('k, 'sk, 'w) token_env \<Rightarrow> bytes \<Rightarrow> 'c \<times> 'w \<Rightarrow> ('c \<times> 'w) applet_outcome" where
  "applet_main call env trace s =
     (case applet_body call (AppletToken_impl env) NewToken s of
        Ret (e, s') \<Rightarrow> Finished e s'
      | Panic p \<Rightarrow> Reported (handlePanic p trace))"

section \<open>What the applet and the trusted OS rely on\<close>

text \<open>
  The calls of the secure world reach the receiver \<open>SecureRPC\<close>.  Only mail that fits a client's first
  buffer is assumed to arrive.
\<close>

definition mail_size :: "Mail \<Rightarrow> nat" where
  "mail_size m = reply_size (Inr (marshal_value MailT (Mail_val m)))"

definition secure_rpc :: "(Context \<times> 'w) rpcCallFunc \<Rightarrow> bool" where
  "secure_rpc call \<longleftrightarrow>
     (\<forall>c w i m out c'. SecureRPC_RetrieveMail c i m = ((None, out), c') \<longrightarrow> mail_size out \<le> minRead \<longrightarrow>
        (\<exists>w'. call ''SecureRPC.RetrieveMail'' (AppIDArg i) (MailDest m) (c, w) = Ret ((None, MailDest out), (c', w')))) \<and>
     (\<forall>c w m c'. SecureRPC_WriteResponse c m = (None, c') \<longrightarrow>
        (\<exists>w'. call ''SecureRPC.WriteResponse'' (MailArg m) NilDest (c, w) = Ret ((None, NilDest), (c', w')))) \<and>
     (\<forall>c w m e c'. SecureRPC_WriteResponse c m = (Some e, c') \<longrightarrow>
        (\<exists>w'. call ''SecureRPC.WriteResponse'' (MailArg m) NilDest (c, w) =
           Ret ((Some (ServerError (error_text e)), NilDest), (c', w'))))"

text \<open>The run of a context ends in a system call whose handler gives an error.\<close>

definition stops_in :: "'w teelib \<Rightarrow> ExecCtx \<Rightarrow> Context \<Rightarrow> 'w \<Rightarrow> ExecCtx \<Rightarrow> Context \<Rightarrow> 'w \<Rightarrow> bool" where
  "stops_in lib x c w x1 c1 w1 \<longleftrightarrow>
     exec_Run lib x c w = go_bind (logHandler lib x1 c1 w1) (\<lambda>(err, c2, w2). Ret (err, x1, c2, w2))"

text \<open>
  The monitor runs the applet: it ends in the exit call, or in the call that reports its panic.  What
  \<open>os.Exit\<close> does on the target is left open.
\<close>

definition runs_applet ::
  "'w teelib \<Rightarrow> (Context \<times> 'w) rpcCallFunc \<Rightarrow> ('k, 'sk, 'w) token_env \<Rightarrow> bytes \<Rightarrow> bool" where
  "runs_applet lib call env trace \<longleftrightarrow>
     SYS_WRITE lib \<noteq> SYS_EXIT lib \<and> SYS_WRITE lib \<noteq> 666 \<and> SYS_EXIT lib \<noteq> 666 \<and>
     (\<forall>x c w. ex_Server x = SecureReceiver \<longrightarrow>
        (case applet_main call env trace (c, w) of
           Finished e s1 \<Rightarrow>
             (e = AppletExit \<longrightarrow>
                (\<exists>x1. ex_R0 x1 = SYS_EXIT lib \<and> \<not> ex_NonSecure x1 \<and> stops_in lib x c w x1 (fst s1) (snd s1)))
         | Reported b \<Rightarrow> (\<exists>x1 c1 w1. ex_R0 x1 = 666 \<and> \<not> ex_NonSecure x1 \<and> stops_in lib x c w x1 c1 w1)))"

lemma runs_applet_ends:
  assumes "runs_applet lib call env trace" "ex_Server x = SecureReceiver"
  shows "applet_main call env trace (c, w) = Finished AppletExit s1 \<Longrightarrow>
      \<exists>x1. ex_R0 x1 = SYS_EXIT lib \<and> \<not> ex_NonSecure x1 \<and> stops_in lib x c w x1 (fst s1) (snd s1)"
    and "applet_main call env trace (c, w) = Reported b \<Longrightarrow>
      \<exists>x1 c1 w1. ex_R0 x1 = 666 \<and> \<not> ex_NonSecure x1 \<and> stops_in lib x c w x1 c1 w1"
proof -
  from assms have "case applet_main call env trace (c, w) of
      Finished e s1 \<Rightarrow> e = AppletExit \<longrightarrow>
        (\<exists>x1. ex_R0 x1 = SYS_EXIT lib \<and> \<not> ex_NonSecure x1 \<and> stops_in lib x c w x1 (fst s1) (snd s1))
    | Reported b \<Rightarrow> \<exists>x1 c1 w1. ex_R0 x1 = 666 \<and> \<not> ex_NonSecure x1 \<and> stops_in lib x c w x1 c1 w1"
    unfolding runs_applet_def by blast
  then show "applet_main call env trace (c, w) = Finished AppletExit s1 \<Longrightarrow>
      \<exists>x1. ex_R0 x1 = SYS_EXIT lib \<and> \<not> ex_NonSecure x1 \<and> stops_in lib x c w x1 (fst s1) (snd s1)"
    and "applet_main call env trace (c, w) = Reported b \<Longrightarrow>
      \<exists>x1 c1 w1. ex_R0 x1 = 666 \<and> \<not> ex_NonSecure x1 \<and> stops_in lib x c w x1 c1 w1" by simp_all
qed

lemma runs_applet_numbers:
  "runs_applet lib call env trace \<Longrightarrow> SYS_WRITE lib \<noteq> SYS_EXIT lib \<and> SYS_WRITE lib \<noteq> 666 \<and> SYS_EXIT lib \<noteq> 666"
  by (simp add: runs_applet_def)

section \<open>One run\<close>

text \<open>The context after an applet has answered its mail.\<close>

definition after_answer :: "Context \<Rightarrow> bytes \<Rightarrow> Context" where
  "after_answer c r =
     c\<lparr>mailbox := (mailbox c)(AppletID := None), resultBox := (resultBox c)(AppletID \<mapsto> r)\<rparr>"

lemma applet_fetches:
  assumes "secure_rpc call" "mailbox c AppletID = Some p" "mail_size \<lparr>AppID = AppletID, Payload = p\<rparr> \<le> minRead"
  shows "\<exists>w'. client_RetrieveMail call AppletID (c, w) =
    Ret ((\<lparr>AppID = AppletID, Payload = p\<rparr>, None), (c\<lparr>mailbox := (mailbox c)(AppletID := None)\<rparr>, w'))"
proof -
  have "SecureRPC_RetrieveMail c AppletID Mail_zero =
      ((None, \<lparr>AppID = AppletID, Payload = p\<rparr>), c\<lparr>mailbox := (mailbox c)(AppletID := None)\<rparr>)"
    using assms(2) by (simp add: SecureRPC_RetrieveMail_def RetrieveMail_def CopyFrom_def Mail_zero_def)
  with assms(1,3) obtain w' where "call ''SecureRPC.RetrieveMail'' (AppIDArg AppletID) (MailDest Mail_zero) (c, w) =
      Ret ((None, MailDest \<lparr>AppID = AppletID, Payload = p\<rparr>), (c\<lparr>mailbox := (mailbox c)(AppletID := None)\<rparr>, w'))"
    unfolding secure_rpc_def by blast
  then show ?thesis
    by (auto simp: client_RetrieveMail_def callRPC_def dest_mail_def)
qed

lemma applet_writes:
  assumes "secure_rpc call" "resultBox c AppletID = None"
  shows "\<exists>w'. client_WriteResponse call \<lparr>AppID = AppletID, Payload = r\<rparr> (c, w) =
    Ret (None, (c\<lparr>resultBox := (resultBox c)(AppletID \<mapsto> r)\<rparr>, w'))"
proof -
  have "SecureRPC_WriteResponse c \<lparr>AppID = AppletID, Payload = r\<rparr> = (None, c\<lparr>resultBox := (resultBox c)(AppletID \<mapsto> r)\<rparr>)"
    using assms(2) by (simp add: SecureRPC_WriteResponse_def WriteResponse_def)
  with assms(1) obtain w' where "call ''SecureRPC.WriteResponse'' (MailArg \<lparr>AppID = AppletID, Payload = r\<rparr>) NilDest (c, w) =
      Ret ((None, NilDest), (c\<lparr>resultBox := (resultBox c)(AppletID \<mapsto> r)\<rparr>, w'))"
    unfolding secure_rpc_def by blast
  then show ?thesis
    by (auto simp: client_WriteResponse_def callRPC_def)
qed

lemma applet_answers:
  assumes "secure_rpc call" "mailbox c AppletID = Some p" "mail_size \<lparr>AppID = AppletID, Payload = p\<rparr> \<le> minRead"
    and "resultBox c AppletID = None"
    and "\<And>w1. \<exists>r w2. Dispatch p (AppletToken_impl env) NewToken w1 = Ret (Inr r, w2) \<and> r \<in> R"
  shows "\<exists>r w'. applet_main call env trace (c, w) = Finished AppletExit (after_answer c r, w') \<and> r \<in> R"
proof -
  from applet_fetches [OF assms(1,2,3)] obtain w1 where w1: "client_RetrieveMail call AppletID (c, w) =
    Ret ((\<lparr>AppID = AppletID, Payload = p\<rparr>, None), (c\<lparr>mailbox := (mailbox c)(AppletID := None)\<rparr>, w1))" by blast
  from assms(5) obtain r w2 where r: "Dispatch p (AppletToken_impl env) NewToken w1 = Ret (Inr r, w2)" "r \<in> R" by blast
  from applet_writes [OF assms(1), of "c\<lparr>mailbox := (mailbox c)(AppletID := None)\<rparr>" r w2] assms(4) obtain w3 where
    "client_WriteResponse call \<lparr>AppID = AppletID, Payload = r\<rparr> (c\<lparr>mailbox := (mailbox c)(AppletID := None)\<rparr>, w2) =
      Ret (None, (after_answer c r, w3))" by (auto simp: after_answer_def)
  with w1 r show ?thesis
    by (auto simp: applet_main_def applet_body_def)
qed

lemma applet_crashes:
  assumes "secure_rpc call" "mailbox c AppletID = Some p" "mail_size \<lparr>AppID = AppletID, Payload = p\<rparr> \<le> minRead"
    and "\<And>w1. \<exists>q. Dispatch p (AppletToken_impl env) NewToken w1 = Panic q"
  shows "\<exists>b. applet_main call env trace (c, w) = Reported b"
proof -
  from applet_fetches [OF assms(1,2,3)] obtain w1 where w1: "client_RetrieveMail call AppletID (c, w) =
    Ret ((\<lparr>AppID = AppletID, Payload = p\<rparr>, None), (c\<lparr>mailbox := (mailbox c)(AppletID := None)\<rparr>, w1))" by blast
  from assms(4) obtain q where "Dispatch p (AppletToken_impl env) NewToken w1 = Panic q" by blast
  with w1 show ?thesis
    by (auto simp: applet_main_def applet_body_def)
qed

text \<open>No error of the call that reports a panic is the exit error of an applet.\<close>

lemma report_not_exit: "\<not> errors_Is (ClientPanic_error cp) ErrTAExit"
proof -
  have "CHR 0x0a \<in> set (ClientPanic_Error cp)" by (simp add: ClientPanic_Error_def)
  then have "ClientPanic_Error cp \<noteq> ''ta exit''" by force
  then show ?thesis by (simp add: ClientPanic_error_def ErrTAExit_def)
qed

lemma decode_error_not_exit: "decode_error (Some e) \<Longrightarrow> \<not> errors_Is e ErrTAExit"
  by (cases e) (auto simp: decode_error_def ErrTAExit_def)

lemma logHandler_exit:
  assumes "SYS_WRITE lib \<noteq> SYS_EXIT lib" "ex_R0 x = SYS_EXIT lib" "\<not> ex_NonSecure x"
  shows "logHandler lib x c w = Ret (Some ErrTAExit, c, w)"
  using assms by (simp add: logHandler_def)

lemma logHandler_report:
  assumes "SYS_WRITE lib \<noteq> 666" "SYS_EXIT lib \<noteq> 666" "ex_R0 x = 666"
    and "logHandler lib x c w = Ret (err, c', w')"
  shows "\<exists>e. err = Some e \<and> \<not> errors_Is e ErrTAExit"
proof -
  have "\<not> errors_Is (Wrap ''cannot unmarshal TA error'' e) ErrTAExit"
    if "json_Unmarshal t v b = Ret (u, Some e)" for t v b u e
    using decode_error_not_exit [OF json_Unmarshal_error [OF that]] by (simp add: ErrTAExit_def)
  with assms report_not_exit show ?thesis
    by (fastforce simp: logHandler_def ErrTAExit_def Let_def split: if_splits prod.splits option.splits elim!: go_bind_RetE)
qed

text \<open>What \<open>run\<close> makes of an applet: its answer is in the result box, or the trusted OS panics.\<close>

lemma run_exit:
  assumes "runs_applet lib call env trace" "ex_Server x = SecureReceiver"
    and "applet_main call env trace (c, w) = Finished AppletExit (c1, w1)"
  shows "run lib x c w = Ret (c1, w1)"
proof -
  from runs_applet_ends(1) [OF assms] obtain x1 where x1: "ex_R0 x1 = SYS_EXIT lib" "\<not> ex_NonSecure x1"
    "stops_in lib x c w x1 c1 w1" by auto
  with logHandler_exit [OF _ x1(1,2), of c1 w1] runs_applet_numbers [OF assms(1)] show ?thesis
    by (simp add: run_def stops_in_def ErrTAExit_def)
qed

lemma run_report:
  assumes "runs_applet lib call env trace" "ex_Server x = SecureReceiver"
    and "applet_main call env trace (c, w) = Reported b"
  shows "\<exists>q. run lib x c w = Panic q"
proof -
  from runs_applet_ends(2) [OF assms] obtain x1 c1 w1 where x1: "ex_R0 x1 = 666" "\<not> ex_NonSecure x1"
    "stops_in lib x c w x1 c1 w1" by blast
  from runs_applet_numbers [OF assms(1)] have num: "SYS_WRITE lib \<noteq> 666" "SYS_EXIT lib \<noteq> 666" by simp_all
  show ?thesis
  proof (cases "logHandler lib x1 c1 w1")
    case (Ret r)
    with logHandler_report [OF num x1(1)] x1(2,3) show ?thesis
      by (cases r) (fastforce simp: run_def stops_in_def)
  next
    case (Panic q)
    with x1(3) show ?thesis by (simp add: run_def stops_in_def)
  qed
qed

section \<open>What the token does to the world\<close>

text \<open>The token of the applet touches the world only when it draws random bytes.\<close>

lemma applet_token_world:
  "Initialize (AppletToken_impl env) t p w = Ret (e, t', w') \<Longrightarrow> w' = w"
  "Sign (AppletToken_impl env) t m a w = Ret (r, w') \<Longrightarrow> w' = w"
  "PublicKey (AppletToken_impl env) t w = Ret (r, w') \<Longrightarrow> w' = w"
  "Mnemonic (AppletToken_impl env) t w = Ret (ws, w') \<Longrightarrow> w' = w"
  by (auto simp: AppletToken_impl_def AppletToken_Initialize_eq AppletToken_Sign_def AppletToken_PublicKey_def
      AppletToken_Mnemonic_def applet_secret split: sum.splits option.splits)

lemma Dispatch_world:
  assumes "\<And>n w. f (snd (env_rand env n w)) = f w" "Dispatch p (AppletToken_impl env) t w = Ret (r, w')"
  shows "f w' = f w"
proof -
  have rand: "f w2 = f w1" if "RandomBytes (AppletToken_impl env) t n w1 = Ret (b, w2)" for n w1 b w2
    using that assms(1) [of "unat n" w1]
    by (auto simp: AppletToken_impl_def AppletToken_RandomBytes_def split: if_splits)
  note world = applet_token_world rand
  from assms(2) obtain i where "RequestedOp p = Ret i" by (auto simp: Dispatch_def elim: go_bind_RetE)
  with assms(2) show ?thesis
    by (auto simp: Dispatch_def dispatch_RandomBytes_def dispatch_Sign_def dispatch_PublicKey_def dispatch_Mnemonic_def
        dispatch_SupportedSignAlgorithms_def Let_def elim!: go_bind_RetE dest!: world
        split: sum.splits option.splits if_splits)
qed

section \<open>Dispatch of one mail\<close>

definition loads_applets :: "'w teelib \<Rightarrow> bool" where
  "loads_applets lib \<longleftrightarrow>
     (\<forall>img w. fst (elf_Load lib img w) = None) \<and> (\<forall>e r w. \<exists>ta. fst (monitor_Load lib e r True w) = Inr ta)"

lemma loadTA_ok:
  assumes "loads_applets lib" "Apps c k \<noteq> None"
  shows "\<exists>ta w'. loadTA lib c k w = (Inr ta, w') \<and> ex_Server ta = SecureReceiver"
proof -
  from assms(2) obtain img where img: "Apps c k = Some img" by auto
  obtain w1 where w1: "elf_Load lib img w = (None, w1)"
    using assms(1) by (metis loads_applets_def prod.collapse)
  obtain ta w2 where "monitor_Load lib (elf_Entry lib img) (img_Region img) True w1 = (Inr ta, w2)"
    using assms(1) by (metis loads_applets_def prod.collapse)
  with img w1 show ?thesis by (simp add: loadTA_def)
qed

lemma dispatch_one:
  assumes "loads_applets lib" "mailbox c = [k \<mapsto> m]" "Apps c k \<noteq> None"
    and "\<And>ta w1. ex_Server ta = SecureReceiver \<Longrightarrow> \<exists>c2 w2. run lib ta c w1 = Ret (c2, w2) \<and> c2 \<in> C \<and> mailbox c2 = Map.empty"
  shows "k \<in> set keys \<Longrightarrow> \<exists>c2 w2. dispatchAppsCalls lib keys c w = Ret (c2, w2) \<and> c2 \<in> C \<and> mailbox c2 = Map.empty"
proof (induction keys)
  case (Cons j keys)
  show ?case
  proof (cases "j = k")
    case True
    from loadTA_ok [OF assms(1,3)] obtain ta w1 where ta: "loadTA lib c k w = (Inr ta, w1)" "ex_Server ta = SecureReceiver"
      by blast
    from assms(4) [OF ta(2), of w1] obtain c2 w2 where c2: "run lib ta c w1 = Ret (c2, w2)" "c2 \<in> C" "mailbox c2 = Map.empty"
      by blast
    with True ta(1) assms(2) dispatch_idle [OF c2(3), of lib keys w2] show ?thesis by simp
  next
    case False
    with Cons assms(2) show ?thesis by simp
  qed
qed simp

lemma dispatch_crash:
  assumes "loads_applets lib" "mailbox c = [k \<mapsto> m]" "Apps c k \<noteq> None"
    and "\<And>ta w1. ex_Server ta = SecureReceiver \<Longrightarrow> \<exists>q. run lib ta c w1 = Panic q"
  shows "k \<in> set keys \<Longrightarrow> \<exists>q. dispatchAppsCalls lib keys c w = Panic q"
proof (induction keys)
  case (Cons j keys)
  show ?case
  proof (cases "j = k")
    case True
    from loadTA_ok [OF assms(1,3)] obtain ta w1 where ta: "loadTA lib c k w = (Inr ta, w1)" "ex_Server ta = SecureReceiver"
      by blast
    from assms(4) [OF ta(2), of w1] True ta(1) assms(2) show ?thesis by auto
  next
    case False
    with Cons assms(2) show ?thesis by simp
  qed
qed simp

end
