(* ===== verification/Tee_Token.thy ===== *)
theory Tee_Token
  imports Applet
begin

text \<open>
  The token of the nonsecure world (\<open>src/tee/cryptography_applet/token/client/tee_token.go\<close>): every
  operation is a request to the cryptography applet.  The remote call is the argument \<open>call\<close>.
\<close>

section \<open>The token\<close>

record TEEToken =
  tt_path :: DerivationPath

definition doRequest ::
  "'s rpcCallFunc \<Rightarrow> go_type \<Rightarrow> go_val \<Rightarrow> go_type \<Rightarrow> go_val \<Rightarrow> 's \<Rightarrow> ((go_error option \<times> go_val) \<times> 's) go" where
  "doRequest call reqT req respT resp s =
     (case PackageRequest reqT req of
        Inl e \<Rightarrow> Ret ((Some e, resp), s)
      | Inr reqBytes \<Rightarrow>
          let m = \<lparr>AppID = AppletID, Payload = reqBytes\<rparr>
          in go_bind (client_SendMail call m s) (\<lambda>(err, s1).
               case err of
                 Some e \<Rightarrow> Ret ((Some e, resp), s1)
               | None \<Rightarrow>
                   go_bind (client_RetrieveResult call (AppID m) s1) (\<lambda>((res, err), s2).
                     case err of
                       Some e \<Rightarrow> Ret ((Some e, resp), s2)
                     | None \<Rightarrow>
                         go_bind (UnpackResponse (Payload res) respT resp) (\<lambda>(v, err).
                           case err of
                             Some e \<Rightarrow> Ret ((Some e, v), s2)
                           | None \<Rightarrow> Ret ((None, v), s2)))))"

definition TEEToken_RandomBytes :: "'s rpcCallFunc \<Rightarrow> TEEToken \<Rightarrow> uint64 \<Rightarrow> 's \<Rightarrow> ((go_error + bytes) \<times> 's) go" where
  "TEEToken_RandomBytes call tt amount s =
     (let req = \<lparr>Request_ID = RequestRandomBytes, Amount = amount\<rparr>
      in go_bind (doRequest call randomBytesRequestT (RandomBytesRequest_val req) dataResponseT (zero_value dataResponseT) s)
           (\<lambda>((err, resp), s').
              case err of
                Some e \<Rightarrow> Ret (Inl e, s')
              | None \<Rightarrow> Ret (Inr (RandomBytesResponse_Data (val_RandomBytesResponse resp)), s')))"

definition TEEToken_DeriveSecret :: "TEEToken \<Rightarrow> 's \<Rightarrow> ((go_error + bytes) \<times> 's) go" where
  "TEEToken_DeriveSecret tt s = Ret (Inr (replicate 32 0), s)"

definition TEEToken_Initialize :: "TEEToken \<Rightarrow> DerivationPath \<Rightarrow> 's \<Rightarrow> (go_error option \<times> TEEToken \<times> 's) go" where
  "TEEToken_Initialize tt path s = Ret (None, tt\<lparr>tt_path := path\<rparr>, s)"

definition TEEToken_Sign ::
  "'s rpcCallFunc \<Rightarrow> TEEToken \<Rightarrow> bytes \<Rightarrow> Algorithm \<Rightarrow> 's \<Rightarrow> ((go_error + bytes) \<times> 's) go" where
  "TEEToken_Sign call tt data algorithm s =
     (let hs = Sum256 data;
          req = \<lparr>Request_ID = RequestSign, SignRequest_Data = hs, SignRequest_Path = tt_path tt,
                 SignRequest_Algorithm = AlgoSecp256K1\<rparr>
      in go_bind (doRequest call signRequestT (SignRequest_val req) dataResponseT (zero_value dataResponseT) s)
           (\<lambda>((err, resp), s').
              case err of
                Some e \<Rightarrow> Ret (Inl e, s')
              | None \<Rightarrow> Ret (Inr (SignResponse_Data (val_SignResponse resp)), s')))"

definition TEEToken_PublicKey :: "'s rpcCallFunc \<Rightarrow> TEEToken \<Rightarrow> 's \<Rightarrow> ((go_error + bytes) \<times> 's) go" where
  "TEEToken_PublicKey call tt s =
     (let req = \<lparr>Request_ID = RequestPublicKey, PublicKeyRequest_Path = tt_path tt\<rparr>
      in go_bind (doRequest call pathRequestT (PublicKeyRequest_val req) dataResponseT (zero_value dataResponseT) s)
           (\<lambda>((err, resp), s').
              case err of
                Some e \<Rightarrow> Ret (Inl e, s')
              | None \<Rightarrow> Ret (Inr (PublicKeyResponse_Data (val_PublicKeyResponse resp)), s')))"

definition TEEToken_Mnemonic :: "'s rpcCallFunc \<Rightarrow> TEEToken \<Rightarrow> 's \<Rightarrow> ((go_error + string list) \<times> 's) go" where
  "TEEToken_Mnemonic call tt s =
     (let req = \<lparr>Request_ID = RequestMnemonic, MnemonicRequest_Path = tt_path tt\<rparr>
      in go_bind (doRequest call pathRequestT (MnemonicRequest_val req) mnemonicResponseT (zero_value mnemonicResponseT) s)
           (\<lambda>((err, resp), s').
              case err of
                Some e \<Rightarrow> Ret (Inl e, s')
              | None \<Rightarrow> Ret (Inr (Words (val_MnemonicResponse resp)), s')))"

definition TEEToken_SupportedSignAlgorithms :: "TEEToken \<Rightarrow> Algorithm list" where
  "TEEToken_SupportedSignAlgorithms tt = [AlgoSecp256K1]"

definition TEEToken_Clone :: "TEEToken \<Rightarrow> TEEToken" where
  "TEEToken_Clone tt = tt"

definition TEEToken_impl :: "'s rpcCallFunc \<Rightarrow> (TEEToken, 's) Token" where
  "TEEToken_impl call = \<lparr>
     RandomBytes = TEEToken_RandomBytes call,
     DeriveSecret = TEEToken_DeriveSecret,
     Initialize = TEEToken_Initialize,
     Sign = TEEToken_Sign call,
     PublicKey = TEEToken_PublicKey call,
     Mnemonic = TEEToken_Mnemonic call,
     Clone = TEEToken_Clone,
     SupportedSignAlgorithms = TEEToken_SupportedSignAlgorithms\<rparr>"

interpretation tee: token_contract "TEEToken_impl call" for call :: "'s rpcCallFunc"
  by unfold_locales (auto simp: TEEToken_impl_def TEEToken_Clone_def TEEToken_Initialize_def)

section \<open>A request to the applet\<close>

text \<open>The trusted OS and the monitor as the earlier theories describe them, with the applet registered.\<close>

definition tee_system ::
  "'w teelib \<Rightarrow> 'w ns_machine \<Rightarrow> (Context \<times> 'w) rpcCallFunc \<Rightarrow> ('k, 'sk, 'w) token_env \<Rightarrow> bytes \<Rightarrow> app_id list \<Rightarrow> bool" where
  "tee_system lib M secure_call env trace keys \<longleftrightarrow>
     monitor_rpc lib M \<and> applets_apart lib M \<and> loads_applets lib \<and> secure_rpc secure_call \<and>
     runs_applet lib secure_call env trace \<and> AppletID \<in> set keys"

definition tee_ready :: "'w ns_machine \<Rightarrow> Context \<times> 'w \<Rightarrow> bool" where
  "tee_ready M s \<longleftrightarrow> ns_idle M s \<and> resultBox (fst s) AppletID = None \<and> Apps (fst s) AppletID \<noteq> None"

abbreviation nonsecure_Call :: "'w teelib \<Rightarrow> 'w ns_machine \<Rightarrow> app_id list \<Rightarrow> (Context \<times> 'w) rpcCallFunc" where
  "nonsecure_Call lib M keys \<equiv> Call (smc_syscalls lib M keys)"

lemma mail_request_length:
  "length (rpc_request_text ''NonsecureRPC.SendMail'' (arg_json (MailArg m))) \<le> mail_size m + 100"
proof -
  have "length (quoted ''method'') = 8" "length (quoted ''params'') = 8" "length (quoted ''NonsecureRPC.SendMail'') = 23"
    by code_simp+
  then show ?thesis
    by (simp add: rpc_request_text_def request_json_def mail_size_def reply_size_def response_json_def newline_def text_lengths)
qed

lemma id_request_length:
  "length (rpc_request_text ''NonsecureRPC.RetrieveResult'' (arg_json (AppIDArg AppletID))) < 2 ^ 32"
proof -
  have "length (quoted ''method'') = 8" "length (quoted ''params'') = 8" "length (quoted ''NonsecureRPC.RetrieveResult'') = 29"
    by code_simp+
  then show ?thesis
    by (simp add: rpc_request_text_def request_json_def newline_def text_lengths uintT_def word_val_def AppletID_def)
qed

text \<open>Sending the request runs the applet, which leaves its answer in the result box.\<close>

lemma request_sent:
  assumes sys: "tee_system lib M call env trace keys" and ready: "tee_ready M s"
    and size: "mail_size \<lparr>AppID = AppletID, Payload = p\<rparr> \<le> minRead"
    and disp: "\<And>w. \<exists>r w'. Dispatch p (AppletToken_impl env) NewToken w = Ret (Inr r, w') \<and> r \<in> R"
  shows "\<exists>r s1. r \<in> R \<and> client_SendMail (nonsecure_Call lib M keys) \<lparr>AppID = AppletID, Payload = p\<rparr> s = Ret (None, s1) \<and>
    ns_idle M s1 \<and> fst s1 = (fst s)\<lparr>resultBox := (resultBox (fst s))(AppletID \<mapsto> r)\<rparr>"
proof -
  obtain c w where s: "s = (c, w)" by (cases s)
  let ?c1 = "c\<lparr>mailbox := [AppletID \<mapsto> p]\<rparr>"
  let ?C = "{c\<lparr>resultBox := (resultBox c)(AppletID \<mapsto> r)\<rparr> | r. r \<in> R}"
  from ready s have ctx: "mailbox c = Map.empty" "ex_Server (NonsecureWorld c) = NonsecureReceiver"
    "resultBox c AppletID = None" "Apps c AppletID \<noteq> None" by (auto simp: tee_ready_def ns_idle_def)
  from sys have parts: "monitor_rpc lib M" "applets_apart lib M" "loads_applets lib" "secure_rpc call"
    "runs_applet lib call env trace" "AppletID \<in> set keys" by (simp_all add: tee_system_def)
  have returned: "after_answer ?c1 r = c\<lparr>resultBox := (resultBox c)(AppletID \<mapsto> r)\<rparr>" for r
    using ctx(1) by (cases c) (simp add: after_answer_def fun_eq_iff)
  have run: "\<exists>c2 w2. run lib ta ?c1 w1 = Ret (c2, w2) \<and> c2 \<in> ?C \<and> mailbox c2 = Map.empty"
    if "ex_Server ta = SecureReceiver" for ta w1
  proof -
    from applet_answers [OF parts(4) _ size _ disp, of ?c1 trace w1] ctx(3) obtain r w2 where
      "applet_main call env trace (?c1, w1) = Finished AppletExit (after_answer ?c1 r, w2)" "r \<in> R" by auto
    with run_exit [OF parts(5) that] returned ctx(1) show ?thesis by auto
  qed
  have "\<exists>c2 w2. dispatchAppsCalls lib keys ?c1 w1 = Ret (c2, w2) \<and> c2 \<in> ?C \<and> mailbox c2 = Map.empty" for w1
    using dispatch_one [OF parts(3) _ _ run parts(6)] ctx(4) by auto
  then have dispatched: "\<exists>c2 w2. dispatchAppsCalls lib keys ?c1 w1 = Ret (c2, w2) \<and> c2 \<in> ?C \<and> mailbox c2 = Map.empty \<and>
      ex_Server (NonsecureWorld c2) = NonsecureReceiver" for w1
    using ctx(2) by fastforce
  have "NonsecureRPC_SendMail (fst s) \<lparr>AppID = AppletID, Payload = p\<rparr> = (None, ?c1)"
    using s ctx(1) by (simp add: NonsecureRPC_SendMail_def SendMail_def)
  moreover have "ns_idle M s" using ready by (simp add: tee_ready_def)
  moreover have "length (rpc_request_text ''NonsecureRPC.SendMail'' (arg_json (MailArg \<lparr>AppID = AppletID, Payload = p\<rparr>))) < 2 ^ 32"
    using mail_request_length [of "\<lparr>AppID = AppletID, Payload = p\<rparr>"] size by (simp add: minRead_def)
  ultimately show ?thesis
    using client_SendMail_ok [OF parts(1,2) _ _ _ dispatched] s by fastforce
qed

text \<open>The applet's mail has 42 as its number, so 342 bytes of payload fit.\<close>

lemma mail_fits: "mail_size \<lparr>AppID = AppletID, Payload = p\<rparr> \<le> minRead \<longleftrightarrow> length p \<le> 342"
  by (simp add: mail_size_def RetrieveResult_reply_size AppletID_def minRead_def) presburger

lemma empty_response: "UnpackResponse [] t v = Ret (v, Some SyntaxError)"
proof -
  have "\<not> json_valid []" by code_simp
  then show ?thesis by (simp add: UnpackResponse_def unmarshal_def json_Unmarshal_def)
qed

lemma answer_collected:
  assumes sys: "tee_system lib M call env trace keys" and ready: "tee_ready M s"
    and s1: "ns_idle M s1" "fst s1 = (fst s)\<lparr>resultBox := (resultBox (fst s))(AppletID \<mapsto> r)\<rparr>"
  shows "\<exists>s2. client_RetrieveResult (nonsecure_Call lib M keys) AppletID s1 =
      Ret ((if length r \<le> 342 then \<lparr>AppID = AppletID, Payload = r\<rparr> else Mail_zero, None), s2) \<and>
    fst s2 = fst s \<and> (length r \<le> 342 \<longrightarrow> tee_ready M s2)"
proof -
  let ?m = "\<lparr>AppID = AppletID, Payload = r\<rparr>"
  have ctx: "resultBox (fst s) AppletID = None" "ex_Server (NonsecureWorld (fst s)) = NonsecureReceiver"
    "mailbox (fst s) = Map.empty" "Apps (fst s) AppletID \<noteq> None"
    using ready by (auto simp: tee_ready_def ns_idle_def)
  then have "NonsecureRPC_RetrieveResult (fst s1) AppletID Mail_zero = ((None, ?m), fst s)"
    using s1(2) by (cases "fst s") (simp add: NonsecureRPC_RetrieveResult_def ReadResponse_def CopyFrom_def Mail_zero_def fun_upd_idem)
  from client_RetrieveResult_ok [OF _ _ s1(1) this ctx(3,2) id_request_length, of lib keys] sys
    mail_fits [of r] ctx(1,4) show ?thesis
    by (auto simp: tee_system_def tee_ready_def mail_size_def split: if_splits)
qed

text \<open>A whole request, for whatever the token answers: the answer, or a syntax error when it is too long.\<close>

lemma doRequest_result:
  assumes sys: "tee_system lib M call env trace keys" and ready: "tee_ready M s"
    and req: "PackageRequest reqT v = Inr (request_text q)" "length (request_text q) \<le> 342"
    and served: "\<And>w. \<exists>a w'. serve_request (AppletToken_impl env) NewToken q w = Ret (Inr a, w') \<and> a \<in> A"
    and ok: "\<And>a. a \<in> A \<Longrightarrow> answer_ok q a"
  shows "\<exists>a \<in> A. \<exists>s'. fst s' = fst s \<and>
    (if length (answer_text (request_id q) a) \<le> 342
     then tee_ready M s' \<and> (\<exists>u. doRequest (nonsecure_Call lib M keys) reqT v (answerT q) (zero_value (answerT q)) s =
       Ret ((None, u), s') \<and> read_answer q u = a)
     else doRequest (nonsecure_Call lib M keys) reqT v (answerT q) (zero_value (answerT q)) s =
       Ret ((Some SyntaxError, zero_value (answerT q)), s'))"
proof -
  let ?p = "request_text q"
  let ?m = "\<lparr>AppID = AppletID, Payload = ?p\<rparr>"
  have "\<exists>r w'. Dispatch ?p (AppletToken_impl env) NewToken w = Ret (Inr r, w') \<and> r \<in> answer_text (request_id q) ` A" for w
    using served [of w] Dispatch_request [of q "AppletToken_impl env" NewToken w] by (auto simp: answered_def)
  from request_sent [OF sys ready _ this] req(2) mail_fits [of ?p] obtain a s1 where a: "a \<in> A"
    and s1: "client_SendMail (nonsecure_Call lib M keys) ?m s = Ret (None, s1)" "ns_idle M s1"
      "fst s1 = (fst s)\<lparr>resultBox := (resultBox (fst s))(AppletID \<mapsto> answer_text (request_id q) a)\<rparr>" by auto
  from answer_collected [OF sys ready s1(2,3)] obtain s2 where
    s2: "client_RetrieveResult (nonsecure_Call lib M keys) AppletID s1 =
      Ret ((if length (answer_text (request_id q) a) \<le> 342
            then \<lparr>AppID = AppletID, Payload = answer_text (request_id q) a\<rparr> else Mail_zero, None), s2)"
    "fst s2 = fst s" "length (answer_text (request_id q) a) \<le> 342 \<longrightarrow> tee_ready M s2" by blast
  from UnpackResponse_answer [OF ok [OF a], of "request_id q"] obtain u where
    "UnpackResponse (answer_text (request_id q) a) (answerT q) (zero_value (answerT q)) = Ret (u, None)" "read_answer q u = a"
    by blast
  with a s1(1) s2 req(1) empty_response show ?thesis
    by (intro bexI [of _ a] exI [of _ s2]) (auto simp: doRequest_def Mail_zero_def)
qed

section \<open>Lengths\<close>

lemma decimal_length: "n < 10 ^ Suc k \<Longrightarrow> length (decimal n) \<le> Suc k"
proof (induction k arbitrary: n)
  case 0
  then show ?case by (simp add: decimal.simps [of n])
next
  case (Suc k)
  then have "n div 10 < 10 ^ Suc k" by (simp add: less_mult_imp_div_less)
  from Suc.IH [OF this] show ?case by (simp add: decimal.simps [of n])
qed

lemma word_text_lengths:
  "length (ascii (decimal (unat (x :: uint32)))) \<le> 10" "length (ascii (decimal (unat (y :: uint64)))) \<le> 20"
proof -
  have "unat x < 10 ^ Suc 9" using uint32_bound [of x] by simp
  from decimal_length [OF this] show "length (ascii (decimal (unat x))) \<le> 10" by (simp add: ascii_def)
  have "unat y < 10 ^ Suc 19" using uint64_bound [of y] by simp
  from decimal_length [OF this] show "length (ascii (decimal (unat y))) \<le> 20" by (simp add: ascii_def)
qed

lemma field_text_lengths:
  "length (quote_string (ascii ''ID'')) = 4" "length (quote_string (ascii ''Amount'')) = 8"
  "length (quote_string (ascii ''Data'')) = 6" "length (quote_string (ascii ''DerivationPath'')) = 16"
  "length (quote_string (ascii ''Algorithm'')) = 11" "length (quote_string (ascii ''Purpose'')) = 9"
  "length (quote_string (ascii ''CoinType'')) = 10" "length (quote_string (ascii ''Account'')) = 9"
  "length (quote_string (ascii ''Change'')) = 8" "length (quote_string (ascii ''AddressIndex'')) = 14"
  "length (quote_string (ascii ''Words'')) = 7" "length (quote_string (ascii ''Algorithms'')) = 12"
  by code_simp+

lemma path_text_length: "length (json_text (marshal_value pathT (path_val p))) \<le> 111"
  using word_text_lengths(1) [of "Purpose p"] word_text_lengths(1) [of "CoinType p"] word_text_lengths(1) [of "Account p"]
    word_text_lengths(1) [of "Change p"] word_text_lengths(1) [of "AddressIndex p"]
  by (simp add: pathT_def path_val_def word_val_def field_text_lengths)

text \<open>Every request of the token fits the applet's buffer.\<close>

fun hashed_request :: "token_request \<Rightarrow> token_request" where
  "hashed_request (SignRq m p a) = SignRq (Sum256 m) p AlgoSecp256K1"
| "hashed_request q = q"

lemma ID_text_lengths: "i < 5 \<Longrightarrow> length (ascii (decimal i)) = 1"
  by (simp add: ascii_def decimal.simps [of i])

lemma request_length: "length (request_text (hashed_request q)) \<le> 342"
proof (cases q)
  case (RandomBytesRq n)
  then show ?thesis
    using word_text_lengths(2) [of n]
    by (simp add: json_Marshal_def randomBytesRequestT_def RandomBytesRequest_val_def uintT_def word_val_def field_text_lengths
        request_ids ID_text_lengths)
next
  case (SignRq m p a)
  then show ?thesis
    using path_text_length [of p] word_text_lengths(1) [of AlgoSecp256K1]
    by (simp add: json_Marshal_def signRequestT_def SignRequest_val_def uintT_def word_val_def field_text_lengths
        request_ids ID_text_lengths bytesT_def bytes_val_def vals_byte_vals length_base64_encode)
next
  case (PublicKeyRq p)
  then show ?thesis
    using path_text_length [of p]
    by (simp add: json_Marshal_def pathRequestT_def PublicKeyRequest_val_def uintT_def word_val_def field_text_lengths
        request_ids ID_text_lengths)
next
  case (MnemonicRq p)
  then show ?thesis
    using path_text_length [of p]
    by (simp add: json_Marshal_def pathRequestT_def MnemonicRequest_val_def uintT_def word_val_def field_text_lengths
        request_ids ID_text_lengths)
next
  case AlgorithmsRq
  then show ?thesis
    by (simp add: json_Marshal_def requestT_def Request_val_def uintT_def word_val_def field_text_lengths
        request_ids ID_text_lengths)
qed

lemma data_answer_fits:
  assumes "unat i < 5"
  shows "length (answer_text i (DataA b)) \<le> 342 \<longleftrightarrow> length b \<le> 243"
  using assms
  by (simp add: json_Marshal_def dataResponseT_def uintT_def word_val_def field_text_lengths ID_text_lengths bytesT_def
      bytes_val_def vals_byte_vals length_base64_encode) presburger

lemma request_id_small: "unat (request_id q) < 5"
  by (cases q) (simp_all add: request_ids)

end
