(* ===== verification/Tee_Instance.thy ===== *)
theory Tee_Instance
  imports Tee_Token
begin

text \<open>
  A monitor that runs the applet and serves the nonsecure world as the hypotheses of the TEE theorems
  say.  It shows that they can hold together; no other theory depends on its details.
\<close>

record demo_world =
  dw_memory :: bytes
  dw_R2 :: uint32
  dw_reply :: bytes

definition demo_env :: "(uint32 list, uint32 list, demo_world) token_env" where
  "demo_env = \<lparr>env_lib = trace_lib, env_rand = (\<lambda>n w. (Inr (replicate n 4), w)), env_maxAlloc = 1000\<rparr>"

definition demo_secure_call :: "(Context \<times> demo_world) rpcCallFunc" where
  "demo_secure_call m a d s =
     (case (a, d) of
        (AppIDArg i, MailDest out) \<Rightarrow>
          (case SecureRPC_RetrieveMail (fst s) i out of
             ((None, x), c) \<Rightarrow> Ret ((None, MailDest x), (c, snd s))
           | ((Some e, x), c) \<Rightarrow> Ret ((Some (ServerError (error_text e)), d), (c, snd s)))
      | (MailArg x, NilDest) \<Rightarrow>
          (case SecureRPC_WriteResponse (fst s) x of
             (None, c) \<Rightarrow> Ret ((None, d), (c, snd s))
           | (Some e, c) \<Rightarrow> Ret ((Some (ServerError (error_text e)), d), (c, snd s)))
      | _ \<Rightarrow> Ret ((Some io_EOF, d), s))"

definition demo_run :: "ExecCtx \<Rightarrow> Context \<Rightarrow> demo_world \<Rightarrow> (go_error option \<times> ExecCtx \<times> Context \<times> demo_world) go" where
  "demo_run x c w =
     (case applet_main demo_secure_call demo_env [] (c, w) of
        Finished e s \<Rightarrow>
          Ret (Some (case e of AppletExit \<Rightarrow> ErrTAExit | AppletFatal err \<Rightarrow> err), ExecCtx_zero, fst s, snd s)
      | Reported b \<Rightarrow> Ret (Some (Errorf ''invalid read offset'' []), ExecCtx_zero\<lparr>ex_R0 := 666\<rparr>, c, w))"

definition demo_handler :: "ExecCtx \<Rightarrow> Context \<Rightarrow> demo_world \<Rightarrow> (go_error option \<times> Context \<times> demo_world) go" where
  "demo_handler x c w =
     (if ex_R0 x = 4 then
        go_bind (NonsecureRPC_serve (take (unat (ex_R2 x)) (dw_memory w)) c) (\<lambda>(reply, c1).
          Ret (None, c1, w\<lparr>dw_reply := reply\<rparr>))
      else if ex_R0 x = 5 then
        (let b = take (unat (ex_R2 x)) (dw_reply w)
         in Ret (None, c, w\<lparr>dw_memory := b, dw_R2 := of_nat (length b), dw_reply := []\<rparr>))
      else Ret (None, c, w))"

definition demo_lib :: "demo_world teelib" where
  "demo_lib = \<lparr>elf_Load = (\<lambda>i w. (None, w)), elf_Entry = (\<lambda>i. 0),
     monitor_Load = (\<lambda>e r s w. (Inr (ExecCtx_zero\<lparr>ex_NonSecure := \<not> s\<rparr>), w)),
     exec_Run = demo_run, monitor_SecureHandler = demo_handler, hw_lib = demo_hw, hw_exec = (\<lambda>calls w. w),
     SYS_WRITE = 1, SYS_EXIT = 0, SYS_RPC_REQ = 4, SYS_RPC_RES = 5,
     tz_rand = (\<lambda>n w. ((None, n), w)), region_Read = (\<lambda>s p n w. []), tz_maxAlloc = 1000\<rparr>"

definition demo_machine :: "demo_world ns_machine" where
  "demo_machine = \<lparr>ns_place = (\<lambda>p w. (0, w\<lparr>dw_memory := p\<rparr>)), ns_load = (\<lambda>a n w. take n (dw_memory w)),
     ns_R2 = dw_R2, ns_waiting = dw_reply\<rparr>"

definition demo_state :: "Context \<times> demo_world" where
  "demo_state =
     (NewContext\<lparr>Apps := [AppletID \<mapsto> \<lparr>img_Region = AppletRegion, img_ELF = []\<rparr>],
        NonsecureWorld := ExecCtx_zero\<lparr>ex_NonSecure := True, ex_Server := NonsecureReceiver\<rparr>\<rparr>,
      \<lparr>dw_memory = [], dw_R2 = 0, dw_reply = []\<rparr>)"

lemma demo_secure_rpc: "secure_rpc demo_secure_call"
  by (auto simp: secure_rpc_def demo_secure_call_def)

lemma demo_monitor_rpc: "monitor_rpc demo_lib demo_machine"
proof -
  have "min (length b) (unat (n :: uint32)) mod 4294967296 = min (length b) (unat n)" for b :: bytes and n
    using uint32_bound [of n] by simp
  moreover have "take (min (length b) n) b = take n b" for b :: bytes and n
    by (simp add: min_def)
  ultimately show ?thesis
    by (auto simp: monitor_rpc_def demo_lib_def demo_machine_def demo_handler_def ns_SYS_RPC_REQ_def ns_SYS_RPC_RES_def
        Let_def unat_of_nat take_bit_eq_mod)
qed

lemma demo_world_kept:
  assumes "applet_body demo_secure_call (AppletToken_impl demo_env) NewToken (c, w) = Ret (e, s)"
  shows "snd s = w"
proof -
  have call: "snd s1 = snd s" if "demo_secure_call m a d s = Ret (r, s1)" for m a d s r s1
    using that by (auto simp: demo_secure_call_def split: rpc_arg.splits rpc_dest.splits prod.splits option.splits)
  have fetch: "w1 = w" if "client_RetrieveMail demo_secure_call AppletID (c, w) = Ret (r, (c1, w1))" for r c1 w1
    using that call by (fastforce simp: client_RetrieveMail_def callRPC_def elim!: go_bind_RetE split: option.splits if_splits)
  have put: "snd s3 = w2" if "client_WriteResponse demo_secure_call m (c1, w2) = Ret (r, s3)" for m c1 w2 r s3
    using that call by (fastforce simp: client_WriteResponse_def callRPC_def elim!: go_bind_RetE split: option.splits if_splits)
  have "w2 = w1" if "Dispatch p (AppletToken_impl demo_env) NewToken w1 = Ret (r, w2)" for p w1 r w2
    using Dispatch_world [of id demo_env, OF _ that] by (simp add: demo_env_def)
  with assms show ?thesis
    by (auto simp: applet_body_def elim!: go_bind_RetE dest!: fetch put split: option.splits sum.splits)
qed

lemma demo_applets_apart: "applets_apart demo_lib demo_machine"
  using demo_world_kept
  by (fastforce simp: applets_apart_def demo_lib_def demo_machine_def demo_run_def applet_main_def
      split: go.splits applet_outcome.splits)

lemma demo_runs_applet: "runs_applet demo_lib demo_secure_call demo_env []"
proof -
  have "\<exists>x1. ex_R0 x1 = SYS_EXIT demo_lib \<and> \<not> ex_NonSecure x1 \<and> stops_in demo_lib x c w x1 (fst s1) (snd s1)"
    if "applet_main demo_secure_call demo_env [] (c, w) = Finished AppletExit s1" for x c w s1
    using that
    by (intro exI [of _ ExecCtx_zero]) (simp add: stops_in_def demo_lib_def demo_run_def logHandler_def ExecCtx_zero_def)
  moreover have "\<exists>x1 c1 w1. ex_R0 x1 = 666 \<and> \<not> ex_NonSecure x1 \<and> stops_in demo_lib x c w x1 c1 w1"
    if "applet_main demo_secure_call demo_env [] (c, w) = Reported b" for x c w b
    using that
    by (intro exI [of _ "ExecCtx_zero\<lparr>ex_R0 := 666\<rparr>"] exI [of _ c] exI [of _ w])
       (simp add: stops_in_def demo_lib_def demo_run_def logHandler_def ExecCtx_zero_def Let_def)
  ultimately show ?thesis
    unfolding runs_applet_def by (auto simp: demo_lib_def split: applet_outcome.split)
qed

lemma demo_tee_system: "tee_system demo_lib demo_machine demo_secure_call demo_env [] [AppletID]"
  by (simp add: tee_system_def demo_monitor_rpc demo_applets_apart demo_secure_rpc demo_runs_applet)
     (simp add: loads_applets_def demo_lib_def)

lemma demo_tee_ready: "tee_ready demo_machine demo_state"
  by (simp add: tee_ready_def ns_idle_def demo_state_def demo_machine_def NewContext_def)

end
