(* ===== verification/Tee_Properties.thy ===== *)
theory Tee_Properties
  imports Tee_Instance
begin

text \<open>
  What the token of the nonsecure world, the applet and the trusted OS achieve together.
\<close>

section \<open>Lemmas\<close>

text \<open>A token that simulates another serves every request alike.\<close>

lemma serve_simulates:
  assumes "token_simulates f S T"
  shows "serve_request S s q w = serve_request T (f s) q w"
proof -
  have sim: "\<And>s w n. RandomBytes S s n w = RandomBytes T (f s) n w" "\<And>s w m a. Sign S s m a w = Sign T (f s) m a w"
    "\<And>s w. PublicKey S s w = PublicKey T (f s) w" "\<And>s w. Mnemonic S s w = Mnemonic T (f s) w"
    "\<And>s. f (Clone S s) = Clone T (f s)" "\<And>s. SupportedSignAlgorithms S s = SupportedSignAlgorithms T (f s)"
    and init: "\<And>s p w. map_go (\<lambda>(e, s', w'). (e, f s', w')) (Initialize S s p w) = Initialize T (f s) p w"
    using assms by (simp_all add: token_simulates_def)
  have "at_path S s p w g = at_path T (f s) p w h" if "\<And>t v. g t v = h (f t) v"
    for p and g :: "_ \<Rightarrow> _ \<Rightarrow> ((go_error + 'x) \<times> _) go" and h
    using that
    by (cases "Initialize S (Clone S s) p w")
       (auto simp: at_path_def sim(5) [symmetric] init [symmetric] split: option.split)
  note path = this
  show ?thesis
    by (cases q) (simp_all add: serve_request_def sim(1,6), (rule arg_cong [where f = "answered _"], rule path, simp add: sim)+)
qed

lemma serve_applet: "serve_request (AppletToken_impl env) NewToken q w = serve_request (dumbToken_impl env) NewDumbToken q w"
  using serve_simulates [OF AppletToken_simulates, of env NewToken q w] by simp

lemma TEEToken_impl_sel:
  "RandomBytes (TEEToken_impl call) = TEEToken_RandomBytes call" "Sign (TEEToken_impl call) = TEEToken_Sign call"
  "PublicKey (TEEToken_impl call) = TEEToken_PublicKey call" "Mnemonic (TEEToken_impl call) = TEEToken_Mnemonic call"
  "SupportedSignAlgorithms (TEEToken_impl call) = TEEToken_SupportedSignAlgorithms"
  by (simp_all add: TEEToken_impl_def)

lemma tee_init:
  "at_path (TEEToken_impl call) tt p s f = f \<lparr>tt_path = p\<rparr> s"
  by (cases tt) (simp add: at_path_def TEEToken_impl_def TEEToken_Clone_def TEEToken_Initialize_def)

text \<open>The message of a request as \<open>PackageRequest\<close> builds it.\<close>

lemma packaged:
  "PackageRequest randomBytesRequestT (RandomBytesRequest_val \<lparr>Request_ID = RequestRandomBytes, Amount = n\<rparr>) =
     Inr (request_text (RandomBytesRq n))"
  "PackageRequest signRequestT (SignRequest_val \<lparr>Request_ID = RequestSign, SignRequest_Data = m, SignRequest_Path = p,
     SignRequest_Algorithm = a\<rparr>) = Inr (request_text (SignRq m p a))"
  "PackageRequest pathRequestT (PublicKeyRequest_val \<lparr>Request_ID = RequestPublicKey, PublicKeyRequest_Path = p\<rparr>) =
     Inr (request_text (PublicKeyRq p))"
  "PackageRequest pathRequestT (MnemonicRequest_val \<lparr>Request_ID = RequestMnemonic, MnemonicRequest_Path = p\<rparr>) =
     Inr (request_text (MnemonicRq p))"
  "PackageRequest requestT (Request_val \<lparr>Request_ID = RequestSupportedSignAlgorithms\<rparr>) = Inr (request_text AlgorithmsRq)"
  by (simp_all add: PackageRequest_def marshal_def)

text \<open>The result of a request whose answers are all short, and of one whose answers are all too long.\<close>

lemma doRequest_short:
  assumes "tee_system lib M call env trace keys" "tee_ready M s"
    and "PackageRequest reqT v = Inr (request_text q)" "length (request_text q) \<le> 342"
    and "\<And>w. \<exists>a w'. serve_request (dumbToken_impl env) NewDumbToken q w = Ret (Inr a, w') \<and> P a"
    and "\<And>a. P a \<Longrightarrow> answer_ok q a \<and> length (answer_text (request_id q) a) \<le> 342"
  shows "\<exists>a u s'. P a \<and> doRequest (nonsecure_Call lib M keys) reqT v (answerT q) (zero_value (answerT q)) s = Ret ((None, u), s') \<and>
    read_answer q u = a \<and> tee_ready M s' \<and> fst s' = fst s"
  using doRequest_result [OF assms(1-4), of "{a. P a}"] assms(5,6) by (fastforce simp: serve_applet)

lemma doRequest_long:
  assumes "tee_system lib M call env trace keys" "tee_ready M s"
    and "PackageRequest reqT v = Inr (request_text q)" "length (request_text q) \<le> 342"
    and "\<And>w. \<exists>a w'. serve_request (dumbToken_impl env) NewDumbToken q w = Ret (Inr a, w') \<and> P a"
    and "\<And>a. P a \<Longrightarrow> answer_ok q a \<and> 342 < length (answer_text (request_id q) a)"
  shows "\<exists>s'. doRequest (nonsecure_Call lib M keys) reqT v (answerT q) (zero_value (answerT q)) s =
      Ret ((Some SyntaxError, zero_value (answerT q)), s') \<and> fst s' = fst s"
  using doRequest_result [OF assms(1-4), of "{a. P a}"] assms(5,6) by (fastforce simp: serve_applet)

text \<open>Every operation of the token but the list of algorithms is one \<open>doRequest\<close>.\<close>

fun request_type :: "token_request \<Rightarrow> go_type" where
  "request_type (RandomBytesRq n) = randomBytesRequestT"
| "request_type (SignRq m p a) = signRequestT"
| "request_type (PublicKeyRq p) = pathRequestT"
| "request_type (MnemonicRq p) = pathRequestT"
| "request_type AlgorithmsRq = requestT"

fun request_value :: "token_request \<Rightarrow> go_val" where
  "request_value (RandomBytesRq n) = RandomBytesRequest_val \<lparr>Request_ID = RequestRandomBytes, Amount = n\<rparr>"
| "request_value (SignRq m p a) =
     SignRequest_val \<lparr>Request_ID = RequestSign, SignRequest_Data = m, SignRequest_Path = p, SignRequest_Algorithm = a\<rparr>"
| "request_value (PublicKeyRq p) = PublicKeyRequest_val \<lparr>Request_ID = RequestPublicKey, PublicKeyRequest_Path = p\<rparr>"
| "request_value (MnemonicRq p) = MnemonicRequest_val \<lparr>Request_ID = RequestMnemonic, MnemonicRequest_Path = p\<rparr>"
| "request_value AlgorithmsRq = Request_val \<lparr>Request_ID = RequestSupportedSignAlgorithms\<rparr>"

lemma packaged_request: "PackageRequest (request_type q) (request_value q) = Inr (request_text q)"
  by (cases q) (simp_all add: packaged del: request_text.simps)

lemma tee_request:
  assumes "q \<noteq> AlgorithmsRq"
    and "doRequest call (request_type (hashed_request q)) (request_value (hashed_request q)) (answerT (hashed_request q))
      (zero_value (answerT (hashed_request q))) s = Ret ((None, u), s')"
  shows "serve_request (TEEToken_impl call) tt q s = Ret (Inr (read_answer (hashed_request q) u), s')"
  using assms
  by (cases q)
     (simp_all add: serve_request_def tee_init answered_def TEEToken_impl_sel TEEToken_RandomBytes_def TEEToken_Sign_def
      TEEToken_PublicKey_def TEEToken_Mnemonic_def)

lemma tee_serves:
  assumes "tee_system lib M call env trace keys" "tee_ready M s"
    and "\<And>w. \<exists>a w'. serve_request (dumbToken_impl env) NewDumbToken (hashed_request q) w = Ret (Inr a, w') \<and> P a"
    and "\<And>a. P a \<Longrightarrow> answer_ok (hashed_request q) a \<and> length (answer_text (request_id q) a) \<le> 342"
  shows "\<exists>a s'. P a \<and> serve_request (TEEToken_impl (nonsecure_Call lib M keys)) tt q s = Ret (Inr a, s') \<and>
    tee_ready M s' \<and> fst s' = fst s"
proof (cases "q = AlgorithmsRq")
  case True
  with assms(2,3) show ?thesis
    by (auto simp: serve_request_def TEEToken_impl_sel TEEToken_SupportedSignAlgorithms_def dumbToken_impl_def
        dumbToken_SupportedSignAlgorithms_def)
next
  case False
  have "request_id (hashed_request q) = request_id q" by (cases q) simp_all
  with request_length [of q] doRequest_short [OF assms(1,2) packaged_request [of "hashed_request q"], of P] assms(3,4)
  obtain u s' where s': "P (read_answer (hashed_request q) u)" "tee_ready M s'" "fst s' = fst s"
    and run: "doRequest (nonsecure_Call lib M keys) (request_type (hashed_request q)) (request_value (hashed_request q))
       (answerT (hashed_request q)) (zero_value (answerT (hashed_request q))) s = Ret ((None, u), s')"
    by auto
  from s' tee_request [OF False run, of tt] show ?thesis by blast
qed

section \<open>The applet under a bad request\<close>

lemma request_crashes:
  assumes "tee_system lib M call env trace keys" "tee_ready M s" "length p \<le> 342"
    and "\<And>w. \<exists>q. Dispatch p (AppletToken_impl env) NewToken w = Panic q"
  shows "\<exists>q. client_SendMail (nonsecure_Call lib M keys) \<lparr>AppID = AppletID, Payload = p\<rparr> s = Panic q"
proof -
  obtain c w where s: "s = (c, w)" by (cases s)
  let ?m = "\<lparr>AppID = AppletID, Payload = p\<rparr>"
  let ?c1 = "c\<lparr>mailbox := [AppletID \<mapsto> p]\<rparr>"
  from assms(2) s have ctx: "mailbox c = Map.empty" "Apps c AppletID \<noteq> None" "ns_idle M s"
    by (auto simp: tee_ready_def ns_idle_def)
  from assms(1) have parts: "monitor_rpc lib M" "loads_applets lib" "secure_rpc call"
    "runs_applet lib call env trace" "AppletID \<in> set keys" by (simp_all add: tee_system_def)
  have "\<exists>q. run lib ta ?c1 w1 = Panic q" if "ex_Server ta = SecureReceiver" for ta w1
    using applet_crashes [OF parts(3) _ _ assms(4), of ?c1 trace w1] run_report [OF parts(4) that] mail_fits [of p] assms(3)
    by fastforce
  from dispatch_crash [OF parts(2) _ _ this parts(5)] ctx(2)
  have "\<exists>q. dispatchAppsCalls lib keys ?c1 w1 = Panic q" for w1 by simp
  moreover have "NonsecureRPC_SendMail (fst s) ?m = (None, ?c1)"
    using s ctx(1) by (simp add: NonsecureRPC_SendMail_def SendMail_def)
  moreover have "length (rpc_request_text ''NonsecureRPC.SendMail'' (arg_json (MailArg ?m))) < 2 ^ 32"
    using mail_request_length [of ?m] mail_fits [of p] assms(3) by (simp add: minRead_def)
  ultimately show ?thesis
    using client_SendMail_crash [OF parts(1) ctx(3)] by blast
qed

text \<open>When a request makes the token panic.\<close>

definition bad_amount :: "('k, 'sk, 'w) token_env \<Rightarrow> bytes \<Rightarrow> bool" where
  "bad_amount env p \<longleftrightarrow>
     (\<exists>v. RequestedOp p = Ret (Inr RequestRandomBytes) \<and>
        json_Unmarshal randomBytesRequestT (zero_value randomBytesRequestT) p = Ret (v, None) \<and>
        Amount (val_RandomBytesRequest v) \<noteq> 0 \<and> env_maxAlloc env < unat (Amount (val_RandomBytesRequest v)))"

definition bad_base64 :: "('k, 'sk, 'w) token_env \<Rightarrow> bytes \<Rightarrow> bool" where
  "bad_base64 env p \<longleftrightarrow>
     (\<exists>v t w e. RequestedOp p = Ret (Inr RequestSign) \<and>
        json_Unmarshal signRequestInternalT (zero_value signRequestInternalT) p = Ret (v, None) \<and>
        AppletToken_Initialize env NewToken (sri_Path (val_signRequestInternal v)) w = Ret (None, t, w) \<and>
        base64_decode (sri_Data (val_signRequestInternal v)) = Inl e)"

lemma applet_at_path_returns:
  fixes env :: "('k, 'sk, 'w) token_env"
  assumes "\<And>t w. (\<exists>k. ta_privKey t = Some k) \<Longrightarrow> \<exists>r. f t w = Ret r"
  shows "\<exists>r. at_path (AppletToken_impl env) t p w f = Ret r"
proof -
  obtain e t' where init: "Initialize (AppletToken_impl env) (Clone (AppletToken_impl env) t) p w = Ret (e, t', w)"
    using applet.Initialize_total [of env "Clone (AppletToken_impl env) t" p w] by blast
  then have "e = None \<Longrightarrow> \<exists>k. ta_privKey t' = Some k"
    using AppletToken_Initialize_ready [of env "Clone (AppletToken_impl env) t" p w t' w] by (simp add: AppletToken_impl_def)
  with init assms show ?thesis by (cases e) (auto simp: at_path_def)
qed

lemma ready_token_returns:
  "\<exists>k. ta_privKey t = Some k \<Longrightarrow> \<exists>r. answered f (Sign (AppletToken_impl env) t m a w) = Ret r"
  "\<exists>k. ta_privKey t = Some k \<Longrightarrow> \<exists>r. answered f (PublicKey (AppletToken_impl env) t w) = Ret r"
  "\<exists>r. answered g (Mnemonic (AppletToken_impl env) t w) = Ret r"
  by (auto simp: answered_def AppletToken_impl_def AppletToken_Sign_def AppletToken_PublicKey_def AppletToken_Mnemonic_def
      applet_secret split: sum.split)

lemma Unmarshal_cases:
  obtains v where "json_Unmarshal t z p = Ret (v, None)" | v e where "json_Unmarshal t z p = Ret (v, Some e)"
  using json_Unmarshal_total [of t z p] by (metis option.exhaust surj_pair)

lemma RequestedOp_total: "\<exists>r. RequestedOp p = Ret r"
  by (rule Unmarshal_cases [of requestT "zero_value requestT" p]) (auto simp: RequestedOp_def unmarshal_def)

lemma dispatch_RandomBytes_panics:
  "(\<exists>q. dispatch_RandomBytes p i (AppletToken_impl env) t w = Panic q) \<longleftrightarrow>
     (\<exists>v. json_Unmarshal randomBytesRequestT (zero_value randomBytesRequestT) p = Ret (v, None) \<and>
        Amount (val_RandomBytesRequest v) \<noteq> 0 \<and> env_maxAlloc env < unat (Amount (val_RandomBytesRequest v)))"
proof (rule Unmarshal_cases [of randomBytesRequestT "zero_value randomBytesRequestT" p])
  fix v assume v: "json_Unmarshal randomBytesRequestT (zero_value randomBytesRequestT) p = Ret (v, None)"
  from dispatch_RandomBytes_eq [OF v, of i "AppletToken_impl env" t w] v show ?thesis
    by (auto simp: answered_def AppletToken_impl_def AppletToken_RandomBytes_def)
next
  fix v e assume "json_Unmarshal randomBytesRequestT (zero_value randomBytesRequestT) p = Ret (v, Some e)"
  then show ?thesis by (simp add: dispatch_RandomBytes_def)
qed

lemma dispatch_Sign_panics:
  fixes env :: "('k, 'sk, 'w) token_env"
  shows "(\<exists>q. dispatch_Sign p i (AppletToken_impl env) NewToken w = Panic q) \<longleftrightarrow>
     (\<exists>v t w' e. json_Unmarshal signRequestInternalT (zero_value signRequestInternalT) p = Ret (v, None) \<and>
        AppletToken_Initialize env NewToken (sri_Path (val_signRequestInternal v)) w' = Ret (None, t, w') \<and>
        base64_decode (sri_Data (val_signRequestInternal v)) = Inl e)"
proof (rule Unmarshal_cases [of signRequestInternalT "zero_value signRequestInternalT" p])
  fix v assume v: "json_Unmarshal signRequestInternalT (zero_value signRequestInternalT) p = Ret (v, None)"
  let ?r = "val_signRequestInternal v"
  show ?thesis
  proof (cases "base64_decode (sri_Data ?r)")
    case (Inl e)
    with v show ?thesis
      by (auto simp: dispatch_Sign_def Let_def Bytes_def AppletToken_impl_def AppletToken_Clone_def AppletToken_Initialize_eq
          split: sum.splits)
  next
    case (Inr m)
    with v dispatch_Sign_eq [OF v Inr, of i "AppletToken_impl env" NewToken w]
      applet_at_path_returns [of "\<lambda>tt w1. answered (\<lambda>b. answer_text i (DataA b)) (Sign (AppletToken_impl env) tt m (sri_Algorithm ?r) w1)"
        env NewToken "sri_Path ?r" w, OF ready_token_returns(1)]
    show ?thesis by auto
  qed
next
  fix v e assume "json_Unmarshal signRequestInternalT (zero_value signRequestInternalT) p = Ret (v, Some e)"
  then show ?thesis by (simp add: dispatch_Sign_def)
qed

lemma dispatch_others_return:
  fixes env :: "('k, 'sk, 'w) token_env"
  shows "\<exists>r. dispatch_PublicKey p i (AppletToken_impl env) NewToken w = Ret r"
    and "\<exists>r. dispatch_Mnemonic p i (AppletToken_impl env) NewToken w = Ret r"
    and "\<exists>r. dispatch_SupportedSignAlgorithms i (AppletToken_impl env) NewToken w = Ret r"
proof -
  show "\<exists>r. dispatch_PublicKey p i (AppletToken_impl env) NewToken w = Ret r"
  proof (rule Unmarshal_cases [of pathRequestT "zero_value pathRequestT" p])
    fix v assume v: "json_Unmarshal pathRequestT (zero_value pathRequestT) p = Ret (v, None)"
    show ?thesis
      unfolding dispatch_PublicKey_eq [OF v] by (rule applet_at_path_returns, rule ready_token_returns(2))
  qed (simp add: dispatch_PublicKey_def)
  show "\<exists>r. dispatch_Mnemonic p i (AppletToken_impl env) NewToken w = Ret r"
  proof (rule Unmarshal_cases [of pathRequestT "zero_value pathRequestT" p])
    fix v assume v: "json_Unmarshal pathRequestT (zero_value pathRequestT) p = Ret (v, None)"
    show ?thesis
      unfolding dispatch_Mnemonic_eq [OF v] by (rule applet_at_path_returns, rule ready_token_returns(3))
  qed (simp add: dispatch_Mnemonic_def)
  show "\<exists>r. dispatch_SupportedSignAlgorithms i (AppletToken_impl env) NewToken w = Ret r"
    by (simp add: dispatch_SupportedSignAlgorithms_def)
qed

lemma Dispatch_panics:
  fixes env :: "('k, 'sk, 'w) token_env"
  shows "(\<exists>q. Dispatch p (AppletToken_impl env) NewToken w = Panic q) \<longleftrightarrow> bad_amount env p \<or> bad_base64 env p"
proof -
  from RequestedOp_total obtain opr where opr: "RequestedOp p = Ret opr" by blast
  show ?thesis
  proof (cases opr)
    case (Inl e)
    with opr show ?thesis by (simp add: Dispatch_def bad_amount_def bad_base64_def)
  next
    case (Inr i)
    note ret = dispatch_others_return(1,2) [of p i env w] dispatch_others_return(3) [of i env w]
    have "(\<exists>q. Dispatch p (AppletToken_impl env) NewToken w = Panic q) \<longleftrightarrow>
      i = RequestRandomBytes \<and> (\<exists>q. dispatch_RandomBytes p i (AppletToken_impl env) NewToken w = Panic q) \<or>
      i = RequestSign \<and> (\<exists>q. dispatch_Sign p i (AppletToken_impl env) NewToken w = Panic q)"
      using opr Inr ret by (auto simp: Dispatch_def request_ids)
    also have "\<dots> \<longleftrightarrow> bad_amount env p \<or> bad_base64 env p"
      unfolding dispatch_RandomBytes_panics dispatch_Sign_panics using opr Inr by (auto simp: bad_amount_def bad_base64_def)
    finally show ?thesis .
  qed
qed

section \<open>Properties\<close>

text \<open>
  C6. The token of the nonsecure world does what the software token does: for every request, initialised
  at any path, it returns an answer the software token inside the applet gives, through marshalling, two
  system calls each way, the mailbox, a run of the applet and the result box, and it leaves the trusted OS
  ready for the next request.  The answer has to fit the client's buffer; the data to sign is hashed first
  and the algorithm is fixed.
\<close>

theorem tee_token_refines:
  assumes "tee_system lib M call env trace keys" and "tee_ready M s"
    and "\<And>w. \<exists>a w'. serve_request (dumbToken_impl env) NewDumbToken (hashed_request q) w = Ret (Inr a, w') \<and> P a"
    and "\<And>a. P a \<Longrightarrow> answer_ok (hashed_request q) a \<and> length (answer_text (request_id q) a) \<le> 342"
  shows "\<exists>a s'. P a \<and> serve_request (TEEToken_impl (nonsecure_Call lib M keys)) tt q s = Ret (Inr a, s') \<and>
    tee_ready M s' \<and> fst s' = fst s"
  by (rule tee_serves [OF assms])

definition demo_pubkey :: bytes where
  "demo_pubkey = 2 # concat (map le_put32 [0x8000002c, 0x80000076, 0x80000000, 0, 0])"

lemma demo_serves:
  "serve_request (dumbToken_impl demo_env) NewDumbToken (PublicKeyRq demo_path) w = Ret (Inr (DataA demo_pubkey), w)"
  by (simp add: serve_request_def at_path_def answered_def dumbToken_impl_def dumbToken_Clone_def dumbToken_Initialize_eq
      dumbToken_PublicKey_def demo_env_def trace_lib_def KeyFromPath_def demo_path_def InOrder_def demo_pubkey_def)

lemma demo_pubkey_fits: "length (answer_text (request_id (PublicKeyRq demo_path)) (DataA demo_pubkey)) \<le> 342"
  using data_answer_fits [OF request_id_small, of "PublicKeyRq demo_path" demo_pubkey] by (simp add: demo_pubkey_def)

theorem tee_token_refines_witness:
  "\<exists>a s'. a = DataA demo_pubkey \<and>
     serve_request (TEEToken_impl (nonsecure_Call demo_lib demo_machine [AppletID])) \<lparr>tt_path = demo_path\<rparr>
       (PublicKeyRq demo_path) demo_state = Ret (Inr a, s') \<and>
     tee_ready demo_machine s' \<and> fst s' = fst demo_state"
  by (rule tee_token_refines [OF demo_tee_system demo_tee_ready])
     (use demo_serves demo_pubkey_fits in \<open>auto simp del: answer_text.simps\<close>)

text \<open>
  C21. \<open>TEEToken.RandomBytes\<close> works for up to 243 bytes.  From 244 bytes on the reply exceeds the 512 bytes
  the JSON decoder reads before it sees the end of the stream; \<open>callRPC\<close> drops that error, the payload is
  empty, and the caller gets a JSON syntax error while the bytes are gone from the result box.
\<close>

theorem tee_random_bytes_limit:
  assumes "tee_system lib M call env trace keys" and "tee_ready M s"
    and "\<And>w. \<exists>b w'. env_rand env (unat n) w = (Inr b, w') \<and> length b = unat n"
    and "n \<noteq> 0" and "unat n \<le> env_maxAlloc env"
  shows "if unat n \<le> 243
    then \<exists>b s'. TEEToken_RandomBytes (nonsecure_Call lib M keys) tt n s = Ret (Inr b, s') \<and> length b = unat n \<and> tee_ready M s'
    else \<exists>s'. TEEToken_RandomBytes (nonsecure_Call lib M keys) tt n s = Ret (Inl SyntaxError, s') \<and>
      resultBox (fst s') AppletID = None"
proof -
  let ?q = "RandomBytesRq n"
  let ?P = "\<lambda>a. \<exists>b. a = DataA b \<and> length b = unat n"
  have served: "\<exists>a w'. serve_request (dumbToken_impl env) NewDumbToken ?q w = Ret (Inr a, w') \<and> ?P a" for w
    using assms(3) [of w] assms(4,5)
    by (auto simp: serve_request_def answered_def dumbToken_impl_def dumbToken_RandomBytes_def)
  have len: "length (request_text ?q) \<le> 342" using request_length [of ?q] by simp
  have fits: "length (answer_text (request_id ?q) (DataA b)) \<le> 342 \<longleftrightarrow> length b \<le> 243" for b
    by (rule data_answer_fits [OF request_id_small])
  show ?thesis
  proof (cases "unat n \<le> 243")
    case True
    have ok: "answer_ok ?q a \<and> length (answer_text (request_id ?q) a) \<le> 342" if "?P a" for a
    proof -
      from that obtain b where "a = DataA b" "length b = unat n" by blast
      with True fits [of b] show ?thesis by (simp del: answer_text.simps request_id.simps)
    qed
    obtain b u s' where "length b = unat n" "tee_ready M s'" "read_answer ?q u = DataA b"
      "doRequest (nonsecure_Call lib M keys) randomBytesRequestT
        (RandomBytesRequest_val \<lparr>Request_ID = RequestRandomBytes, Amount = n\<rparr>) dataResponseT (zero_value dataResponseT) s =
       Ret ((None, u), s')"
      using doRequest_short [OF assms(1,2) packaged(1) len served ok] by auto
    with True show ?thesis
      by (simp add: TEEToken_RandomBytes_def)
  next
    case False
    have ok: "answer_ok ?q a \<and> 342 < length (answer_text (request_id ?q) a)" if "?P a" for a
    proof -
      from that obtain b where "a = DataA b" "length b = unat n" by blast
      with False fits [of b] show ?thesis by (simp add: not_le [symmetric] del: answer_text.simps request_id.simps not_le)
    qed
    have "resultBox (fst s) AppletID = None" using assms(2) by (simp add: tee_ready_def)
    moreover obtain s' where "fst s' = fst s"
      "doRequest (nonsecure_Call lib M keys) randomBytesRequestT
        (RandomBytesRequest_val \<lparr>Request_ID = RequestRandomBytes, Amount = n\<rparr>) dataResponseT (zero_value dataResponseT) s =
       Ret ((Some SyntaxError, zero_value dataResponseT), s')"
      using doRequest_long [OF assms(1,2) packaged(1) len served ok] by auto
    ultimately show ?thesis
      using False by (simp add: TEEToken_RandomBytes_def)
  qed
qed

theorem tee_random_bytes_limit_witness:
  "(\<exists>b s'. TEEToken_RandomBytes (nonsecure_Call demo_lib demo_machine [AppletID]) \<lparr>tt_path = demo_path\<rparr> 243 demo_state =
      Ret (Inr b, s') \<and> length b = 243 \<and> tee_ready demo_machine s') \<and>
   (\<exists>s'. TEEToken_RandomBytes (nonsecure_Call demo_lib demo_machine [AppletID]) \<lparr>tt_path = demo_path\<rparr> 244 demo_state =
      Ret (Inl SyntaxError, s') \<and> resultBox (fst s') AppletID = None)"
  using tee_random_bytes_limit [OF demo_tee_system demo_tee_ready, of 243 "\<lparr>tt_path = demo_path\<rparr>"]
    tee_random_bytes_limit [OF demo_tee_system demo_tee_ready, of 244 "\<lparr>tt_path = demo_path\<rparr>"]
  by (simp add: demo_env_def)

text \<open>
  C22. Exactly two kinds of message make the applet's dispatcher panic: a request for more random bytes
  than can be allocated, and a signature request whose path derives a key and whose data is not base64.
  Every other message, however malformed, is answered or refused with an error.
\<close>

theorem applet_dispatch_panics_iff:
  fixes env :: "('k, 'sk, 'w) token_env"
  shows "(\<exists>q. Dispatch p (AppletToken_impl env) NewToken w = Panic q) \<longleftrightarrow>
     (\<exists>v. RequestedOp p = Ret (Inr RequestRandomBytes) \<and>
        json_Unmarshal randomBytesRequestT (zero_value randomBytesRequestT) p = Ret (v, None) \<and>
        Amount (val_RandomBytesRequest v) \<noteq> 0 \<and> env_maxAlloc env < unat (Amount (val_RandomBytesRequest v))) \<or>
     (\<exists>v t w' e. RequestedOp p = Ret (Inr RequestSign) \<and>
        json_Unmarshal signRequestInternalT (zero_value signRequestInternalT) p = Ret (v, None) \<and>
        AppletToken_Initialize env NewToken (sri_Path (val_signRequestInternal v)) w' = Ret (None, t, w') \<and>
        base64_decode (sri_Data (val_signRequestInternal v)) = Inl e)"
  unfolding Dispatch_panics bad_amount_def bad_base64_def ..

text \<open>
  A signature request with data that is not base64, sent by the nonsecure world, takes the trusted OS
  down: the applet panics and reports it, \<open>run\<close> turns the report into a panic of the trusted OS, and the
  sender's system call does not return.
\<close>

lemma bad_base64_takes_down_trusted_os:
  assumes "tee_system lib M call env trace keys" and "tee_ready M s" and "length p \<le> 342"
    and "RequestedOp p = Ret (Inr RequestSign)"
    and "json_Unmarshal signRequestInternalT (zero_value signRequestInternalT) p = Ret (v, None)"
    and "AppletToken_Initialize env NewToken (sri_Path (val_signRequestInternal v)) w = Ret (None, t, w)"
    and "base64_decode (sri_Data (val_signRequestInternal v)) = Inl e"
  shows "\<exists>q. client_SendMail (nonsecure_Call lib M keys) \<lparr>AppID = AppletID, Payload = p\<rparr> s = Panic q"
proof -
  have "bad_base64 env p" unfolding bad_base64_def using assms(4-7) by blast
  then have "\<exists>q. Dispatch p (AppletToken_impl env) NewToken w1 = Panic q" for w1
    unfolding Dispatch_panics by simp
  from request_crashes [OF assms(1,2,3) this] show ?thesis .
qed

definition bad_json :: json where
  "bad_json = JObj [(quote_string (ascii ''ID''), JLit (ascii (decimal 1))), (quote_string (ascii ''Data''), JLit (quoted ''*''))]"

definition bad_request :: bytes where
  "bad_request = json_text bad_json"

definition bad_request_val :: go_val where
  "bad_request_val = StructV [StringV [0x2a], zero_value pathT, UintV 0]"

lemma bad_request_decoded: "json_Unmarshal t z bad_request = decode_value bad_json t z None"
proof -
  have "json_printed bad_json" "json_depth bad_json \<le> maxNestingDepth"
    by (simp_all add: bad_json_def printed_lit_def decimal_nat_lit quoted_lit quote_string_lit maxNestingDepth_def)
  from json_parse_text [OF this] json_valid_text [OF this] show ?thesis
    by (simp add: json_Unmarshal_def bad_request_def)
qed

lemma bad_request_read:
  "json_Unmarshal requestT (zero_value requestT) bad_request = Ret (StructV [UintV 1], None)"
  "json_Unmarshal signRequestInternalT (zero_value signRequestInternalT) bad_request = Ret (bad_request_val, None)"
proof -
  have star: "valid_utf8 (ascii ''*'')" "ascii ''*'' = [0x2a]" by code_simp+
  have num: "literalStore (ascii (decimal (Suc 0))) (UintT 32) z None = Ret (UintV (Suc 0), None)" for z
    using literalStore_number [of 1 32 z] by simp
  have str: "literalStore (quoted ''*'') StringT z None = Ret (StringV [0x2a], None)" for z
    using literalStore_string [OF star(1), of z] star(2) by (simp add: quoted_def)
  note steps = bad_request_decoded bad_json_def decode_member field_names_valid message_fields num str struct_vals_def
  show "json_Unmarshal requestT (zero_value requestT) bad_request = Ret (StructV [UintV 1], None)"
    by (simp add: steps requestT_def uintT_def del: decode_members.simps(2))
  show "json_Unmarshal signRequestInternalT (zero_value signRequestInternalT) bad_request = Ret (bad_request_val, None)"
    by (simp add: steps signRequestInternalT_def uintT_def bad_request_val_def del: decode_members.simps(2))
qed

lemma bad_request_length: "length bad_request \<le> 342"
proof -
  have "length (quoted ''*'') = 3" "length (ascii (decimal 1)) = 1" by code_simp+
  then show ?thesis by (simp add: bad_request_def bad_json_def field_text_lengths)
qed

lemma bad_request_op: "RequestedOp bad_request = Ret (Inr RequestSign)"
  by (simp add: RequestedOp_def unmarshal_def bad_request_read(1) val_Request_def field_simps_struct val_word_def RequestSign_def)

lemma bad_request_init:
  "AppletToken_Initialize demo_env NewToken (sri_Path (val_signRequestInternal bad_request_val)) w =
     Ret (None, \<lparr>ta_privKey = Some [0x80000000, 0x80000000, 0x80000000, 0, 0]\<rparr>, w)"
  by (simp add: AppletToken_Initialize_eq demo_env_def trace_lib_def KeyFromPath_def InOrder_def val_signRequestInternal_def
      bad_request_val_def field_simps_struct val_path_def val_word_def pathT_def)

lemma bad_request_data: "base64_decode (sri_Data (val_signRequestInternal bad_request_val)) = Inl (CorruptInputError 0)"
  by (simp add: val_signRequestInternal_def bad_request_val_def field_simps_struct val_string_def) code_simp

text \<open>
  C9. \<open>Dispatch\<close> implements its contract on every token: a request message is carried out as the request
  it stands for, on a clone of the token that is initialised at the request's path; results become response
  messages with the request's number, and errors, panics and effects are those of the token.
\<close>

theorem Dispatch_serves_request:
  "Dispatch (request_text q) T t w = answered (answer_text (request_id q)) (serve_request T t q w)"
  by (rule Dispatch_request)

theorem Dispatch_serves_request_witness:
  "Dispatch (request_text (SignRq [1, 2] demo_path AlgoSecp256K1)) (dumbToken_impl trace_env) NewDumbToken () =
     answered (answer_text RequestSign) (serve_request (dumbToken_impl trace_env) NewDumbToken (SignRq [1, 2] demo_path AlgoSecp256K1) ())"
  using Dispatch_serves_request [of "SignRq [1, 2] demo_path AlgoSecp256K1" "dumbToken_impl trace_env" NewDumbToken "()"]
  by (simp del: request_text.simps answer_text.simps)

text \<open>
  C25. The response messages round trip: whatever the applet answers to a request, the client unpacks as
  that answer, for any bytes, any words in UTF-8 and any list of algorithms.
\<close>

theorem response_roundtrip:
  assumes "serve_request T t q w = Ret (Inr a, w')" and "answer_ok q a"
  shows "\<exists>r v. Dispatch (request_text q) T t w = Ret (Inr r, w') \<and>
    UnpackResponse r (answerT q) (zero_value (answerT q)) = Ret (v, None) \<and> read_answer q v = a"
  using Dispatch_request [of q T t w] assms(1) UnpackResponse_answer [OF assms(2)]
  by (auto simp: answered_def)

theorem response_roundtrip_witness:
  "\<exists>r v. Dispatch (request_text (PublicKeyRq demo_path)) (dumbToken_impl demo_env) NewDumbToken (snd demo_state) = Ret (Inr r, snd demo_state) \<and>
    UnpackResponse r dataResponseT (zero_value dataResponseT) = Ret (v, None) \<and>
    read_answer (PublicKeyRq demo_path) v = DataA demo_pubkey"
  using response_roundtrip [OF demo_serves, of "snd demo_state"] by simp

text \<open>
  The report of a panic crosses the worlds: what \<open>ExitWithError\<close> writes is read by the handler of the
  system call 666 as the same message and stack trace, and the handler returns it as an error that is not
  the exit of an applet.
\<close>

lemma panic_report_delivered:
  assumes "SYS_WRITE lib \<noteq> 666" and "SYS_EXIT lib \<noteq> 666" and "ex_R0 x = 666"
    and "valid_utf8 (ascii msg)" and "valid_utf8 trace"
    and "unat (ex_R2 x) \<le> tz_maxAlloc lib" and "0 \<le> sint (ex_R1 x - rg_Start (ex_Memory x))"
    and "sint (ex_R1 x - rg_Start (ex_Memory x)) < int (unat (rg_Size (ex_Memory x))) - int (unat (ex_R2 x))"
    and "tz_rand lib (unat (ex_R2 x)) w = ((None, unat (ex_R2 x)), w1)"
    and "region_Read lib (rg_Start (ex_Memory x)) (nat (sint (ex_R1 x - rg_Start (ex_Memory x)))) (unat (ex_R2 x)) w1 =
      ExitWithError msg trace"
  shows "logHandler lib x c w = Ret (Some (ClientPanic_error \<lparr>Msg = ascii msg, Stacktrace = trace\<rparr>), c, w1) \<and>
    \<not> errors_Is (ClientPanic_error \<lparr>Msg = ascii msg, Stacktrace = trace\<rparr>) ErrTAExit"
proof -
  from ExitWithError_read [OF assms(4,5)] obtain v where
    v: "json_Unmarshal ClientPanicT (zero_value ClientPanicT) (ExitWithError msg trace) = Ret (v, None)"
    "val_ClientPanic v = \<lparr>Msg = ascii msg, Stacktrace = trace\<rparr>" by blast
  with assms(1-3,6-) report_not_exit show ?thesis
    by (simp add: logHandler_def Let_def)
qed

definition report_lib :: "demo_world teelib" where
  "report_lib = demo_lib\<lparr>region_Read := (\<lambda>s p n w. ExitWithError ''boom'' [0x61])\<rparr>"

lemma panic_report_delivered_witness:
  "logHandler report_lib (ExecCtx_zero\<lparr>ex_R0 := 666, ex_R1 := 16, ex_R2 := 4, ex_Memory := \<lparr>rg_Start = 0, rg_Size = 4096\<rparr>\<rparr>)
      NewContext (snd demo_state) =
     Ret (Some (ClientPanic_error \<lparr>Msg = ascii ''boom'', Stacktrace = [0x61]\<rparr>), NewContext, snd demo_state) \<and>
   \<not> errors_Is (ClientPanic_error \<lparr>Msg = ascii ''boom'', Stacktrace = [0x61]\<rparr>) ErrTAExit"
proof -
  have "valid_utf8 (ascii ''boom'')" "valid_utf8 [0x61]" by code_simp+
  then show ?thesis
    by (intro panic_report_delivered) (simp_all add: report_lib_def demo_lib_def ExecCtx_zero_def)
qed

end
