(* ===== verification/Nonsecure_Demo.thy ===== *)
theory Nonsecure_Demo
  imports Tee_Properties
begin

text \<open>
  The demonstration program of the nonsecure world (\<open>src/tee/nonsecure_demo_os/main.go\<close>): five functions
  that each send one request to the cryptography applet and log the answer, and a loop that stops at the
  first error.  What is logged is part of the result; its start-up is in \<open>Boot\<close>.
\<close>

section \<open>The program\<close>

datatype demo_log =
    Text string
  | CallingFunction nat
  | LoggedError go_error
  | LoggedWords string "string list"
  | LoggedData string bytes

type_synonym 's demo_func = "'s \<Rightarrow> ((go_error option \<times> demo_log list) \<times> 's) go"

definition demo_doRequest ::
  "'s rpcCallFunc \<Rightarrow> go_type \<Rightarrow> go_val \<Rightarrow> go_type \<Rightarrow> go_val \<Rightarrow> 's \<Rightarrow> ((go_error option \<times> go_val \<times> demo_log list) \<times> 's) go" where
  "demo_doRequest call reqT input respT output s =
     (case PackageRequest reqT input of
        Inl e \<Rightarrow> Ret ((Some e, output, []), s)
      | Inr reqBytes \<Rightarrow>
          let m = \<lparr>AppID = AppletID, Payload = reqBytes\<rparr>
          in go_bind (client_SendMail call m s) (\<lambda>(err, s1).
               case err of
                 Some e \<Rightarrow> Ret ((Some e, output, []), s1)
               | None \<Rightarrow>
                   go_bind (client_RetrieveResult call (AppID m) s1) (\<lambda>((res, err), s2).
                     case err of
                       Some e \<Rightarrow> Ret ((Some e, output, [Text ''mail sent'']), s2)
                     | None \<Rightarrow>
                         go_bind (UnpackResponse (Payload res) respT output) (\<lambda>(v, err).
                           Ret ((err, v, [Text ''mail sent'']), s2)))))"

definition demo_DerivationPath :: DerivationPath where
  "demo_DerivationPath = \<lparr>Purpose = 44, CoinType = 118, Account = 0, Change = 0, AddressIndex = 0\<rparr>"

definition mnemonic :: "'s rpcCallFunc \<Rightarrow> 's demo_func" where
  "mnemonic call s =
     (let req = \<lparr>Request_ID = RequestMnemonic, MnemonicRequest_Path = demo_DerivationPath\<rparr>
      in go_bind (demo_doRequest call pathRequestT (MnemonicRequest_val req) mnemonicResponseT (zero_value mnemonicResponseT) s)
           (\<lambda>((err, resp, lg), s').
              case err of
                Some e \<Rightarrow> Ret ((Some e, lg), s')
              | None \<Rightarrow> Ret ((None, lg @ [LoggedWords ''generated mnemonic'' (Words (val_MnemonicResponse resp))]), s')))"

definition pubkey :: "'s rpcCallFunc \<Rightarrow> 's demo_func" where
  "pubkey call s =
     (let req = \<lparr>Request_ID = RequestPublicKey, PublicKeyRequest_Path = demo_DerivationPath\<rparr>
      in go_bind (demo_doRequest call pathRequestT (PublicKeyRequest_val req) dataResponseT (zero_value dataResponseT) s)
           (\<lambda>((err, resp, lg), s').
              case err of
                Some e \<Rightarrow> Ret ((Some e, lg), s')
              | None \<Rightarrow>
                  Ret ((None, lg @ [LoggedData ''generated pubkey'' (PublicKeyResponse_Data (val_PublicKeyResponse resp))]), s')))"

definition randomBytes :: "'s rpcCallFunc \<Rightarrow> 's demo_func" where
  "randomBytes call s =
     (let req = \<lparr>Request_ID = RequestRandomBytes, Amount = 42\<rparr>
      in go_bind (demo_doRequest call randomBytesRequestT (RandomBytesRequest_val req) dataResponseT (zero_value dataResponseT) s)
           (\<lambda>((err, resp, lg), s').
              case err of
                Some e \<Rightarrow> Ret ((Some e, lg), s')
              | None \<Rightarrow>
                  Ret ((None, lg @ [LoggedData ''generated random bytes'' (RandomBytesResponse_Data (val_RandomBytesResponse resp))]), s')))"

definition sign :: "'s rpcCallFunc \<Rightarrow> 's demo_func" where
  "sign call s =
     (let signData = replicate 42 42;
          hs = Sum256 signData;
          req = \<lparr>Request_ID = RequestSign, SignRequest_Data = hs, SignRequest_Path = demo_DerivationPath,
                 SignRequest_Algorithm = AlgoSecp256K1\<rparr>
      in go_bind (demo_doRequest call signRequestT (SignRequest_val req) dataResponseT (zero_value dataResponseT) s)
           (\<lambda>((err, resp, lg), s').
              case err of
                Some e \<Rightarrow> Ret ((Some e, lg), s')
              | None \<Rightarrow>
                  Ret ((None, lg @ [LoggedData ''generated signature'' (SignResponse_Data (val_SignResponse resp))]), s')))"

fun algorithm_names :: "Algorithm list \<Rightarrow> string list go" where
  "algorithm_names [] = Ret []"
| "algorithm_names (a # as) =
     go_bind (Algorithm_String a) (\<lambda>n. go_bind (algorithm_names as) (\<lambda>ns. Ret (n # ns)))"

definition supportedAlgorithms :: "'s rpcCallFunc \<Rightarrow> 's demo_func" where
  "supportedAlgorithms call s =
     (let req = \<lparr>Request_ID = RequestSupportedSignAlgorithms\<rparr>
      in go_bind (demo_doRequest call requestT (Request_val req) algorithmsResponseT (zero_value algorithmsResponseT) s)
           (\<lambda>((err, resp, lg), s').
              case err of
                Some e \<Rightarrow> Ret ((Some e, lg), s')
              | None \<Rightarrow>
                  go_bind (algorithm_names (Algorithms (val_SupportedSignAlgorithmsResponse resp))) (\<lambda>sa.
                    Ret ((None, lg @ [LoggedWords ''supported algorithms'' sa]), s'))))"

text \<open>The loop over the functions, from index \<open>i\<close> on: it stops at the first error.\<close>

fun demo_loop :: "nat \<Rightarrow> 's demo_func list \<Rightarrow> 's demo_func" where
  "demo_loop i [] s = Ret ((None, []), s)"
| "demo_loop i (f # fs) s =
     go_bind (f s) (\<lambda>((err, lg), s1).
       case err of
         Some e \<Rightarrow> Ret ((Some e, CallingFunction i # lg), s1)
       | None \<Rightarrow>
           go_bind (demo_loop (Suc i) fs s1) (\<lambda>((err2, lg2), s2).
             Ret ((err2, CallingFunction i # lg @ lg2), s2)))"

text \<open>Both ways out of \<open>main\<close> end in the deferred \<open>exit\<close>.\<close>

definition demo_os_main :: "'s rpcCallFunc \<Rightarrow> 's \<Rightarrow> (demo_log list \<times> 's) go" where
  "demo_os_main call s =
     (let funcList = [mnemonic call, pubkey call, sign call, randomBytes call, supportedAlgorithms call]
      in go_bind (demo_loop 0 funcList s) (\<lambda>((ferr, lg), s').
           case ferr of
             Some e \<Rightarrow> Ret (Text ''normal world os!'' # lg @ [LoggedError e], s')
           | None \<Rightarrow> Ret (Text ''normal world os!'' # lg @ [Text ''finished running''], s')))"

section \<open>Lemmas\<close>

text \<open>The program's \<open>doRequest\<close> is that of the token, with a log line.\<close>

lemma demo_doRequest_token:
  assumes "doRequest call reqT v respT z s = Ret ((None, u), s')"
  shows "demo_doRequest call reqT v respT z s = Ret ((None, u, [Text ''mail sent'']), s')"
  using assms
  by (auto simp: doRequest_def demo_doRequest_def Let_def split: sum.splits option.splits elim!: go_bind_RetE)

text \<open>One function under a trusted OS that answers its request.\<close>

lemma demo_answered:
  assumes "tee_system lib M call env trace keys" "tee_ready M s" "hashed_request q0 = q"
    and "PackageRequest reqT v = Inr (request_text q)"
    and "\<And>w. \<exists>a w'. serve_request (dumbToken_impl env) NewDumbToken q w = Ret (Inr a, w') \<and> P a"
    and "\<And>a. P a \<Longrightarrow> answer_ok q a \<and> length (answer_text (request_id q) a) \<le> 342"
  shows "\<exists>a u s'. P a \<and> demo_doRequest (nonsecure_Call lib M keys) reqT v (answerT q) (zero_value (answerT q)) s =
      Ret ((None, u, [Text ''mail sent'']), s') \<and> read_answer q u = a \<and> tee_ready M s' \<and> fst s' = fst s"
proof -
  have "length (request_text q) \<le> 342"
    using request_length [of q0] assms(3) by auto
  from doRequest_short [OF assms(1,2,4) this assms(5,6)] obtain a u s' where "P a" "read_answer q u = a" "tee_ready M s'" "fst s' = fst s"
    "doRequest (nonsecure_Call lib M keys) reqT v (answerT q) (zero_value (answerT q)) s = Ret ((None, u), s')" by blast
  with demo_doRequest_token [OF this(5)] show ?thesis by blast
qed

lemma data_fits: "length b \<le> 243 \<Longrightarrow> length (answer_text (request_id q) (DataA b)) \<le> 342"
  using data_answer_fits [OF request_id_small] by blast

lemma mnemonic_answered:
  assumes "tee_system lib M call env trace keys" "tee_ready M s"
    and "\<And>w. \<exists>w'. serve_request (dumbToken_impl env) NewDumbToken (MnemonicRq demo_DerivationPath) w = Ret (Inr (WordsA ws), w')"
    and "list_all (\<lambda>x. valid_utf8 (ascii x)) ws" "length (answer_text RequestMnemonic (WordsA ws)) \<le> 342"
  shows "\<exists>s'. mnemonic (nonsecure_Call lib M keys) s =
    Ret ((None, [Text ''mail sent'', LoggedWords ''generated mnemonic'' ws]), s') \<and> tee_ready M s' \<and> fst s' = fst s"
proof -
  let ?q = "MnemonicRq demo_DerivationPath"
  obtain u s' where "demo_doRequest (nonsecure_Call lib M keys) pathRequestT
      (MnemonicRequest_val \<lparr>Request_ID = RequestMnemonic, MnemonicRequest_Path = demo_DerivationPath\<rparr>) (answerT ?q)
      (zero_value (answerT ?q)) s = Ret ((None, u, [Text ''mail sent'']), s')" "read_answer ?q u = WordsA ws" "tee_ready M s'" "fst s' = fst s"
    using demo_answered [OF assms(1,2) _ packaged(4) [of demo_DerivationPath], of ?q "\<lambda>a. a = WordsA ws"] assms(3-5)
    by (auto simp: list_all_iff simp del: answer_text.simps)
  then show ?thesis by (simp add: mnemonic_def)
qed

lemma pubkey_answered:
  assumes "tee_system lib M call env trace keys" "tee_ready M s"
    and "\<And>w. \<exists>w'. serve_request (dumbToken_impl env) NewDumbToken (PublicKeyRq demo_DerivationPath) w = Ret (Inr (DataA pk), w')"
    and "length pk \<le> 243"
  shows "\<exists>s'. pubkey (nonsecure_Call lib M keys) s =
    Ret ((None, [Text ''mail sent'', LoggedData ''generated pubkey'' pk]), s') \<and> tee_ready M s' \<and> fst s' = fst s"
proof -
  let ?q = "PublicKeyRq demo_DerivationPath"
  obtain u s' where "demo_doRequest (nonsecure_Call lib M keys) pathRequestT
      (PublicKeyRequest_val \<lparr>Request_ID = RequestPublicKey, PublicKeyRequest_Path = demo_DerivationPath\<rparr>) (answerT ?q)
      (zero_value (answerT ?q)) s = Ret ((None, u, [Text ''mail sent'']), s')" "read_answer ?q u = DataA pk" "tee_ready M s'" "fst s' = fst s"
    using demo_answered [OF assms(1,2) _ packaged(3) [of demo_DerivationPath], of ?q "\<lambda>a. a = DataA pk"] assms(3) data_fits [OF assms(4), of ?q]
    by (auto simp del: answer_text.simps request_id.simps)
  then show ?thesis by (simp add: pubkey_def)
qed

lemma sign_answered:
  assumes "tee_system lib M call env trace keys" "tee_ready M s"
    and "\<And>w. \<exists>w'. serve_request (dumbToken_impl env) NewDumbToken
      (SignRq (Sum256 (replicate 42 42)) demo_DerivationPath AlgoSecp256K1) w = Ret (Inr (DataA sg), w')"
    and "length sg \<le> 243"
  shows "\<exists>s'. sign (nonsecure_Call lib M keys) s =
    Ret ((None, [Text ''mail sent'', LoggedData ''generated signature'' sg]), s') \<and> tee_ready M s' \<and> fst s' = fst s"
proof -
  let ?q = "SignRq (Sum256 (replicate 42 42)) demo_DerivationPath AlgoSecp256K1"
  have "hashed_request (SignRq (replicate 42 42) demo_DerivationPath AlgoSecp256K1) = ?q" by (simp only: hashed_request.simps)
  from demo_answered [OF assms(1,2) this packaged(2), of "\<lambda>a. a = DataA sg"] assms(3) data_fits [OF assms(4), of ?q]
  obtain u s' where "demo_doRequest (nonsecure_Call lib M keys) signRequestT
      (SignRequest_val \<lparr>Request_ID = RequestSign, SignRequest_Data = Sum256 (replicate 42 42),
         SignRequest_Path = demo_DerivationPath, SignRequest_Algorithm = AlgoSecp256K1\<rparr>) (answerT ?q)
      (zero_value (answerT ?q)) s = Ret ((None, u, [Text ''mail sent'']), s')" "read_answer ?q u = DataA sg" "tee_ready M s'" "fst s' = fst s"
    by (metis answer_ok.simps(4))
  then show ?thesis by (simp add: sign_def)
qed

lemma randomBytes_answered:
  assumes "tee_system lib M call env trace keys" "tee_ready M s"
    and "\<And>w. \<exists>b w'. serve_request (dumbToken_impl env) NewDumbToken (RandomBytesRq 42) w = Ret (Inr (DataA b), w') \<and> length b = 42"
  shows "\<exists>b s'. randomBytes (nonsecure_Call lib M keys) s =
    Ret ((None, [Text ''mail sent'', LoggedData ''generated random bytes'' b]), s') \<and> length b = 42 \<and> tee_ready M s' \<and> fst s' = fst s"
proof -
  let ?q = "RandomBytesRq 42"
  let ?P = "\<lambda>a. \<exists>b. a = DataA b \<and> length b = 42"
  have ok: "answer_ok ?q a \<and> length (answer_text (request_id ?q) a) \<le> 342" if "?P a" for a
    using that data_fits [of _ ?q] by (auto simp del: answer_text.simps request_id.simps)
  have "\<exists>a w'. serve_request (dumbToken_impl env) NewDumbToken ?q w = Ret (Inr a, w') \<and> ?P a" for w
    using assms(3) [of w] by blast
  from demo_answered [OF assms(1,2) _ packaged(1) this ok, of ?q] obtain b u s' where "length b = 42"
    "demo_doRequest (nonsecure_Call lib M keys) randomBytesRequestT
      (RandomBytesRequest_val \<lparr>Request_ID = RequestRandomBytes, Amount = 42\<rparr>) (answerT ?q)
      (zero_value (answerT ?q)) s = Ret ((None, u, [Text ''mail sent'']), s')" "read_answer ?q u = DataA b" "tee_ready M s'" "fst s' = fst s"
    by auto
  then show ?thesis by (simp add: randomBytes_def)
qed

lemma supportedAlgorithms_answered:
  assumes "tee_system lib M call env trace keys" "tee_ready M s"
  shows "\<exists>s'. supportedAlgorithms (nonsecure_Call lib M keys) s =
    Ret ((None, [Text ''mail sent'', LoggedWords ''supported algorithms'' [''AlgoSecp256K1'']]), s') \<and> tee_ready M s' \<and> fst s' = fst s"
proof -
  let ?q = "AlgorithmsRq"
  let ?a = "AlgorithmsA [AlgoSecp256K1]"
  have "length (answer_text (request_id ?q) ?a) \<le> 342" "answer_ok ?q ?a"
    by (simp_all add: json_Marshal_def algorithmsResponseT_def uintT_def word_val_def field_text_lengths ID_text_lengths
        request_ids AlgoSecp256K1_def)
  moreover have "serve_request (dumbToken_impl env) NewDumbToken ?q w = Ret (Inr ?a, w)" for w
    by (simp add: serve_request_def dumbToken_impl_def dumbToken_SupportedSignAlgorithms_def)
  ultimately obtain u s' where "demo_doRequest (nonsecure_Call lib M keys) requestT
      (Request_val \<lparr>Request_ID = RequestSupportedSignAlgorithms\<rparr>) (answerT ?q)
      (zero_value (answerT ?q)) s = Ret ((None, u, [Text ''mail sent'']), s')" "read_answer ?q u = ?a" "tee_ready M s'" "fst s' = fst s"
    using demo_answered [OF assms(1,2) _ packaged(5), of ?q "\<lambda>a. a = ?a"] by (auto simp del: answer_text.simps request_id.simps)
  moreover have "Algorithm_String AlgoSecp256K1 = Ret ''AlgoSecp256K1''"
    by (simp add: Algorithm_String_def AlgoSecp256K1_def slice_list_def)
  ultimately show ?thesis by (simp add: supportedAlgorithms_def)
qed

section \<open>Properties\<close>

text \<open>
  The demonstration program runs to its end: under a trusted OS whose applet answers the five requests
  with answers that fit, every function is called in order, each logs exactly what the software token
  answers (the signature is that of the SHA-256 hash of 42 bytes 42), no error is logged and the program
  finishes.
\<close>

lemma demo_os_completes:
  assumes "tee_system lib M call env trace keys" and "tee_ready M s"
    and "\<And>w. \<exists>w'. serve_request (dumbToken_impl env) NewDumbToken (MnemonicRq demo_DerivationPath) w = Ret (Inr (WordsA ws), w')"
    and "list_all (\<lambda>x. valid_utf8 (ascii x)) ws" and "length (answer_text RequestMnemonic (WordsA ws)) \<le> 342"
    and "\<And>w. \<exists>w'. serve_request (dumbToken_impl env) NewDumbToken (PublicKeyRq demo_DerivationPath) w = Ret (Inr (DataA pk), w')"
    and "length pk \<le> 243"
    and "\<And>w. \<exists>w'. serve_request (dumbToken_impl env) NewDumbToken
      (SignRq (Sum256 (replicate 42 42)) demo_DerivationPath AlgoSecp256K1) w = Ret (Inr (DataA sg), w')"
    and "length sg \<le> 243"
    and "\<And>w. \<exists>b w'. serve_request (dumbToken_impl env) NewDumbToken (RandomBytesRq 42) w = Ret (Inr (DataA b), w') \<and> length b = 42"
  shows "\<exists>b s'. demo_os_main (nonsecure_Call lib M keys) s = Ret (
      [Text ''normal world os!'',
       CallingFunction 0, Text ''mail sent'', LoggedWords ''generated mnemonic'' ws,
       CallingFunction 1, Text ''mail sent'', LoggedData ''generated pubkey'' pk,
       CallingFunction 2, Text ''mail sent'', LoggedData ''generated signature'' sg,
       CallingFunction 3, Text ''mail sent'', LoggedData ''generated random bytes'' b,
       CallingFunction 4, Text ''mail sent'', LoggedWords ''supported algorithms'' [''AlgoSecp256K1''],
       Text ''finished running''], s') \<and> length b = 42 \<and> tee_ready M s' \<and> fst s' = fst s"
proof -
  from mnemonic_answered [OF assms(1,2,3,4,5)] obtain s1 where s1: "tee_ready M s1" "fst s1 = fst s"
    "mnemonic (nonsecure_Call lib M keys) s = Ret ((None, [Text ''mail sent'', LoggedWords ''generated mnemonic'' ws]), s1)" by blast
  from pubkey_answered [OF assms(1) s1(1) assms(6,7)] obtain s2 where s2: "tee_ready M s2" "fst s2 = fst s1"
    "pubkey (nonsecure_Call lib M keys) s1 = Ret ((None, [Text ''mail sent'', LoggedData ''generated pubkey'' pk]), s2)" by blast
  from sign_answered [OF assms(1) s2(1) assms(8,9)] obtain s3 where s3: "tee_ready M s3" "fst s3 = fst s2"
    "sign (nonsecure_Call lib M keys) s2 = Ret ((None, [Text ''mail sent'', LoggedData ''generated signature'' sg]), s3)" by blast
  from randomBytes_answered [OF assms(1) s3(1) assms(10)] obtain b s4 where s4: "length b = 42" "tee_ready M s4" "fst s4 = fst s3"
    "randomBytes (nonsecure_Call lib M keys) s3 = Ret ((None, [Text ''mail sent'', LoggedData ''generated random bytes'' b]), s4)"
    by blast
  from supportedAlgorithms_answered [OF assms(1) s4(2)] obtain s5 where "tee_ready M s5" "fst s5 = fst s4"
    "supportedAlgorithms (nonsecure_Call lib M keys) s4 =
      Ret ((None, [Text ''mail sent'', LoggedWords ''supported algorithms'' [''AlgoSecp256K1'']]), s5)" by blast
  with s1(2,3) s2(2,3) s3(2,3) s4 show ?thesis
    by (simp add: demo_os_main_def)
qed

definition demo_signature :: bytes where
  "demo_signature = Sum256 (replicate 42 42) @ concat (map le_put32 [0x8000002c, 0x80000076, 0x80000000, 0, 0])"

lemma demo_answers_requests:
  "serve_request (dumbToken_impl demo_env) NewDumbToken (MnemonicRq demo_DerivationPath) w = Ret (Inr (WordsA [''a'', ''b'']), w)"
  "serve_request (dumbToken_impl demo_env) NewDumbToken (PublicKeyRq demo_DerivationPath) w = Ret (Inr (DataA demo_pubkey), w)"
  "serve_request (dumbToken_impl demo_env) NewDumbToken (SignRq (Sum256 (replicate 42 42)) demo_DerivationPath AlgoSecp256K1) w =
     Ret (Inr (DataA demo_signature), w)"
  "serve_request (dumbToken_impl demo_env) NewDumbToken (RandomBytesRq 42) w = Ret (Inr (DataA (replicate 42 4)), w)"
proof -
  note key = at_path_def answered_def dumbToken_impl_def dumbToken_Clone_def dumbToken_Initialize_eq demo_env_def trace_lib_def
    KeyFromPath_def demo_DerivationPath_def InOrder_def serve_request_def
  show "serve_request (dumbToken_impl demo_env) NewDumbToken (MnemonicRq demo_DerivationPath) w = Ret (Inr (WordsA [''a'', ''b'']), w)"
    by (simp add: key dumbToken_Mnemonic_def dumbToken_DeriveSecret_def)
  show "serve_request (dumbToken_impl demo_env) NewDumbToken (PublicKeyRq demo_DerivationPath) w = Ret (Inr (DataA demo_pubkey), w)"
    by (simp add: key dumbToken_PublicKey_def demo_pubkey_def)
  show "serve_request (dumbToken_impl demo_env) NewDumbToken (SignRq (Sum256 (replicate 42 42)) demo_DerivationPath AlgoSecp256K1) w =
     Ret (Inr (DataA demo_signature), w)"
    by (simp add: key dumbToken_Sign_def demo_signature_def)
  show "serve_request (dumbToken_impl demo_env) NewDumbToken (RandomBytesRq 42) w = Ret (Inr (DataA (replicate 42 4)), w)"
    by (simp add: serve_request_def answered_def dumbToken_impl_def dumbToken_RandomBytes_def demo_env_def)
qed

lemma demo_words_fit: "length (answer_text RequestMnemonic (WordsA [''a'', ''b''])) \<le> 342" "list_all (\<lambda>x. valid_utf8 (ascii x)) [''a'', ''b'']"
proof -
  have "length (quote_string (ascii ''a'')) = 3" "length (quote_string (ascii ''b'')) = 3" by code_simp+
  then show "length (answer_text RequestMnemonic (WordsA [''a'', ''b''])) \<le> 342"
    by (simp add: json_Marshal_def mnemonicResponseT_def uintT_def word_val_def field_text_lengths ID_text_lengths strings_val_def
        request_ids)
  show "list_all (\<lambda>x. valid_utf8 (ascii x)) [''a'', ''b'']" by code_simp
qed

end
