(* ===== verification/Wallet_Tee.thy ===== *)
theory Wallet_Tee
  imports Wallet Tee_Properties
begin

text \<open>
  The token of each build (\<open>src/firmware/tee.go\<close>, \<open>src/firmware/tee_tee_enabled.go\<close>) and what the Cosmos
  application computes with the token of the nonsecure world.
\<close>

section \<open>Token selection\<close>

definition tokenImpl :: "'k dumbToken" where
  "tokenImpl = NewDumbToken"

definition tokenImpl_tee_enabled :: TEEToken where
  "tokenImpl_tee_enabled = \<lparr>tt_path = \<lparr>Purpose = 0, CoinType = 0, Account = 0, Change = 0, AddressIndex = 0\<rparr>\<rparr>"

section \<open>Requests of the Cosmos application\<close>

lemma answered_Inr: "answered f r = Ret (Inr a, s) \<longleftrightarrow> (\<exists>x. r = Ret (Inr x, s) \<and> a = f x)"
proof (cases r)
  case (Ret x)
  then show ?thesis by (cases x; cases "fst x") (auto simp: answered_def)
qed (simp add: answered_def)

lemma at_path_Inr:
  "at_path T t p w f = Ret (Inr a, s) \<longleftrightarrow>
     (\<exists>tt w1. Initialize T (Clone T t) p w = Ret (None, tt, w1) \<and> f tt w1 = Ret (Inr a, s))"
  by (fastforce simp: at_path_def elim!: go_bind_RetE split: option.splits)

lemma sign_result_served:
  assumes "serve_request T t (SignRq (Sum256 m) p AlgoSecp256K1) s = Ret (Inr (DataA sig), s')" and "json_valid m"
  shows "sign_result T t p m s = Ret ((sig, APDUSuccess, None), s')"
  using assms by (auto simp: sign_result_def serve_request_def at_path_Inr answered_Inr)

lemma address_result_served:
  assumes "serve_request T t (PublicKeyRq p) s = Ret (Inr (DataA pub), s')" and "addressFromPubkey L pub hrp = Inr addr"
  shows "address_result L T t hrp p s = Ret ((pub @ addr, APDUSuccess, None), s')"
  using assms by (auto simp: address_result_def serve_request_def at_path_Inr answered_Inr)

text \<open>What the software token inside the applet answers at a path of the host.\<close>

lemma dumb_serves_wire:
  assumes "hd_HardenedKeyStart (env_lib env) = 0x80000000"
    and "hd_NewMaster (env_lib env) dumbToken_secret (0x80000000 XOR b) = Inr master"
    and "child_chain (env_lib env) master [a, b, c, d, e] = Some k"
  defines "p \<equiv> \<lparr>Purpose = 0x80000000 XOR a, CoinType = 0x80000000 XOR b, Account = 0x80000000 XOR c,
       Change = d, AddressIndex = e\<rparr>"
  shows "hd_ECPrivKey (env_lib env) k = Inr sk \<Longrightarrow> ec_Sign (env_lib env) sk m = Inr sig \<Longrightarrow>
      serve_request (dumbToken_impl env) t (SignRq m p alg) w = Ret (Inr (DataA sig), w)"
    and "hd_Neuter (env_lib env) k = Inr pk \<Longrightarrow> hd_ECPubKey (env_lib env) pk = Inr pub \<Longrightarrow>
      serve_request (dumbToken_impl env) t (PublicKeyRq p) w = Ret (Inr (DataA pub), w)"
  using dumbToken_Initialize_wire [OF assms(1-3), of t w]
  by (simp_all add: serve_request_def at_path_def answered_def dumb.Clone_same p_def)
     (simp_all add: dumbToken_impl_def dumbToken_Sign_def dumbToken_PublicKey_def)

lemma tee_serves_one:
  assumes "tee_system lib M call env trace keys" "tee_ready M s"
    and "\<And>w. \<exists>w'. serve_request (dumbToken_impl env) NewDumbToken (hashed_request q) w = Ret (Inr (DataA b), w')"
    and "answer_ok (hashed_request q) (DataA b)" and "length b \<le> 243"
  shows "\<exists>s'. serve_request (TEEToken_impl (nonsecure_Call lib M keys)) tt q s = Ret (Inr (DataA b), s') \<and>
    tee_ready M s' \<and> fst s' = fst s"
  using tee_serves [OF assms(1,2), of q "\<lambda>a. a = DataA b" tt] assms(3,4,5) data_answer_fits [OF request_id_small, of q b]
  by (auto simp del: answer_text.simps)

section \<open>Boot\<close>

text \<open>
  The trusted OS boots into a state that is ready for requests: with the applet registered, the nonsecure world
  loaded and no reply waiting.
\<close>

lemma tee_boot_ready:
  assumes "RegisterApp lib NewContext taELF AppletID w = (None, c1, w1)"
    and "LoadNonsecureWorld lib c1 osELF w1 = (None, c2, w2)" and "ns_waiting M w2 = []"
  shows "tee_ready M (c2, w2)"
  using assms
  by (auto simp: tee_ready_def ns_idle_def RegisterApp_def LoadNonsecureWorld_def NewContext_def Let_def
      split: prod.splits option.splits sum.splits)

end
