(* ===== verification/Tee_System.thy ===== *)
theory Tee_System
  imports Nonsecure_Demo Boot Wallet_Tee
begin

text \<open>
  The trusted OS with a program in the nonsecure world, from boot to the end.  The program makes its system calls
  with the stubs of \<open>src/tee/nonsecure_demo_os/api.s\<close> and \<open>nonsecuresyscall\<close>; the monitor that switches to it is
  described by \<open>runs_program\<close>.
\<close>

section \<open>Calls of the nonsecure world\<close>

text \<open>The stubs \<open>printSecure\<close> and \<open>exit\<close> load their registers and trap.\<close>

definition printSecure :: "'w teelib \<Rightarrow> app_id list \<Rightarrow> byte \<Rightarrow> Context \<times> 'w \<Rightarrow> (go_error option \<times> Context \<times> 'w) go" where
  "printSecure lib keys ch s =
     (let (c, w) = s
      in nonsecureWorldHandler lib keys ((NonsecureWorld c)\<lparr>ex_R0 := SYS_WRITE lib, ex_R1 := ucast ch\<rparr>) c w)"

definition exit :: "'w teelib \<Rightarrow> app_id list \<Rightarrow> Context \<times> 'w \<Rightarrow> (go_error option \<times> ExecCtx \<times> Context \<times> 'w) go" where
  "exit lib keys s =
     (let (c, w) = s; x = (NonsecureWorld c)\<lparr>ex_R0 := SYS_EXIT lib\<rparr>
      in go_bind (nonsecureWorldHandler lib keys x c w) (\<lambda>(err, c', w'). Ret (err, x, c', w')))"

text \<open>
  \<open>printk\<close> of the demo OS: on the board a character is one system call, elsewhere it goes to the serial port.  Text
  is printed character by character, until a call fails.
\<close>

definition printk ::
  "'w teelib \<Rightarrow> app_id list \<Rightarrow> (byte \<Rightarrow> 'w \<Rightarrow> 'w) \<Rightarrow> byte \<Rightarrow> Context \<times> 'w \<Rightarrow> (go_error option \<times> Context \<times> 'w) go" where
  "printk lib keys UART2_Tx ch s =
     (if imx6_Native (hw_lib lib) then printSecure lib keys ch s else Ret (None, fst s, UART2_Tx ch (snd s)))"

fun print_text ::
  "'w teelib \<Rightarrow> app_id list \<Rightarrow> (byte \<Rightarrow> 'w \<Rightarrow> 'w) \<Rightarrow> bytes \<Rightarrow> Context \<times> 'w \<Rightarrow> (go_error option \<times> Context \<times> 'w) go" where
  "print_text lib keys tx [] s = Ret (None, s)"
| "print_text lib keys tx (ch # chs) s =
     go_bind (printk lib keys tx ch s) (\<lambda>(err, s'). if err = None then print_text lib keys tx chs s' else Ret (err, s'))"

text \<open>The call numbers are those of the nonsecure system calls.\<close>

definition call_numbers :: "'w teelib \<Rightarrow> bool" where
  "call_numbers lib \<longleftrightarrow> SYS_EXIT lib = ns_SYS_EXIT \<and> SYS_WRITE lib = ns_SYS_WRITE \<and>
     SYS_RPC_REQ lib = ns_SYS_RPC_REQ \<and> SYS_RPC_RES lib = ns_SYS_RPC_RES"

lemmas ns_numbers = ns_SYS_EXIT_def ns_SYS_WRITE_def ns_SYS_RPC_REQ_def ns_SYS_RPC_RES_def

lemma exit_ends:
  assumes "call_numbers lib" and "ex_NonSecure (NonsecureWorld c)"
  shows "exit lib keys (c, w) = Ret (Some ErrNonsecureExit, (NonsecureWorld c)\<lparr>ex_R0 := SYS_EXIT lib\<rparr>, c, w)"
  using assms by (simp add: exit_def nonsecureWorldHandler_def logHandler_def call_numbers_def ns_numbers Let_def)

lemma ucast_byte: "ucast (ucast ch :: uint32) = (ch :: byte)"
  by transfer (simp add: take_bit_take_bit)

text \<open>Text printed by the nonsecure world goes to its own buffer and touches nothing else, or to the serial port.\<close>

lemma print_text_logs:
  assumes "call_numbers lib" and "imx6_Native (hw_lib lib)" and "ex_NonSecure (NonsecureWorld c)"
  shows "print_text lib keys tx chs (c, w) =
    Ret (None, c\<lparr>pkg_log := log_run (map (\<lambda>ch. (ch, True)) chs) (pkg_log c)\<rparr>, w)"
  using assms(3)
proof (induction chs arbitrary: c)
  case (Cons ch chs)
  have "printk lib keys tx ch (c, w) = Ret (None, c\<lparr>pkg_log := bufferedStdoutLog ch True (pkg_log c)\<rparr>, w)"
    using assms(1,2) Cons.prems
    by (simp add: printk_def printSecure_def nonsecureWorldHandler_def logHandler_def call_numbers_def ns_numbers ucast_byte)
  with Cons show ?case by (simp add: log_run_def)
qed (simp add: log_run_def)

lemma print_text_serial:
  "\<not> imx6_Native (hw_lib lib) \<Longrightarrow> print_text lib keys tx chs (c, w) = Ret (None, c, fold tx chs w)"
  by (induction chs arbitrary: w) (simp_all add: printk_def)

section \<open>A program in the nonsecure world\<close>

text \<open>
  The monitor runs the program of the nonsecure world until it calls \<open>exit\<close>; a panic of the trusted OS in a system
  call of the program is a panic of the run.  A context loaded for the nonsecure world is nonsecure.  The program is
  what it does with the mailboxes; the system calls with which its logger prints, which only change the console buffer
  (\<open>print_text_logs\<close>), are not part of it.
\<close>

definition runs_program ::
  "'w teelib \<Rightarrow> app_id list \<Rightarrow> (Context \<times> 'w \<Rightarrow> ('a \<times> Context \<times> 'w) go) \<Rightarrow> bool" where
  "runs_program lib keys prog \<longleftrightarrow>
     call_numbers lib \<and>
     (\<forall>e r w os w'. monitor_Load lib e r False w = (Inr os, w') \<longrightarrow> ex_NonSecure os) \<and>
     (\<forall>x c w. ex_Server x = NonsecureReceiver \<longrightarrow>
        exec_Run lib x c w = go_bind (prog (c, w)) (\<lambda>(_, s). exit lib keys s))"

definition booted :: "'w teelib \<Rightarrow> bytes \<Rightarrow> bytes \<Rightarrow> 'w \<Rightarrow> Context \<times> 'w \<Rightarrow> bool" where
  "booted lib taELF osELF w s \<longleftrightarrow>
     (\<exists>c1 w1. RegisterApp lib NewContext taELF AppletID w = (None, c1, w1) \<and>
        LoadNonsecureWorld lib c1 osELF w1 = (None, fst s, snd s))"

lemma booted_ready: "booted lib taELF osELF w s \<Longrightarrow> ns_waiting M (snd s) = [] \<Longrightarrow> tee_ready M s"
  using tee_boot_ready [of lib taELF w _ _ osELF "fst s" "snd s" M] by (auto simp: booted_def)

lemma booted_context:
  assumes "booted lib taELF osELF w s" and "runs_program lib keys prog"
  shows "ex_NonSecure (NonsecureWorld (fst s))" and "ex_Server (NonsecureWorld (fst s)) = NonsecureReceiver"
proof -
  from assms(1) obtain c1 w1 where "LoadNonsecureWorld lib c1 osELF w1 = (None, fst s, snd s)" by (auto simp: booted_def)
  then obtain os e r w2 w3 where load: "monitor_Load lib e r False w2 = (Inr os, w3)"
      and c: "NonsecureWorld (fst s) = os\<lparr>ex_Server := NonsecureReceiver, ex_Handler := NonsecureWorldHandler, ex_Debug := True\<rparr>"
    by (cases rule: LoadNonsecureWorld_cases) auto
  from load assms(2) have "ex_NonSecure os" unfolding runs_program_def by blast
  with c show "ex_NonSecure (NonsecureWorld (fst s))" and "ex_Server (NonsecureWorld (fst s)) = NonsecureReceiver" by simp_all
qed

lemma booted_main:
  "booted lib taELF osELF w s \<Longrightarrow> trusted_os_main lib taELF osELF w = RunNonsecureWorld lib (fst s) (snd s)"
  by (auto simp: booted_def trusted_os_main_def split: prod.splits)

lemma run_program:
  assumes "booted lib taELF osELF w s" and "runs_program lib keys prog"
  shows "prog s = Ret (r, s') \<Longrightarrow> fst s' = fst s \<Longrightarrow> trusted_os_main lib taELF osELF w = Ret s'"
    and "prog s = Panic p \<Longrightarrow> trusted_os_main lib taELF osELF w = Panic p"
proof -
  note ctx = booted_context [OF assms]
  from ctx(2) assms(2) have run: "exec_Run lib (NonsecureWorld (fst s)) (fst s) (snd s) =
      go_bind (prog s) (\<lambda>(_, s). exit lib keys s)" by (simp add: runs_program_def)
  show "trusted_os_main lib taELF osELF w = Ret s'" if "prog s = Ret (r, s')" "fst s' = fst s"
    using run that ctx(1) exit_ends [of lib "fst s'" keys "snd s'"] assms(2)
    by (cases s') (simp add: booted_main [OF assms(1)] RunNonsecureWorld_def run_def Let_def runs_program_def ErrNonsecureExit_def)
  show "trusted_os_main lib taELF osELF w = Panic p" if "prog s = Panic p"
    using run that by (simp add: booted_main [OF assms(1)] RunNonsecureWorld_def run_def)
qed

section \<open>A monitor that runs a program\<close>

text \<open>Any monitor can be made to run a program in the nonsecure world; the applets do not notice.\<close>

definition with_program ::
  "'w teelib \<Rightarrow> 'w ns_machine \<Rightarrow> app_id list \<Rightarrow> ((Context \<times> 'w) rpcCallFunc \<Rightarrow> Context \<times> 'w \<Rightarrow> ('a \<times> Context \<times> 'w) go) \<Rightarrow> 'w teelib" where
  "with_program lib M keys prog =
     lib\<lparr>exec_Run := (\<lambda>x c w.
       if ex_Server x = NonsecureReceiver
       then go_bind (prog (nonsecure_Call lib M keys) (c, w)) (\<lambda>(_, s). exit lib keys s)
       else exec_Run lib x c w)\<rparr>"

lemma with_program_sel [simp]:
  "elf_Load (with_program lib M keys prog) = elf_Load lib" "elf_Entry (with_program lib M keys prog) = elf_Entry lib"
  "monitor_Load (with_program lib M keys prog) = monitor_Load lib"
  "monitor_SecureHandler (with_program lib M keys prog) = monitor_SecureHandler lib"
  "hw_lib (with_program lib M keys prog) = hw_lib lib" "hw_exec (with_program lib M keys prog) = hw_exec lib"
  "SYS_WRITE (with_program lib M keys prog) = SYS_WRITE lib"
  "SYS_EXIT (with_program lib M keys prog) = SYS_EXIT lib" "SYS_RPC_REQ (with_program lib M keys prog) = SYS_RPC_REQ lib"
  "SYS_RPC_RES (with_program lib M keys prog) = SYS_RPC_RES lib" "tz_rand (with_program lib M keys prog) = tz_rand lib"
  "region_Read (with_program lib M keys prog) = region_Read lib" "tz_maxAlloc (with_program lib M keys prog) = tz_maxAlloc lib"
  "ex_Server x = SecureReceiver \<Longrightarrow> exec_Run (with_program lib M keys prog) x = exec_Run lib x"
  by (simp_all add: with_program_def fun_eq_iff)

lemma loadTA_with_program [simp]: "loadTA (with_program lib M keys prog) = loadTA lib"
  by (intro ext) (simp only: loadTA_def with_program_sel)

lemma loadTA_server: "loadTA lib c i w = (Inr ta, w1) \<Longrightarrow> ex_Server ta = SecureReceiver"
  by (auto simp: loadTA_def split: option.splits prod.splits sum.splits)

lemma dispatch_with_program [simp]: "dispatchAppsCalls (with_program lib M keys prog) ks c w = dispatchAppsCalls lib ks c w"
proof (induction ks arbitrary: c w)
  case (Cons k ks)
  have "run (with_program lib M keys prog) ta = run lib ta" if "loadTA lib c k w = (Inr ta, w1)" for ta w1
    using loadTA_server [OF that] by (simp add: fun_eq_iff run_def)
  with Cons show ?case by (auto split: prod.split sum.split intro!: go_bind_cong)
qed simp

lemma logHandler_with_program [simp]: "logHandler (with_program lib M keys prog) = logHandler lib"
  by (intro ext) (simp only: logHandler_def with_program_sel)

lemma handler_with_program [simp]:
  "nonsecureWorldHandler (with_program lib M keys prog) ks = nonsecureWorldHandler lib ks"
  by (intro ext) (simp only: nonsecureWorldHandler_def with_program_sel logHandler_with_program dispatch_with_program)

lemma exit_with_program [simp]: "exit (with_program lib M keys prog) = exit lib"
  by (intro ext) (simp only: exit_def with_program_sel handler_with_program)

lemma Call_with_program [simp]: "smc_syscalls (with_program lib M keys prog) M' ks = smc_syscalls lib M' ks"
proof -
  have "smc (with_program lib M keys prog) M' ks = smc lib M' ks"
    by (intro ext) (simp only: smc_def handler_with_program)
  then show ?thesis by (simp only: smc_syscalls_def)
qed

lemma tee_system_with_program:
  assumes "tee_system lib M call env trace keys"
  shows "tee_system (with_program lib M keys prog) M call env trace keys"
proof -
  have "stops_in (with_program lib M keys prog) x c w x1 c1 w1 \<longleftrightarrow> stops_in lib x c w x1 c1 w1"
    if "ex_Server x = SecureReceiver" for x c w x1 c1 w1
    using that by (simp add: stops_in_def)
  with assms show ?thesis
    by (simp add: tee_system_def monitor_rpc_def applets_apart_def loads_applets_def runs_applet_def
        cong: applet_outcome.case_cong)
qed

section \<open>Properties\<close>

text \<open>
  C13. The trusted OS runs the demonstration program to its end: booted with the applet and with the program as
  nonsecure world, it serves the five requests, each logged by the program with exactly what the software token
  answers, the program exits, \<open>main\<close> returns without a panic, with the trusted OS as it booted, and the board is reset.
\<close>

theorem trusted_os_runs_demo:
  assumes "tee_system lib M call env trace keys" and "booted lib taELF osELF w s" and "ns_waiting M (snd s) = []"
    and "runs_program lib keys (demo_os_main (nonsecure_Call lib M keys))"
    and "\<And>w. \<exists>w'. serve_request (dumbToken_impl env) NewDumbToken (MnemonicRq demo_DerivationPath) w = Ret (Inr (WordsA ws), w')"
    and "list_all (\<lambda>x. valid_utf8 (ascii x)) ws" and "length (answer_text RequestMnemonic (WordsA ws)) \<le> 342"
    and "\<And>w. \<exists>w'. serve_request (dumbToken_impl env) NewDumbToken (PublicKeyRq demo_DerivationPath) w = Ret (Inr (DataA pk), w')"
    and "length pk \<le> 243"
    and "\<And>w. \<exists>w'. serve_request (dumbToken_impl env) NewDumbToken
      (SignRq (Sum256 (replicate 42 42)) demo_DerivationPath AlgoSecp256K1) w = Ret (Inr (DataA sg), w')"
    and "length sg \<le> 243"
    and "\<And>w. \<exists>b w'. serve_request (dumbToken_impl env) NewDumbToken (RandomBytesRq 42) w = Ret (Inr (DataA b), w') \<and> length b = 42"
  shows "\<exists>b w'. demo_os_main (nonsecure_Call lib M keys) s = Ret (
      [Text ''normal world os!'',
       CallingFunction 0, Text ''mail sent'', LoggedWords ''generated mnemonic'' ws,
       CallingFunction 1, Text ''mail sent'', LoggedData ''generated pubkey'' pk,
       CallingFunction 2, Text ''mail sent'', LoggedData ''generated signature'' sg,
       CallingFunction 3, Text ''mail sent'', LoggedData ''generated random bytes'' b,
       CallingFunction 4, Text ''mail sent'', LoggedWords ''supported algorithms'' [''AlgoSecp256K1''],
       Text ''finished running''], fst s, w') \<and> length b = 42 \<and>
    trusted_os_main lib taELF osELF w = Ret (fst s, w') \<and>
    last (fst (trusted_os_process lib taELF osELF w)) = BoardReset"
proof -
  from demo_os_completes [OF assms(1) booted_ready [OF assms(2,3)] assms(5-12)] obtain b s' where
    run: "demo_os_main (nonsecure_Call lib M keys) s = Ret (
      [Text ''normal world os!'',
       CallingFunction 0, Text ''mail sent'', LoggedWords ''generated mnemonic'' ws,
       CallingFunction 1, Text ''mail sent'', LoggedData ''generated pubkey'' pk,
       CallingFunction 2, Text ''mail sent'', LoggedData ''generated signature'' sg,
       CallingFunction 3, Text ''mail sent'', LoggedData ''generated random bytes'' b,
       CallingFunction 4, Text ''mail sent'', LoggedWords ''supported algorithms'' [''AlgoSecp256K1''],
       Text ''finished running''], s')" and s': "length b = 42" "fst s' = fst s" by blast
  from run_program(1) [OF assms(2,4) run s'(2)] run s' show ?thesis
    by (cases s') (simp add: trusted_os_process_resets)
qed

text \<open>A trusted OS that boots, for the witnesses.\<close>

definition demo_booted :: "Context \<times> demo_world" where
  "demo_booted =
     (NewContext\<lparr>Apps := [AppletID \<mapsto> \<lparr>img_Region = AppletRegion, img_ELF = [1]\<rparr>],
       NonsecureWorld := ExecCtx_zero\<lparr>ex_NonSecure := True, ex_Server := NonsecureReceiver,
         ex_Handler := NonsecureWorldHandler, ex_Debug := True\<rparr>\<rparr>, snd demo_state)"

lemma demo_trustzone: "snd (configureTrustZone demo_hw True) = None"
  by (simp add: configureTrustZone_succeeds demo_hw_def hw_succeeds_def)

lemma demo_boots:
  "RegisterApp demo_lib NewContext [1] AppletID (snd demo_state) =
     (None, NewContext\<lparr>Apps := [AppletID \<mapsto> \<lparr>img_Region = AppletRegion, img_ELF = [1]\<rparr>]\<rparr>, snd demo_state)"
  "LoadNonsecureWorld demo_lib (NewContext\<lparr>Apps := [AppletID \<mapsto> \<lparr>img_Region = AppletRegion, img_ELF = [1]\<rparr>]\<rparr>) [2]
     (snd demo_state) = (None, demo_booted)"
proof -
  show "RegisterApp demo_lib NewContext [1] AppletID (snd demo_state) =
     (None, NewContext\<lparr>Apps := [AppletID \<mapsto> \<lparr>img_Region = AppletRegion, img_ELF = [1]\<rparr>]\<rparr>, snd demo_state)"
    by (simp add: RegisterApp_def demo_lib_def NewContext_def)
  from demo_trustzone show "LoadNonsecureWorld demo_lib
     (NewContext\<lparr>Apps := [AppletID \<mapsto> \<lparr>img_Region = AppletRegion, img_ELF = [1]\<rparr>]\<rparr>) [2] (snd demo_state) = (None, demo_booted)"
    by (simp add: LoadNonsecureWorld_def case_prod_unfold demo_lib_def demo_booted_def Let_def) (simp add: demo_hw_def)
qed

lemma boot_with_program [simp]:
  "RegisterApp (with_program lib M keys prog) = RegisterApp lib"
  "LoadNonsecureWorld (with_program lib M keys prog) = LoadNonsecureWorld lib"
  by (intro ext, simp only: RegisterApp_def LoadNonsecureWorld_def with_program_sel)+

abbreviation demo_system where
  "demo_system prog \<equiv> with_program demo_lib demo_machine [AppletID] prog"

lemma demo_system_boots: "booted (demo_system prog) [1] [2] (snd demo_state) demo_booted"
  using demo_boots by (simp add: booted_def)

lemma demo_system_runs:
  "runs_program (demo_system prog) [AppletID] (prog (nonsecure_Call demo_lib demo_machine [AppletID]))"
  by (simp add: runs_program_def)
     (simp add: with_program_def call_numbers_def demo_lib_def ns_numbers)

lemma demo_waiting: "ns_waiting demo_machine (snd demo_booted) = []"
  by (simp add: demo_booted_def demo_state_def demo_machine_def)

theorem trusted_os_runs_demo_witness:
  "\<exists>w'. trusted_os_main (demo_system demo_os_main) [1] [2] (snd demo_state) = Ret (fst demo_booted, w')"
proof -
  have ok: "\<exists>w'. serve_request (dumbToken_impl demo_env) NewDumbToken (MnemonicRq demo_DerivationPath) w = Ret (Inr (WordsA [''a'', ''b'']), w')"
    "\<exists>w'. serve_request (dumbToken_impl demo_env) NewDumbToken (PublicKeyRq demo_DerivationPath) w = Ret (Inr (DataA demo_pubkey), w')"
    "\<exists>w'. serve_request (dumbToken_impl demo_env) NewDumbToken (SignRq (Sum256 (replicate 42 42)) demo_DerivationPath AlgoSecp256K1) w =
      Ret (Inr (DataA demo_signature), w')" for w
    by (rule exI, rule demo_answers_requests)+
  have rb: "\<exists>b w'. serve_request (dumbToken_impl demo_env) NewDumbToken (RandomBytesRq 42) w = Ret (Inr (DataA b), w') \<and> length b = 42"
    for w by (intro exI conjI) (rule demo_answers_requests(4), simp)
  have pk: "length demo_pubkey \<le> 243" by (simp add: demo_pubkey_def)
  have sg: "length demo_signature \<le> 243" by (simp add: demo_signature_def)
  have runs: "runs_program (demo_system demo_os_main) [AppletID]
      (demo_os_main (nonsecure_Call (demo_system demo_os_main) demo_machine [AppletID]))"
    using demo_system_runs by simp
  from trusted_os_runs_demo [OF tee_system_with_program [OF demo_tee_system] demo_system_boots demo_waiting runs
      ok(1) demo_words_fit(2,1) ok(2) pk ok(3) sg rb]
  show ?thesis by blast
qed

text \<open>
  C23. A program of the nonsecure world can stop the trusted OS: if it starts with mail to the applet whose payload is
  a signature request with a derivable path and data that is not base64, \<open>main\<close> of the trusted OS ends in a panic, whatever
  the program does next, and the board is reset.
\<close>

theorem nonsecure_program_stops_trusted_os:
  assumes "tee_system lib M call env trace keys" and "booted lib taELF osELF w s" and "ns_waiting M (snd s) = []"
    and "runs_program lib keys (\<lambda>s. go_bind (client_SendMail (nonsecure_Call lib M keys) \<lparr>AppID = AppletID, Payload = p\<rparr> s) rest)"
    and "length p \<le> 342" and "RequestedOp p = Ret (Inr RequestSign)"
    and "json_Unmarshal signRequestInternalT (zero_value signRequestInternalT) p = Ret (v, None)"
    and "AppletToken_Initialize env NewToken (sri_Path (val_signRequestInternal v)) w1 = Ret (None, t, w1)"
    and "base64_decode (sri_Data (val_signRequestInternal v)) = Inl e"
  shows "\<exists>q. trusted_os_main lib taELF osELF w = Panic q \<and>
    trusted_os_process lib taELF osELF w =
      (if imx6_Native (hw_lib lib) then [BoardReset] else [SemihostingShutdown, BoardReset], Returned)"
proof -
  from bad_base64_takes_down_trusted_os [OF assms(1) booted_ready [OF assms(2,3)] assms(5-9)] obtain q where
    "client_SendMail (nonsecure_Call lib M keys) \<lparr>AppID = AppletID, Payload = p\<rparr> s = Panic q" by blast
  with run_program(2) [OF assms(2,4), of q] show ?thesis by (simp add: trusted_os_process_resets)
qed

definition bad_program :: "(Context \<times> demo_world) rpcCallFunc \<Rightarrow> Context \<times> demo_world \<Rightarrow> (go_error option \<times> Context \<times> demo_world) go" where
  "bad_program call s = go_bind (client_SendMail call \<lparr>AppID = AppletID, Payload = bad_request\<rparr> s) Ret"

theorem nonsecure_program_stops_trusted_os_witness:
  "\<exists>q. trusted_os_main (demo_system bad_program) [1] [2] (snd demo_state) = Panic q \<and>
     trusted_os_process (demo_system bad_program) [1] [2] (snd demo_state) = ([BoardReset], Returned)"
proof -
  let ?lib = "demo_system bad_program"
  have "runs_program ?lib [AppletID] (\<lambda>s. go_bind (client_SendMail (nonsecure_Call ?lib demo_machine [AppletID])
      \<lparr>AppID = AppletID, Payload = bad_request\<rparr> s) Ret)"
    using demo_system_runs [of bad_program] by (simp add: bad_program_def [abs_def])
  from nonsecure_program_stops_trusted_os [OF tee_system_with_program [OF demo_tee_system] demo_system_boots demo_waiting this
      bad_request_length bad_request_op bad_request_read(2) bad_request_init bad_request_data]
  show ?thesis by (simp add: demo_lib_def demo_hw_def)
qed

end
