(* ===== verification/Program_Memory.thy ===== *)
theory Program_Memory
  imports Tee_System
begin

text \<open>
  Where the programs run: each of them hands the runtime its memory (\<open>ramStart\<close>, \<open>ramSize\<close>), and the trusted OS
  moves its DMA memory and partitions the address space.
\<close>

definition trusted_os_ram :: Region where
  "trusted_os_ram = \<lparr>rg_Start = SecureStart, rg_Size = SecureSize\<rparr>"

definition applet_ram :: Region where
  "applet_ram = \<lparr>rg_Start = AppletStart, rg_Size = AppletSize\<rparr>"

definition demo_os_ram :: Region where
  "demo_os_ram = \<lparr>rg_Start = NonSecureStart, rg_Size = NonSecureSize\<rparr>"

definition firmware_tee_ram :: Region where
  "firmware_tee_ram = \<lparr>rg_Start = NonSecureStart, rg_Size = NonSecureSize\<rparr>"

definition in_region :: "Region \<Rightarrow> uint32 \<Rightarrow> bool" where
  "in_region r a = inside (rg_Start r) (rg_Size r) a"

lemmas rams = trusted_os_ram_def applet_ram_def demo_os_ram_def firmware_tee_ram_def AppletRegion_def NonSecureRegion_def

text \<open>A partition that reports no error has made all its calls.\<close>

lemma configureTrustZone_all:
  assumes "imx6_Native hw" and "configureTrustZone hw lock = (calls, None)"
  shows "calls = trustzone_calls hw lock"
proof -
  obtain calls' where seq: "hw_seq hw (drop 2 (trustzone_calls hw lock)) = (calls', None)"
    "calls = take 2 (trustzone_calls hw lock) @ calls'"
    using assms(2) configureTrustZone_seq [OF assms(1), of lock] by (auto simp: Let_def split: prod.splits)
  from hw_seq_stops [OF seq(1)] have "drop 2 (trustzone_calls hw lock) = calls'" by simp
  with seq(2) show ?thesis by (metis append_take_drop_id)
qed

text \<open>
  C14. Program memory is separated: once the trusted OS on the board has loaded the nonsecure world, every address of its own
  memory, of its DMA memory and of the applet's has the attributes of the secure world, and every address of the
  firmware or the demo OS those of the nonsecure world; the programs of the two worlds share no address, the images
  are loaded into the memory their programs use, and the applet starts with its stack at the end of its memory.
\<close>

theorem programs_separated:
  assumes "imx6_Native (hw_lib lib)" and "tzc_semantics perm" and "LoadNonsecureWorld lib c osELF w = (None, c', w')"
  shows "\<exists>calls. configureTrustZone (hw_lib lib) True = (calls, None) \<and>
    (in_region trusted_os_ram a \<or> inside SecureDMAStart SecureDMASize a \<or> in_region applet_ram a \<longrightarrow>
       perm calls a = sw_attr (hw_lib lib)) \<and>
    (in_region demo_os_ram a \<or> in_region firmware_tee_ram a \<longrightarrow>
       perm calls a = nw_attr (hw_lib lib) \<and> \<not> in_region trusted_os_ram a \<and> \<not> in_region applet_ram a \<and>
       \<not> inside SecureDMAStart SecureDMASize a) \<and>
    AppletRegion = applet_ram \<and> NonSecureRegion = demo_os_ram \<and> NonSecureRegion = firmware_tee_ram \<and>
    (\<forall>i ta w1 w2. loadTA lib c' i w1 = (Inr ta, w2) \<longrightarrow>
       unat (ex_R13 ta) = unat (rg_Start applet_ram) + unat (rg_Size applet_ram))"
proof -
  from assms(3) obtain calls where conf: "configureTrustZone (hw_lib lib) True = (calls, None)"
    by (cases rule: LoadNonsecureWorld_cases) (use assms(1) in auto)
  from configureTrustZone_all [OF assms(1) conf] have calls: "calls = trustzone_calls (hw_lib lib) True" .
  have sp: "unat (ex_R13 ta) = unat (rg_Start applet_ram) + unat (rg_Size applet_ram)" if "loadTA lib c' i w1 = (Inr ta, w2)"
    for i ta w1 w2
    using that by (auto simp: loadTA_def applet_ram_def mem_consts split: option.splits prod.splits sum.splits)
  show ?thesis
    using conf sp perm_trustzone [OF assms(2), of "hw_lib lib" True a]
    by (intro exI [of _ calls]) (auto simp: calls in_region_def rams inside_regions)
qed

theorem programs_separated_witness:
  "(\<lambda>calls a. snd (the (attr_of calls a))) (trustzone_calls demo_hw True) 0x9c000004 = sw_attr demo_hw \<and>
   AppletRegion = applet_ram"
proof -
  have tz: "tzc_semantics (\<lambda>calls a. snd (the (attr_of calls a)))" by (simp add: tzc_semantics_def)
  have hw: "hw_lib demo_lib = demo_hw" "imx6_Native (hw_lib demo_lib)" by (simp_all add: demo_lib_def demo_hw_def)
  have load: "LoadNonsecureWorld demo_lib (NewContext\<lparr>Apps := [AppletID \<mapsto> \<lparr>img_Region = AppletRegion, img_ELF = [1]\<rparr>]\<rparr>) [2]
      (snd demo_state) = (None, fst demo_booted, snd demo_booted)" using demo_boots(2) by simp
  have "in_region applet_ram 0x9c000004" by (simp add: in_region_def applet_ram_def inside_Applet)
  with programs_separated [OF hw(2) tz load, of "0x9c000004"] hw(1) configureTrustZone_all [of demo_hw True] hw(2)
  show ?thesis by auto
qed

end
