(* ===== verification/Wallet_Spec.thy ===== *)
theory Wallet_Spec
  imports Wallet_Tee
begin

text \<open>
  An abstract wallet and the two builds that implement it.  An exchange with the wallet is a signature or an
  address request; \<open>wallet_answer\<close> says in terms of keys and documents what it answers.  The locale
  \<open>wallet_build\<close> is what a build of the firmware promises for one exchange; under it whole sessions follow.
  The software build and the TEE build interpret it; the TEE build hashes once more before it signs.
\<close>

section \<open>The abstract wallet\<close>

datatype exchange =
    SignX "uint32 list" "bytes list" bytes
  | AddressX bytes "uint32 list"

fun exchange_requests :: "exchange \<Rightarrow> bytes list" where
  "exchange_requests (SignX ws adds final) = sign_requests ws adds final"
| "exchange_requests (AddressX hrp ws) = [address_request hrp ws]"

text \<open>The key at five path words, all of them used as they are.\<close>

definition key_at :: "('k, 'sk, 'w) token_env \<Rightarrow> uint32 list \<Rightarrow> 'k option" where
  "key_at env ws =
     (case hd_NewMaster (env_lib env) dumbToken_secret (0x80000000 XOR ws ! 1) of
        Inl _ \<Rightarrow> None
      | Inr master \<Rightarrow> child_chain (env_lib env) master ws)"

fun right :: "'e + 'a \<Rightarrow> 'a option" where
  "right (Inl _) = None"
| "right (Inr x) = Some x"

lemma right_Some [simp]: "right r = Some x \<longleftrightarrow> r = Inr x"
  by (cases r) simp_all

text \<open>The data of the answers to the requests of an exchange, if all of them succeed.\<close>

fun wallet_answer :: "(bytes \<Rightarrow> bytes) \<Rightarrow> cosmos_lib \<Rightarrow> ('k, 'sk, 'w) token_env \<Rightarrow> exchange \<Rightarrow> bytes list option" where
  "wallet_answer rehash L env (SignX ws adds final) =
     (let doc = concat (adds @ [final])
      in if \<not> json_valid doc then None
         else Option.bind (key_at env ws) (\<lambda>k.
              Option.bind (right (hd_ECPrivKey (env_lib env) k)) (\<lambda>sk.
              Option.bind (right (ec_Sign (env_lib env) sk (rehash (Sum256 doc)))) (\<lambda>sig.
                Some (replicate (1 + length adds) [] @ [sig])))))"
| "wallet_answer rehash L env (AddressX hrp ws) =
     Option.bind (key_at env ws) (\<lambda>k.
     Option.bind (right (hd_Neuter (env_lib env) k)) (\<lambda>pk.
     Option.bind (right (hd_ECPubKey (env_lib env) pk)) (\<lambda>pub.
     Option.bind (right (bech32_ConvertBits L (lib_ripemd160 L (Sum256 pub)))) (\<lambda>groups.
     Option.bind (right (bech32_Encode L hrp groups)) (\<lambda>addr.
       Some [pub @ addr])))))"

text \<open>Exchanges the host can make: five path words, a prefix bech32 allows, requests the APDU parser reads.\<close>

fun exchange_ok :: "(bytes \<Rightarrow> go_error + CAPDU) \<Rightarrow> exchange \<Rightarrow> bool" where
  "exchange_ok unm (SignX ws adds final) \<longleftrightarrow>
     length ws = 5 \<and> list_all (\<lambda>m. length m \<le> 65535 \<and> parses_header unm m) (sign_requests ws adds final)"
| "exchange_ok unm (AddressX hrp ws) \<longleftrightarrow>
     length ws = 5 \<and> 1 \<le> length hrp \<and> length hrp \<le> 83 \<and> parses_header unm (address_request hrp ws)"

definition exchange_frames :: "Session \<Rightarrow> exchange \<Rightarrow> bytes list" where
  "exchange_frames r x = concat (map (frames_of r) (exchange_requests x))"

definition answer_frames :: "Session \<Rightarrow> bytes list \<Rightarrow> bytes list" where
  "answer_frames r ds = concat (map (\<lambda>d. frames_of r (PackageResponse d APDUSuccess)) ds)"

section \<open>What a build promises\<close>

locale wallet_build =
  fixes unm :: "bytes \<Rightarrow> go_error + CAPDU" and L :: cosmos_lib and T :: "('t, 's) Token" and t :: 't
    and env :: "('k, 'sk, 'w) token_env" and rehash :: "bytes \<Rightarrow> bytes"
    and ready :: "Session \<Rightarrow> 's \<Rightarrow> bool" and fits :: "bytes list \<Rightarrow> bool"
  assumes exchange_served: "ready r s \<Longrightarrow> exchange_ok unm x \<Longrightarrow> wallet_answer rehash L env x = Some ds \<Longrightarrow> fits ds \<Longrightarrow>
    \<exists>s'. Rx_run (Handle unm (cosmos_App L T)) (firmware_main L T t) (exchange_frames r x) s =
      Ret (answer_frames r ds, firmware_main L T t, s') \<and> ready r s'"
begin

lemma session_served:
  assumes "ready r s" and "list_all (exchange_ok unm) xs"
    and "map (wallet_answer rehash L env) xs = map Some dss" and "list_all fits dss"
  shows "\<exists>s'. Rx_run (Handle unm (cosmos_App L T)) (firmware_main L T t) (concat (map (exchange_frames r) xs)) s =
    Ret (concat (map (answer_frames r) dss), firmware_main L T t, s') \<and> ready r s'"
  using assms
proof (induction xs arbitrary: dss s)
  case Nil
  then show ?case by simp
next
  case (Cons x xs)
  then obtain ds dss' where dss: "dss = ds # dss'" "wallet_answer rehash L env x = Some ds"
    "map (wallet_answer rehash L env) xs = map Some dss'" by (cases dss) auto
  with Cons.prems exchange_served [of r s x ds] obtain s1
    where run: "Rx_run (Handle unm (cosmos_App L T)) (firmware_main L T t) (exchange_frames r x) s =
      Ret (answer_frames r ds, firmware_main L T t, s1)" and "ready r s1" by auto
  with Cons.IH [of s1 dss'] Cons.prems dss obtain s2
    where "Rx_run (Handle unm (cosmos_App L T)) (firmware_main L T t) (concat (map (exchange_frames r) xs)) s1 =
      Ret (concat (map (answer_frames r) dss'), firmware_main L T t, s2)" "ready r s2" by auto
  with run dss(1) show ?case by (simp add: Rx_run_append)
qed

end

section \<open>The two builds\<close>

lemma five_words: "length ws = 5 \<Longrightarrow> \<exists>a b c d e. ws = [a, b, c, d, e]"
  by (auto simp: numeral_eq_Suc length_Suc_conv)

lemma key_at_Some:
  "key_at env [a, b, c, d, e] = Some k \<longleftrightarrow>
     (\<exists>master. hd_NewMaster (env_lib env) dumbToken_secret (0x80000000 XOR b) = Inr master \<and>
        child_chain (env_lib env) master [a, b, c, d, e] = Some k)"
  by (simp add: key_at_def split: sum.split)

lemma sign_answer_frames:
  "answer_frames r (replicate n [] @ [sig]) =
     concat (replicate n (frames_of r (PackageResponse [] APDUSuccess))) @ frames_of r (PackageResponse sig APDUSuccess)"
  by (simp add: answer_frames_def map_replicate_const)

text \<open>An exchange is served by any token that serves the request it leads to.\<close>

lemma sign_exchange_served:
  assumes "channelID r \<noteq> 0" and "exchange_ok unm (SignX [a, b, c, d, e] adds final)" and "json_valid (concat (adds @ [final]))"
    and "serve_request T t (SignRq (Sum256 (concat (adds @ [final]))) \<lparr>Purpose = 0x80000000 XOR a, CoinType = 0x80000000 XOR b,
      Account = 0x80000000 XOR c, Change = d, AddressIndex = e\<rparr> AlgoSecp256K1) s = Ret (Inr (DataA sig), s')"
  shows "Rx_run (Handle unm (cosmos_App L T)) (firmware_main L T t) (exchange_frames r (SignX [a, b, c, d, e] adds final)) s =
    Ret (answer_frames r (replicate (1 + length adds) [] @ [sig]), firmware_main L T t, s')"
  using Rx_run_sign [OF assms(1) refl _ sign_result_served [OF assms(4,3)], of unm L] assms(2)
  unfolding exchange_frames_def sign_answer_frames by simp

lemma address_exchange_served:
  assumes "channelID r \<noteq> 0" and "exchange_ok unm (AddressX hrp [a, b, c, d, e])"
    and "serve_request T t (PublicKeyRq \<lparr>Purpose = 0x80000000 XOR a, CoinType = 0x80000000 XOR b,
      Account = 0x80000000 XOR c, Change = d, AddressIndex = e\<rparr>) s = Ret (Inr (DataA pub), s')"
    and "bech32_ConvertBits L (lib_ripemd160 L (Sum256 pub)) = Inr groups" and "bech32_Encode L hrp groups = Inr addr"
  shows "Rx_run (Handle unm (cosmos_App L T)) (firmware_main L T t) (exchange_frames r (AddressX hrp [a, b, c, d, e])) s =
    Ret (answer_frames r [pub @ addr], firmware_main L T t, s')"
proof -
  have "addressFromPubkey L pub hrp = Inr addr" using assms(4,5) by (simp add: addressFromPubkey_def)
  from Rx_run_address [OF assms(1) refl _ _ _ address_result_served [OF assms(3) this], of unm] assms(2)
  show ?thesis by (simp add: exchange_frames_def answer_frames_def)
qed

text \<open>
  A build serves an exchange if its token serves the request as the software token serves it with the
  message hashed as \<open>rehash\<close> says.
\<close>

fun rehashed :: "(bytes \<Rightarrow> bytes) \<Rightarrow> token_request \<Rightarrow> token_request" where
  "rehashed f (SignRq m p a) = SignRq (f m) p AlgoSecp256K1"
| "rehashed f q = q"

definition data_request :: "token_request \<Rightarrow> bool" where
  "data_request q \<longleftrightarrow> (\<exists>m p. q = SignRq m p AlgoSecp256K1 \<or> q = PublicKeyRq p)"

lemma exchange_via_token:
  assumes "channelID r \<noteq> 0" and start: "hd_HardenedKeyStart (env_lib env) = 0x80000000"
    and ok: "exchange_ok unm x" and ans: "wallet_answer rehash L env x = Some ds"
    and serves: "\<And>q b. data_request q \<Longrightarrow> \<exists>d\<in>set ds. length b \<le> length d \<Longrightarrow>
      (\<And>w t. serve_request (dumbToken_impl env) t (rehashed rehash q) w = Ret (Inr (DataA b), w)) \<Longrightarrow>
      \<exists>s'. serve_request T t q s = Ret (Inr (DataA b), s') \<and> good s'"
  shows "\<exists>s'. Rx_run (Handle unm (cosmos_App L T)) (firmware_main L T t) (exchange_frames r x) s =
    Ret (answer_frames r ds, firmware_main L T t, s') \<and> good s'"
proof (cases x)
  case (SignX ws adds final)
  with ok five_words [of ws] obtain a b c d e where ws: "ws = [a, b, c, d, e]" by auto
  let ?m = "concat (adds @ [final])" and ?p = "\<lparr>Purpose = 0x80000000 XOR a, CoinType = 0x80000000 XOR b,
    Account = 0x80000000 XOR c, Change = d, AddressIndex = e\<rparr>"
  from ans SignX ws obtain master k sk sig where m: "json_valid ?m" and ds: "ds = replicate (1 + length adds) [] @ [sig]"
    and key: "hd_NewMaster (env_lib env) dumbToken_secret (0x80000000 XOR b) = Inr master"
      "child_chain (env_lib env) master [a, b, c, d, e] = Some k" "hd_ECPrivKey (env_lib env) k = Inr sk"
      "ec_Sign (env_lib env) sk (rehash (Sum256 ?m)) = Inr sig"
    by (auto simp: Let_def key_at_Some bind_eq_Some_conv simp del: child_chain.simps split: if_splits)
  obtain s' where s': "serve_request T t (SignRq (Sum256 ?m) ?p AlgoSecp256K1) s = Ret (Inr (DataA sig), s')" "good s'"
    by (rule exE [OF serves [of "SignRq (Sum256 ?m) ?p AlgoSecp256K1" sig]]) (use dumb_serves_wire(1) [OF start key] in \<open>auto simp: data_request_def ds\<close>)
  with sign_exchange_served [OF assms(1) ok [unfolded SignX ws] m s'(1)] show ?thesis unfolding SignX ws ds by blast
next
  case (AddressX hrp ws)
  with ok five_words [of ws] obtain a b c d e where ws: "ws = [a, b, c, d, e]" by auto
  let ?p = "\<lparr>Purpose = 0x80000000 XOR a, CoinType = 0x80000000 XOR b,
    Account = 0x80000000 XOR c, Change = d, AddressIndex = e\<rparr>"
  from ans AddressX ws obtain master k pk pub groups addr where ds: "ds = [pub @ addr]"
    and key: "hd_NewMaster (env_lib env) dumbToken_secret (0x80000000 XOR b) = Inr master"
      "child_chain (env_lib env) master [a, b, c, d, e] = Some k" "hd_Neuter (env_lib env) k = Inr pk"
      "hd_ECPubKey (env_lib env) pk = Inr pub"
    and addr: "bech32_ConvertBits L (lib_ripemd160 L (Sum256 pub)) = Inr groups" "bech32_Encode L hrp groups = Inr addr"
    by (auto simp: key_at_Some bind_eq_Some_conv simp del: child_chain.simps)
  obtain s' where s': "serve_request T t (PublicKeyRq ?p) s = Ret (Inr (DataA pub), s')" "good s'"
    by (rule exE [OF serves [of "PublicKeyRq ?p" pub]]) (use dumb_serves_wire(2) [OF start key] in \<open>auto simp: data_request_def ds\<close>)
  with address_exchange_served [OF assms(1) ok [unfolded AddressX ws] s'(1) addr] show ?thesis unfolding AddressX ws ds by blast
qed

definition software_ready :: "('k, 'sk, 'w) token_env \<Rightarrow> 'w \<Rightarrow> Session \<Rightarrow> 'w \<Rightarrow> bool" where
  "software_ready env w0 r w \<longleftrightarrow> channelID r \<noteq> 0 \<and> hd_HardenedKeyStart (env_lib env) = 0x80000000 \<and> w = w0"

lemma rehashed_id: "data_request q \<Longrightarrow> rehashed (\<lambda>m. m) q = q"
  by (auto simp: data_request_def)

interpretation software: wallet_build unm L "dumbToken_impl env" t env "\<lambda>m. m" "software_ready env w0" "\<lambda>_. True"
  for unm L t and env :: "('k, 'sk, 'w) token_env" and w0
proof (unfold_locales, goal_cases)
  case (1 r s x ds)
  then have ready: "channelID r \<noteq> 0" "hd_HardenedKeyStart (env_lib env) = 0x80000000" by (simp_all add: software_ready_def)
  show ?case
    by (rule exchange_via_token [OF ready 1(2,3)]) (use 1(1) in \<open>simp add: rehashed_id\<close>)
qed

definition tee_wallet_ready ::
  "'w teelib \<Rightarrow> 'w ns_machine \<Rightarrow> (Context \<times> 'w) rpcCallFunc \<Rightarrow> ('k, 'sk, 'w) token_env \<Rightarrow> bytes \<Rightarrow> app_id list \<Rightarrow>
   Context \<Rightarrow> Session \<Rightarrow> Context \<times> 'w \<Rightarrow> bool" where
  "tee_wallet_ready lib M call env trace keys c r s \<longleftrightarrow>
     channelID r \<noteq> 0 \<and> hd_HardenedKeyStart (env_lib env) = 0x80000000 \<and> tee_system lib M call env trace keys \<and>
     tee_ready M s \<and> fst s = c"

definition short_answers :: "bytes list \<Rightarrow> bool" where
  "short_answers = list_all (\<lambda>d. length d \<le> 243)"

lemma rehashed_tee: "data_request q \<Longrightarrow> hashed_request q = rehashed Sum256 q \<and> answer_ok (hashed_request q) (DataA b)"
  by (auto simp: data_request_def)

interpretation tee_build: wallet_build unm L "TEEToken_impl (nonsecure_Call lib M keys)" t env Sum256
    "tee_wallet_ready lib M call env trace keys c" short_answers
  for unm L t lib M call and env :: "('k, 'sk, 'w) token_env" and trace keys c
proof (unfold_locales, goal_cases)
  case (1 r s x ds)
  then have ready: "channelID r \<noteq> 0" "hd_HardenedKeyStart (env_lib env) = 0x80000000"
    and sys: "tee_system lib M call env trace keys" and s: "tee_ready M s" "fst s = c" by (simp_all add: tee_wallet_ready_def)
  show ?case
  proof (rule exchange_via_token [OF ready 1(2,3)])
    fix q b
    assume q: "data_request q" and "\<exists>d\<in>set ds. length b \<le> length d"
      and serves: "\<And>w t. serve_request (dumbToken_impl env) t (rehashed Sum256 q) w = Ret (Inr (DataA b), w)"
    with 1(4) have "length b \<le> 243" by (auto simp: short_answers_def list_all_iff)
    then show "\<exists>s'. serve_request (TEEToken_impl (nonsecure_Call lib M keys)) t q s = Ret (Inr (DataA b), s') \<and>
        tee_wallet_ready lib M call env trace keys c r s'"
      using tee_serves_one [OF sys s(1), of q b t] rehashed_tee [OF q, of b] serves s ready sys
      by (auto simp: tee_wallet_ready_def)
  qed
qed

end
