(* ===== verification/Spec2Isabelle.thy ===== *)
theory Spec2Isabelle
  imports Usb Usb_Device Usb_Config Sha256_Vectors Crypto Apps Cosmos Firmware Linux_Device Linux_Flags Gen_Cert Wallet Tz Boot Tee_System Program_Memory Wallet_Spec
begin

text \<open>
  WallERA is a hardware wallet that speaks the Ledger HID protocol: firmware for a USB Armory board
  written in Go, a Linux build of the same loop over a USB gadget, and a TrustZone-based trusted OS with a
  cryptography applet in which the keys live when the firmware is built for it.  This library models these
  programs and proves what makes them correct.

  The path of a request.  The host sends 64-byte reports.  \<open>Rx\<close> (\<open>src/firmware/wallera.go\<close>, or
  \<open>src/cmd/wallera-linux/main.go\<close>) hands them to a \<open>Session\<close> (\<open>src/usb/usb.go\<close>), which puts the request
  together.  The complete request goes to \<open>Handler.Handle\<close> (\<open>src/apps/apps.go\<close>), which picks the application by
  class and instruction.  The Cosmos application (\<open>src/apps/cosmos/cosmos.go\<close>) collects a JSON document and
  asks a \<open>Token\<close> (\<open>src/crypto/\<close>) to derive a key along the path the host sent and to sign, or to name the
  public key of an address.  The answer is packaged with a status code, cut into frames by
  \<open>FormatResponse\<close> and taken frame by frame by \<open>Tx\<close>.

  The path of a token request.  The software token \<open>dumbToken\<close> answers in place.  \<open>TEEToken\<close>
  (\<open>src/tee/cryptography_applet/token/client/\<close>) marshals the request to JSON and sends it as mail: a JSON-RPC call
  over a stream of system calls (\<open>src/tee/trusted_os/nonsecuresyscall/\<close>, \<open>tz/client/\<close>), which the trusted OS
  (\<open>tz/tz.go\<close>) serves on its receiver \<open>NonsecureRPC\<close>.  The mail waits in the mailbox; the handler of the call
  loads and runs the applet (\<open>src/tee/cryptography_applet/\<close>), which fetches its mail, dispatches it on its own
  token, writes the response to the result box and exits.  A second call fetches the result.

  Theories.

  \<^item> \<open>Go_Runtime\<close>, the prelude: results that may panic (\<open>go\<close>, \<open>go_bind\<close>), error values and their texts, slices
    with their capacity (\<open>gslice\<close>: a slice expression may reach behind the length), \<open>bytes.Buffer\<close> with its
    growth, byte orders, \<open>binary.Read\<close>, decimal text, and the locale \<open>binary_codec\<close> for fixed-size layouts.
  \<^item> \<open>Usb\<close>: \<open>src/usb/usb.go\<close>, one definition per function.  \<open>HIDFrame\<close> and \<open>HIDFrameNext\<close> interpret
    \<open>binary_codec\<close>.  Reassembly, round trip with \<open>FormatResponse\<close>, what is rejected, the session invariant,
    the chunk loop against a reference, and the two 16-bit wrap-arounds (length and packet index).
  \<^item> \<open>Usb_Device\<close>, \<open>Usb_Config\<close>: \<open>src/usb.go\<close> and \<open>src/firmware/usb.go\<close>.  The HID descriptor, the set-up
    requests, and the configuration of the device, in which descriptors are shared by pointers into a store.
  \<^item> \<open>Sha256\<close>, \<open>Sha256_Vectors\<close>: SHA-256 and HMAC of the Go library as functions, with the test vector of
    ''abc''.
  \<^item> \<open>Json_Scanner\<close>, \<open>Json\<close>, \<open>Json_Print\<close>, \<open>Json_String\<close>, \<open>Base64\<close>, \<open>Json_Codec\<close>, \<open>Json_Roundtrip\<close>,
    \<open>Json_Values\<close>: \<open>encoding/json\<close> and \<open>encoding/base64\<close> as the sources use them.  The validity check is the
    scanner's state machine; \<open>json_Unmarshal\<close> decodes into Go types (\<open>go_type\<close>) field by field, keeps the old
    value where a member is missing or null, matches field names without regard to case and goes on after a type
    error; it is total and type safe, and what \<open>json_Marshal\<close> prints is read back.
  \<^item> \<open>Json_Stream\<close>, \<open>Json_Rpc\<close>: the stream decoder and the messages of \<open>net/rpc/jsonrpc\<close>.
  \<^item> \<open>Crypto\<close>: \<open>src/crypto/\<close>.  Paths, \<open>KeyFromPath\<close>, the \<open>Token\<close> interface as a record and \<open>dumbToken\<close>.  The
    locales \<open>token_contract\<close> and \<open>local_token\<close> say what applications rely on; \<open>dumbToken\<close>, the applet's token
    (both contracts) and \<open>TEEToken\<close> interpret them.
  \<^item> \<open>Apps\<close>: \<open>src/apps/\<close>.  Registry, dispatch, status codes.  The locale \<open>apdu_app\<close> is the contract of an
    application; under it the registry invariant \<open>handler_inv\<close> is kept.
  \<^item> \<open>Cosmos\<close>: \<open>src/apps/cosmos/\<close>.  The whole command handler, an abstract protocol machine
    (\<open>sig_phase\<close>, \<open>sig_cmd\<close>, \<open>sig_step\<close>, \<open>sig_reply\<close>) and the refinement between them; the address command on
    every branch.  It interprets \<open>apdu_app\<close>.
  \<^item> \<open>Firmware\<close>: \<open>src/firmware/wallera.go\<close> and \<open>main.go\<close>.  \<open>Rx\<close> over any handler; the locale
    \<open>request_handler\<close>, interpreted by the registry with the Cosmos application; \<open>Rx\<close> and \<open>Tx\<close> as two
    processes over the unbuffered channel (\<open>dev_step\<close>), which deliver the handler's answers and come to rest.
  \<^item> \<open>Wallera_Linux\<close>: \<open>Rx\<close> and \<open>Tx\<close> of \<open>src/cmd/wallera-linux/main.go\<close>, compared with the firmware.
    \<open>Linux_Device\<close>: its two goroutines as a step relation (\<open>linux_step\<close>) over the channel and the device file;
    every schedule writes the chunks in order, requests of one frame are answered under every schedule, and a panic
    or a failed read or write ends the process.  \<open>Linux_Setup\<close>, \<open>Linux_Flags\<close>: the start-up,
    the gadget set-up and the command line with the package \<open>flag\<close>.
  \<^item> \<open>Gen_Cert\<close>: \<open>src/cmd/gen-cert/main.go\<close>, with the PEM text of \<open>encoding/pem\<close> line by line.
  \<^item> \<open>Wallet\<close>: lemmas that connect transport, registry, application and any token.
  \<^item> \<open>Mem\<close>, \<open>Trust_Zone\<close>: \<open>src/tee/mem/layout.go\<close> and the partition of \<open>tz.go\<close> as the sequence of hardware
    calls it makes.  \<open>Tz_Types\<close>, \<open>Tz_Client\<close>, \<open>Tz\<close>: the rest of \<open>tz.go\<close>, \<open>types.go\<close>, \<open>client.go\<close>, \<open>log.go\<close> and
    \<open>main.go\<close> of the trusted OS; the locales \<open>mail_slot\<close> and \<open>durable_slot\<close> describe the two boxes and are
    interpreted on the RPC operations.
  \<^item> \<open>Nonsecure_Syscall\<close>: \<open>src/tee/trusted_os/nonsecuresyscall/\<close>, the stream and the RPC client; the locale
    \<open>rpc_supervisor\<close> is what \<open>Call\<close> relies on.  \<open>Tz_Rpc\<close> interprets it on the handler of the trusted OS.
  \<^item> \<open>Applet_Token\<close>, \<open>Token_Request\<close>, \<open>Applet\<close>: \<open>src/tee/cryptography_applet/\<close>: the token, the request codec and
    the dispatcher with its contract (\<open>token_request\<close>, \<open>serve_request\<close>), and \<open>main\<close>.
  \<^item> \<open>Tee_Token\<close>, \<open>Tee_Properties\<close>, \<open>Tee_Instance\<close>: the token client, the refinement between it and the software
    token, its limits and failures, and a concrete monitor that meets the hypotheses.  \<open>Wallet_Tee\<close>: the token
    of each build and the Cosmos application over \<open>TEEToken\<close>.
  \<^item> \<open>Wallet_Spec\<close>: an abstract wallet (\<open>exchange\<close>, \<open>wallet_answer\<close>) and the locale \<open>wallet_build\<close>, interpreted by
    the software build and by the TEE build; whole sessions follow from it.
  \<^item> \<open>Nonsecure_Demo\<close>: \<open>src/tee/nonsecure_demo_os/main.go\<close>.  \<open>Boot\<close>: \<open>init\<close>, \<open>main\<close> and the panic handlers of the
    programs as sequences of calls into the board support package.  \<open>Tee_System\<close>: the trusted OS with a program in
    the nonsecure world, from boot to exit or panic.  \<open>Program_Memory\<close>: the memory the programs are linked to
    (\<open>ramStart\<close>, \<open>ramSize\<close>) against the partition of the address space.

  Conventions.  State is passed explicitly; a record per struct, a field per field.  A panic is the value
  \<open>Panic\<close>, an error a value of \<open>go_error\<close> (its format string and numeric arguments, or a wrapped error).  Machine
  integers are words; \<open>uint\<close> has 32 bits on the target.  Loggers only print and are left out, except in the demo
  OS, whose purpose they are.  The library of Go is that of version 1.17.  In \<open>return x, f(&x)\<close> the call comes
  first, as in the code the gc compiler makes.  The RPC client runs its reader only while the caller waits: the
  programs run on one thread and a system call does not yield.  A JSON decoder reads at most 512 bytes before
  it sees the end of the stream (\<open>minRead\<close>), because \<open>Stream.Read\<close> reports the end with the first read.

  Third-party code is an argument: \<open>hdlib\<close> (hdkeychain, btcec, go-bip39), \<open>cosmos_lib\<close> (ripemd160, bech32), the
  APDU parser, \<open>hwlib\<close> and \<open>teelib\<close> (the board, the monitor, the ELF loader), \<open>ns_machine\<close> (registers and
  memory below the system calls), \<open>usb_driver\<close>, \<open>linux_os\<close>, \<open>cert_lib\<close> (random source, clock, keys, DER and files of the
  certificate generator; \<open>writes_files\<close> and \<open>draws_below\<close> are what its property needs).  What the properties need of it is a hypothesis, and the
  witnesses give concrete functions.  For the TEE these are, collected in \<open>tee_system\<close>: \<open>monitor_rpc\<close> (the two RPC
  calls reach the receiver, a reply is kept for the next read), \<open>applets_apart\<close> (running applets leaves the waiting
  reply alone), \<open>loads_applets\<close>, \<open>secure_rpc\<close> (the applet's own calls reach its receiver) and \<open>runs_applet\<close> (a run
  of the context is a run of the applet's \<open>main\<close>, ending in its exit or panic call).  \<open>tee_boot_ready\<close> shows that the
  trusted OS boots into a state from which requests are served (\<open>tee_ready\<close>).  \<open>runs_program\<close> says that the monitor
  runs a given program in the nonsecure world until its exit call, with the call numbers of the stubs
  (\<open>call_numbers\<close>).

  There is no fuel: every loop is structural or has a termination proof, and a run over a list of
  reports is a function of that list.

  Known limits.  The properties are about the code as it is: where it departs from its comments or from what
  it means to do, the theorem or lemma states what happens (\<open>usb_short_init_path\<close>, \<open>linux_long_request_stuck\<close>,
  \<open>linux_panic_may_lose_answer\<close>,
  \<open>wrapped_frame_dropped\<close>, \<open>FormatResponse_length_wraps\<close>, \<open>malformed_is_zero_packet\<close>,
  \<open>unknown_app_panics\<close>, \<open>full_result_box_loses\<close>, \<open>tee_random_bytes_limit\<close>, \<open>nonsecure_program_stops_trusted_os\<close>,
  \<open>linux_setup_skipped\<close>; the double hash in \<open>tee_usb_signature\<close>).  The abstract wallet (\<open>wallet_answer\<close>) only
  answers exchanges without an error; failing ones are the subject of the properties of the components.  The run of the
  demo program in \<open>Tee_System\<close> leaves out the system calls with which its logger prints.  Cryptographic strength is not a subject.

  Not modelled: the loggers (\<open>src/log/\<close>, calls into zap that only print), the assembly stubs that nothing here calls and
  the debugger exit (\<open>src/tee/trusted_os/angel/\<close>), the runtime hooks of the TEE build of the firmware (calls into the
  board package), the images embedded by \<open>src/tee/trusted_os/load.go\<close> (arguments of \<open>main\<close>), signals and delays, the
  unused \<open>testRNG\<close> of the applet, and the concurrency of the USB driver's goroutines, which are not under \<open>src/\<close>.
\<close>

section \<open>Properties of the whole wallet\<close>

text \<open>
  C3. A signature over USB, end to end: a booted device with the software token that receives, frame
  by frame, a sign-init request with five path words, any number of add requests and a last request
  answers every request but the last with success and the last one with the signature of the SHA-256
  hash of the concatenated JSON document under the key derived at exactly the five words sent; the
  device is then in the state it booted in.
\<close>

theorem usb_signature:
  assumes "channelID r \<noteq> 0"
    and "list_all (\<lambda>m. length m \<le> 65535 \<and> parses_header unm m) (sign_requests [a, b, c, d, e] adds final)"
    and "hd_HardenedKeyStart (env_lib env) = 0x80000000"
    and "hd_NewMaster (env_lib env) dumbToken_secret (0x80000000 XOR b) = Inr master"
    and "child_chain (env_lib env) master [a, b, c, d, e] = Some k"
    and "hd_ECPrivKey (env_lib env) k = Inr sk"
    and "json_valid (concat (adds @ [final]))"
    and "ec_Sign (env_lib env) sk (Sum256 (concat (adds @ [final]))) = Inr sig"
  shows "Rx_run (Handle unm (cosmos_App L (dumbToken_impl env))) (firmware_main L (dumbToken_impl env) t)
      (concat (map (frames_of r) (sign_requests [a, b, c, d, e] adds final))) w =
    Ret (concat (replicate (1 + length adds) (frames_of r (PackageResponse [] APDUSuccess))) @
         frames_of r (PackageResponse sig APDUSuccess),
         firmware_main L (dumbToken_impl env) t, w)"
  by (rule Rx_run_sign [OF assms(1) refl assms(2)])
     (rule sign_result_dumb [OF dumbToken_Initialize_wire [OF assms(3,4,5)] assms(6,7,8)])

theorem usb_signature_witness:
  "Rx_run demo_wallet demo_boot
      (concat (map (frames_of (Session_fresh\<lparr>channelID := 257\<rparr>))
        (sign_requests [0x8000002c, 0x80000076, 0x80000000, 0, 0] [[0x7b]] [0x7d]))) () =
    Ret (concat (replicate (1 + length [[0x7b :: byte]])
           (frames_of (Session_fresh\<lparr>channelID := 257\<rparr>) (PackageResponse [] APDUSuccess))) @
         frames_of (Session_fresh\<lparr>channelID := 257\<rparr>)
           (PackageResponse (Sum256 (concat ([[0x7b]] @ [[0x7d]])) @
              concat (map le_put32 [0x8000002c, 0x80000076, 0x80000000, 0, 0])) APDUSuccess),
         demo_boot, ())"
proof (rule usb_signature [where master = "[]" and k = "[0x8000002c, 0x80000076, 0x80000000, 0, 0]"
        and sk = "[0x8000002c, 0x80000076, 0x80000000, 0, 0]"])
  show "json_valid (concat ([[0x7b]] @ [[0x7d]]))" by code_simp
  show "list_all (\<lambda>m. length m \<le> 65535 \<and> parses_header demo_unmarshal m)
      (sign_requests [0x8000002c, 0x80000076, 0x80000000, 0, 0] [[0x7b]] [0x7d])"
    by (simp add: sign_requests_def parses_header_def demo_unmarshal_def sign_request_def le_put32_def)
qed (simp_all only: trace_env_def trace_lib_def token_env.select_convs hdlib.select_convs, simp_all)

text \<open>
  C4. A signature with the keys in the secure world, end to end: the firmware built for the TEE answers the
  frames of a signature over USB with the signature the applet's software token makes, through the token of the
  nonsecure world, the system calls, the mailboxes and a run of the applet, at exactly the five words sent.
  What is signed is the hash of the hash of the JSON document.  Device and trusted OS are then as before.
\<close>

theorem tee_usb_signature:
  assumes "tee_system lib M call env trace keys" and "tee_ready M s"
    and "channelID r \<noteq> 0"
    and "list_all (\<lambda>m. length m \<le> 65535 \<and> parses_header unm m) (sign_requests [a, b, c, d, e] adds final)"
    and "hd_HardenedKeyStart (env_lib env) = 0x80000000"
    and "hd_NewMaster (env_lib env) dumbToken_secret (0x80000000 XOR b) = Inr master"
    and "child_chain (env_lib env) master [a, b, c, d, e] = Some k"
    and "hd_ECPrivKey (env_lib env) k = Inr sk"
    and "json_valid (concat (adds @ [final]))"
    and "ec_Sign (env_lib env) sk (Sum256 (Sum256 (concat (adds @ [final])))) = Inr sig" and "length sig \<le> 243"
  shows "\<exists>s'. Rx_run (Handle unm (cosmos_App L (TEEToken_impl (nonsecure_Call lib M keys))))
      (firmware_main L (TEEToken_impl (nonsecure_Call lib M keys)) tokenImpl_tee_enabled)
      (concat (map (frames_of r) (sign_requests [a, b, c, d, e] adds final))) s =
    Ret (concat (replicate (1 + length adds) (frames_of r (PackageResponse [] APDUSuccess))) @
         frames_of r (PackageResponse sig APDUSuccess),
         firmware_main L (TEEToken_impl (nonsecure_Call lib M keys)) tokenImpl_tee_enabled, s') \<and>
    tee_ready M s' \<and> fst s' = fst s"
proof -
  let ?q = "SignRq (Sum256 (concat (adds @ [final]))) \<lparr>Purpose = 0x80000000 XOR a, CoinType = 0x80000000 XOR b,
    Account = 0x80000000 XOR c, Change = d, AddressIndex = e\<rparr> AlgoSecp256K1"
  have "\<exists>w'. serve_request (dumbToken_impl env) NewDumbToken (hashed_request ?q) w = Ret (Inr (DataA sig), w')" for w
    using dumb_serves_wire(1) [OF assms(5,6,7,8,10)] by simp
  from tee_serves_one [OF assms(1,2) this _ assms(11), of tokenImpl_tee_enabled] obtain s'
    where srv: "serve_request (TEEToken_impl (nonsecure_Call lib M keys)) tokenImpl_tee_enabled ?q s = Ret (Inr (DataA sig), s')"
      and s': "tee_ready M s'" "fst s' = fst s" by auto
  from s' Rx_run_sign [OF assms(3) refl assms(4) sign_result_served [OF srv assms(9)], of L] show ?thesis by blast
qed

theorem tee_usb_signature_witness:
  "\<exists>s'. Rx_run (Handle demo_unmarshal (cosmos_App demo_cosmos_lib (TEEToken_impl (nonsecure_Call demo_lib demo_machine [AppletID]))))
      (firmware_main demo_cosmos_lib (TEEToken_impl (nonsecure_Call demo_lib demo_machine [AppletID])) tokenImpl_tee_enabled)
      (concat (map (frames_of (Session_fresh\<lparr>channelID := 257\<rparr>))
        (sign_requests [0x8000002c, 0x80000076, 0x80000000, 0, 0] [[0x7b]] [0x7d]))) demo_state =
    Ret (concat (replicate (1 + length [[0x7b :: byte]])
           (frames_of (Session_fresh\<lparr>channelID := 257\<rparr>) (PackageResponse [] APDUSuccess))) @
         frames_of (Session_fresh\<lparr>channelID := 257\<rparr>)
           (PackageResponse (Sum256 (Sum256 (concat ([[0x7b]] @ [[0x7d]]))) @
              concat (map le_put32 [0x8000002c, 0x80000076, 0x80000000, 0, 0])) APDUSuccess),
         firmware_main demo_cosmos_lib (TEEToken_impl (nonsecure_Call demo_lib demo_machine [AppletID])) tokenImpl_tee_enabled, s') \<and>
    tee_ready demo_machine s' \<and> fst s' = fst demo_state"
proof (rule tee_usb_signature [OF demo_tee_system demo_tee_ready, where master = "[]"
        and k = "[0x8000002c, 0x80000076, 0x80000000, 0, 0]" and sk = "[0x8000002c, 0x80000076, 0x80000000, 0, 0]"])
  show "json_valid (concat ([[0x7b]] @ [[0x7d]]))" by code_simp
  show "list_all (\<lambda>m. length m \<le> 65535 \<and> parses_header demo_unmarshal m)
      (sign_requests [0x8000002c, 0x80000076, 0x80000000, 0, 0] [[0x7b]] [0x7d])"
    by (simp add: sign_requests_def parses_header_def demo_unmarshal_def sign_request_def le_put32_def)
  show "length (Sum256 (Sum256 (concat ([[0x7b]] @ [[0x7d]]))) @ concat (map le_put32 [0x8000002c, 0x80000076, 0x80000000, 0, 0])) \<le> 243"
    by (simp add: length_Sum256 le_put32_def)
qed (simp_all only: demo_env_def trace_lib_def token_env.select_convs hdlib.select_convs, simp_all)

text \<open>
  C1. The firmware with the software token implements the abstract wallet: any sequence of signature and
  address exchanges, sent frame by frame to a booted device, is answered request by request with what the
  abstract wallet answers, and leaves the device as it booted.
\<close>

theorem wallet_session:
  fixes env :: "('k, 'sk, 'w) token_env"
  assumes "channelID r \<noteq> 0" and "hd_HardenedKeyStart (env_lib env) = 0x80000000"
    and "list_all (exchange_ok unm) xs" and "map (wallet_answer (\<lambda>m. m) L env) xs = map Some dss"
  shows "Rx_run (Handle unm (cosmos_App L (dumbToken_impl env))) (firmware_main L (dumbToken_impl env) tokenImpl)
      (concat (map (exchange_frames r) xs)) w =
    Ret (concat (map (answer_frames r) dss), firmware_main L (dumbToken_impl env) tokenImpl, w)"
  using software.session_served [of env w r w unm xs L dss tokenImpl] assms
  by (auto simp: software_ready_def list_all_iff)

definition demo_exchanges :: "exchange list" where
  "demo_exchanges =
     [AddressX [99, 111] [0x8000002c, 0x80000076, 0x80000000, 0, 1],
      SignX [0x8000002c, 0x80000076, 0x80000000, 0, 0] [[0x7b]] [0x7d]]"

definition demo_answers :: "(bytes \<Rightarrow> bytes) \<Rightarrow> bytes list list" where
  "demo_answers rehash =
     [[(2 # concat (map le_put32 [0x8000002c, 0x80000076, 0x80000000, 0, 1])) @
       [99, 111] @ take 20 (Sum256 (2 # concat (map le_put32 [0x8000002c, 0x80000076, 0x80000000, 0, 1])))],
      [[], [], rehash (Sum256 [0x7b, 0x7d]) @ concat (map le_put32 [0x8000002c, 0x80000076, 0x80000000, 0, 0])]]"

lemma demo_exchanges_ok: "list_all (exchange_ok demo_unmarshal) demo_exchanges"
  by (simp add: demo_exchanges_def sign_requests_def address_request_def parses_header_def demo_unmarshal_def
      sign_request_def le_put32_def)

lemma demo_exchanges_answered:
  assumes "env_lib env = trace_lib"
  shows "map (wallet_answer rehash demo_cosmos_lib env) demo_exchanges = map Some (demo_answers rehash)"
proof -
  have "json_valid [0x7b, 0x7d]" by code_simp
  with assms show ?thesis
    by (simp add: demo_exchanges_def demo_answers_def key_at_def trace_lib_def demo_cosmos_lib_def Let_def)
qed

theorem wallet_session_witness:
  "Rx_run demo_wallet (firmware_main demo_cosmos_lib (dumbToken_impl trace_env) tokenImpl)
      (concat (map (exchange_frames (Session_fresh\<lparr>channelID := 9\<rparr>)) demo_exchanges)) () =
    Ret (concat (map (answer_frames (Session_fresh\<lparr>channelID := 9\<rparr>)) (demo_answers (\<lambda>m. m))),
      firmware_main demo_cosmos_lib (dumbToken_impl trace_env) tokenImpl, ())"
  by (rule wallet_session [OF _ _ demo_exchanges_ok demo_exchanges_answered])
     (simp_all add: trace_env_def trace_lib_def)

text \<open>
  C2. The firmware built for the TEE implements the abstract wallet from the boot of the trusted OS on: with the
  applet registered and the nonsecure world loaded, any sequence of exchanges is answered with what the abstract
  wallet answers when it hashes once more before it signs, as long as the answers have at most 243 bytes; the
  firmware and the trusted OS are then as they booted.
\<close>

theorem tee_wallet_session:
  fixes env :: "('k, 'sk, 'w) token_env"
  assumes "tee_system lib M call env trace keys"
    and "RegisterApp lib NewContext taELF AppletID w = (None, c1, w1)"
    and "LoadNonsecureWorld lib c1 osELF w1 = (None, c2, w2)" and "ns_waiting M w2 = []"
    and "channelID r \<noteq> 0" and "hd_HardenedKeyStart (env_lib env) = 0x80000000"
    and "list_all (exchange_ok unm) xs" and "map (wallet_answer Sum256 L env) xs = map Some dss"
    and "list_all (list_all (\<lambda>d. length d \<le> 243)) dss"
  shows "\<exists>s'. Rx_run (Handle unm (cosmos_App L (TEEToken_impl (nonsecure_Call lib M keys))))
      (firmware_main L (TEEToken_impl (nonsecure_Call lib M keys)) tokenImpl_tee_enabled)
      (concat (map (exchange_frames r) xs)) (c2, w2) =
    Ret (concat (map (answer_frames r) dss),
      firmware_main L (TEEToken_impl (nonsecure_Call lib M keys)) tokenImpl_tee_enabled, s') \<and>
    tee_ready M s' \<and> fst s' = c2"
  using tee_build.session_served [of lib M call env trace keys c2 r "(c2, w2)" unm xs L dss tokenImpl_tee_enabled]
    tee_boot_ready [OF assms(2-4)] assms
  by (auto simp: tee_wallet_ready_def short_answers_def)

theorem tee_wallet_session_witness:
  "\<exists>s'. Rx_run (Handle demo_unmarshal (cosmos_App demo_cosmos_lib (TEEToken_impl (nonsecure_Call demo_lib demo_machine [AppletID]))))
      (firmware_main demo_cosmos_lib (TEEToken_impl (nonsecure_Call demo_lib demo_machine [AppletID])) tokenImpl_tee_enabled)
      (concat (map (exchange_frames (Session_fresh\<lparr>channelID := 9\<rparr>)) demo_exchanges)) (fst demo_booted, snd demo_booted) =
    Ret (concat (map (answer_frames (Session_fresh\<lparr>channelID := 9\<rparr>)) (demo_answers Sum256)),
      firmware_main demo_cosmos_lib (TEEToken_impl (nonsecure_Call demo_lib demo_machine [AppletID])) tokenImpl_tee_enabled, s') \<and>
    tee_ready demo_machine s' \<and> fst s' = fst demo_booted"
proof (rule tee_wallet_session [OF demo_tee_system demo_boots(1) _ _ _ _ demo_exchanges_ok demo_exchanges_answered])
  show "LoadNonsecureWorld demo_lib (NewContext\<lparr>Apps := [AppletID \<mapsto> \<lparr>img_Region = AppletRegion, img_ELF = [1]\<rparr>]\<rparr>) [2]
      (snd demo_state) = (None, fst demo_booted, snd demo_booted)" using demo_boots(2) by simp
  show "list_all (list_all (\<lambda>d. length d \<le> 243)) (demo_answers Sum256)"
    by (simp add: demo_answers_def le_put32_def)
qed (simp_all add: demo_waiting demo_env_def trace_lib_def)

text \<open>
  C36. The path of a sign-init request that carries none: a single frame announcing a five-byte request
  is accepted, and the derivation path of the new signature session is taken from the padding of the
  frame behind the announced bytes.
\<close>

theorem usb_short_init_path:
  assumes "NewSession f = Ret (Inr s)"
    and "hf_DataLengthInner (HIDFrame_decode f) = 5" and "f ! 9 = signInit"
    and "unm (take 5 (drop 7 f)) = Inr \<lparr>CLA = appID, INS = claSignSecp256K1\<rparr>"
  shows "Rx (Handle unm (cosmos_App L T)) (firmware_main L T t) f w =
    Ret (frames_of s (PackageResponse [] APDUSuccess), None,
      firmware_main L T t\<lparr>ah := with_app (ah (firmware_main L T t)) \<lparr>Cosmos_Token = t, currentSignatureSession =
        Some \<lparr>derivationPath = wire_path (drop 12 f), sig_data = empty_buffer\<rparr>\<rparr>\<rparr>, w)"
  by (rule Rx_short_init [OF refl]) (rule assms)+

definition demo_short :: bytes where
  "demo_short = [1, 1, 5, 0, 0, 0, 5, 85, 2, 0, 0, 0] @ replicate 52 7"

definition demo_short_session :: Session where
  "demo_short_session = (case NewSession demo_short of Ret (Inr s) \<Rightarrow> s | _ \<Rightarrow> Session_fresh)"

theorem usb_short_init_path_witness:
  "Rx demo_wallet demo_boot demo_short () =
    Ret (frames_of demo_short_session (PackageResponse [] APDUSuccess), None,
      demo_boot\<lparr>ah := with_app (ah demo_boot) \<lparr>Cosmos_Token = NewDumbToken, currentSignatureSession =
        Some \<lparr>derivationPath = wire_path (drop 12 demo_short), sig_data = empty_buffer\<rparr>\<rparr>\<rparr>, ())"
  by (rule usb_short_init_path) code_simp+

text \<open>
  C26. Dispatch in the wallet: whatever has happened since boot, a request of class 85 with one of the
  three announced instructions is handled by the Cosmos application and its answer packaged; every other
  request is answered with the status \<open>0x6E00\<close> (class not supported), also when only the
  instruction is unknown, with an error and without any change.
\<close>

theorem wallet_dispatch:
  assumes "handler_inv (cosmos_App L T) h" and "appMap h = [appID \<mapsto> c]" and "unm (elems g) = Inr p"
  shows "if CLA p = 85 \<and> INS p \<in> {0, 2, 4}
         then Handle unm (cosmos_App L T) h g w =
           go_bind (Cosmos_Handle L T (INS p) g c w) (\<lambda>((d, code, err), c', w').
             Ret ((Some (PackageResponse d code), err), with_app h c', w'))
         else \<exists>e. Handle unm (cosmos_App L T) h g w = Ret ((Some [0x6E, 0x00], Some e), h, w)"
proof (cases "CLA p = 85 \<and> INS p \<in> {0, 2, 4}")
  case True
  then have "p = \<lparr>CLA = appID, INS = INS p\<rparr>" by (cases p) (simp add: appID_def)
  moreover from True have "INS p \<in> set (Cosmos_Commands c)"
    by (auto simp: Cosmos_Commands_def cosmos_consts)
  ultimately show ?thesis
    using Handle_cosmos [OF assms(1,2), of unm g "INS p" w] assms(3) True by simp
next
  case False
  have "PackageResponse [] APDUCLANotSupported = [0x6E, 0x00]" by code_simp
  with False assms cosmos.Handle_announced [OF assms(1), of unm g p c w] show ?thesis
    by (cases "CLA p = 85")
       (auto simp: Handle_def UnmarshalCAPDU_def appID_def cosmos_App_def Cosmos_Commands_def cosmos_consts)
qed

theorem wallet_dispatch_witness:
  "if CLA \<lparr>CLA = 85, INS = 7\<rparr> = 85 \<and> INS \<lparr>CLA = 85, INS = 7\<rparr> \<in> {0, 2, 4}
   then demo_wallet (ah demo_boot) (slice_of [85, 7, 0, 0, 0]) () =
     go_bind (Cosmos_Handle demo_cosmos_lib (dumbToken_impl trace_env) (INS \<lparr>CLA = 85, INS = 7\<rparr>)
         (slice_of [85, 7, 0, 0, 0]) \<lparr>Cosmos_Token = NewDumbToken, currentSignatureSession = None\<rparr> ())
       (\<lambda>((d, code, err), c', w').
          Ret ((Some (PackageResponse d code), err), with_app (ah demo_boot) c', w'))
   else \<exists>e. demo_wallet (ah demo_boot) (slice_of [85, 7, 0, 0, 0]) () =
     Ret ((Some [0x6E, 0x00], Some e), ah demo_boot, ())"
  by (rule wallet_dispatch [OF _ firmware_main_app])
     (rule conjunct2 [OF firmware_main_inv], simp add: demo_unmarshal_def)

end
